(* ===== verification/Prelude.thy ===== *)
theory Prelude
  imports Main "HOL-Library.Word" "HOL-Library.Multiset"
begin

text \<open>
  What every component shares: the integer types of the Go code, the outcome of a Go call
  (a result, an error value, a panic, or a loop cut off by its fuel), programs as explicit
  state passing with the state kept on every outcome, as Go keeps the writes made before an
  error return, the composition rules of such programs, and the little-endian codec.
\<close>

named_theorems frame_intros \<open>introduction rules that decompose a program in a frame proof\<close>
named_theorems prog_simps \<open>equations that run the program combinators\<close>

section \<open>Machine integers\<close>

type_synonym u8 = "8 word"
type_synonym u16 = "16 word"
type_synonym u32 = "32 word"
type_synonym u64 = "64 word"

lemma sint_of_int: "- (2 ^ 63) \<le> x \<Longrightarrow> x < 2 ^ 63 \<Longrightarrow> sint (of_int x :: u64) = x"
  by (simp add: sint_sbintrunc' signed_take_bit_int_eq_self)

lemma sint_of_nat64: "n < 2 ^ 63 \<Longrightarrow> sint (of_nat n :: u64) = int n"
proof -
  assume "n < 2 ^ 63"
  then have "int n < 2 ^ 63" by (metis of_nat_less_iff of_nat_numeral of_nat_power)
  then have "sint (of_int (int n) :: u64) = int n" by (intro sint_of_int) simp_all
  then show ?thesis by simp
qed

lemma sint_power2: "n < 63 \<Longrightarrow> sint (2 ^ n :: u64) = 2 ^ n"
proof -
  assume "n < 63"
  then have "2 ^ n < (2 ^ 63 :: nat)" by (rule power_strict_increasing) simp
  from sint_of_nat64 [OF this] show ?thesis by simp
qed

section \<open>Outcomes and programs\<close>

text \<open>
  The error values the code tells apart, or only passes on: the sentinel \<open>ErrInterrupted\<close>
  of tracer/controller.go, the type \<open>UnspecifiedThreadError\<close> of debugapi/client.go, messages
  made by errors.New or fmt.Errorf, and an error whose text was put into another one by
  fmt.Errorf with the verb \%v, which is not equal to the sentinel any more.
\<close>

datatype error =
    ErrInterrupted
  | UnspecifiedThreadError "int list"
  | ErrMsg string
  | Wrapped string error

datatype 'a outcome = Ok 'a | Fail error | Panic | OutOfFuel

type_synonym ('s, 'a) prog = "'s \<Rightarrow> 'a outcome \<times> 's"

fun isOk :: "'a outcome \<Rightarrow> bool" where
  "isOk (Ok _) = True"
| "isOk (Fail _) = False"
| "isOk Panic = False"
| "isOk OutOfFuel = False"

lemma isOk_iff: "isOk r \<longleftrightarrow> (\<exists>a. r = Ok a)"
  by (cases r) auto

definition returnM :: "'a \<Rightarrow> ('s, 'a) prog" where
  "returnM a = (\<lambda>s. (Ok a, s))"

definition failM :: "error \<Rightarrow> ('s, 'a) prog" where
  "failM e = (\<lambda>s. (Fail e, s))"

definition panicM :: "('s, 'a) prog" where
  "panicM = (\<lambda>s. (Panic, s))"

definition outOfFuelM :: "('s, 'a) prog" where
  "outOfFuelM = (\<lambda>s. (OutOfFuel, s))"

definition bindM :: "('s, 'a) prog \<Rightarrow> ('a \<Rightarrow> ('s, 'b) prog) \<Rightarrow> ('s, 'b) prog" where
  "bindM m f = (\<lambda>s. case m s of
       (Ok a, s') \<Rightarrow> f a s'
     | (Fail e, s') \<Rightarrow> (Fail e, s')
     | (Panic, s') \<Rightarrow> (Panic, s')
     | (OutOfFuel, s') \<Rightarrow> (OutOfFuel, s'))"

definition seqM :: "('s, unit) prog \<Rightarrow> ('s, 'b) prog \<Rightarrow> ('s, 'b) prog" where
  "seqM m k = bindM m (\<lambda>_. k)"

definition getsM :: "('s \<Rightarrow> 'a) \<Rightarrow> ('s, 'a) prog" where
  "getsM f = (\<lambda>s. (Ok (f s), s))"

definition modifyM :: "('s \<Rightarrow> 's) \<Rightarrow> ('s, unit) prog" where
  "modifyM f = (\<lambda>s. (Ok (), f s))"

text \<open>An observation of the state that may fail, and leaves the state as it is.\<close>

definition readM :: "('s \<Rightarrow> 'a outcome) \<Rightarrow> ('s, 'a) prog" where
  "readM f = (\<lambda>s. (f s, s))"

text \<open>A program on a part of the state, run on the whole state.\<close>

definition zoomM :: "('s \<Rightarrow> 't) \<Rightarrow> ('t \<Rightarrow> 's \<Rightarrow> 's) \<Rightarrow> ('t, 'a) prog \<Rightarrow> ('s, 'a) prog" where
  "zoomM get put m = (\<lambda>s. case m (get s) of (r, t) \<Rightarrow> (r, put t s))"

text \<open>The code's \<open>if err != nil { ... }\<close> with a body other than returning the error.\<close>

definition catchM :: "('s, 'a) prog \<Rightarrow> (error \<Rightarrow> ('s, 'a) prog) \<Rightarrow> ('s, 'a) prog" where
  "catchM m h = (\<lambda>s. case m s of
       (Fail e, s') \<Rightarrow> h e s'
     | (Ok a, s') \<Rightarrow> (Ok a, s')
     | (Panic, s') \<Rightarrow> (Panic, s')
     | (OutOfFuel, s') \<Rightarrow> (OutOfFuel, s'))"

text \<open>The same where the code after the call is not run on the error path.\<close>

definition branchM :: "('s, 'a) prog \<Rightarrow> ('a \<Rightarrow> ('s, 'b) prog) \<Rightarrow> (error \<Rightarrow> ('s, 'b) prog) \<Rightarrow> ('s, 'b) prog" where
  "branchM m k h = (\<lambda>s. case m s of
       (Fail e, s') \<Rightarrow> h e s'
     | (Ok a, s') \<Rightarrow> k a s'
     | (Panic, s') \<Rightarrow> (Panic, s')
     | (OutOfFuel, s') \<Rightarrow> (OutOfFuel, s'))"

fun forM :: "'a list \<Rightarrow> ('a \<Rightarrow> ('s, unit) prog) \<Rightarrow> ('s, unit) prog" where
  "forM [] f = returnM ()"
| "forM (x # xs) f = seqM (f x) (forM xs f)"

text \<open>Observations compose in the same way.\<close>

fun bindO :: "'a outcome \<Rightarrow> ('a \<Rightarrow> 'b outcome) \<Rightarrow> 'b outcome" where
  "bindO (Ok a) f = f a"
| "bindO (Fail e) f = Fail e"
| "bindO Panic f = Panic"
| "bindO OutOfFuel f = OutOfFuel"

subsection \<open>Running the combinators\<close>

lemma returnM_run [simp, prog_simps]: "returnM a s = (Ok a, s)"
  by (simp add: returnM_def)

lemma failM_run [simp, prog_simps]: "failM e s = (Fail e, s)"
  by (simp add: failM_def)

lemma panicM_run [simp, prog_simps]: "panicM s = (Panic, s)"
  by (simp add: panicM_def)

lemma outOfFuelM_run [simp, prog_simps]: "outOfFuelM s = (OutOfFuel, s)"
  by (simp add: outOfFuelM_def)

lemma getsM_run [simp, prog_simps]: "getsM f s = (Ok (f s), s)"
  by (simp add: getsM_def)

lemma modifyM_run [simp, prog_simps]: "modifyM f s = (Ok (), f s)"
  by (simp add: modifyM_def)

lemma readM_run [simp, prog_simps]: "readM f s = (f s, s)"
  by (simp add: readM_def)

lemma bindM_run [prog_simps]:
  "m s = (Ok a, s') \<Longrightarrow> bindM m f s = f a s'"
  "m s = (Fail e, s') \<Longrightarrow> bindM m f s = (Fail e, s')"
  "m s = (Panic, s') \<Longrightarrow> bindM m f s = (Panic, s')"
  "m s = (OutOfFuel, s') \<Longrightarrow> bindM m f s = (OutOfFuel, s')"
  by (simp_all add: bindM_def)

lemma seqM_run [prog_simps]:
  "m s = (Ok (), s') \<Longrightarrow> seqM m k s = k s'"
  "m s = (Fail e, s') \<Longrightarrow> seqM m k s = (Fail e, s')"
  "m s = (Panic, s') \<Longrightarrow> seqM m k s = (Panic, s')"
  "m s = (OutOfFuel, s') \<Longrightarrow> seqM m k s = (OutOfFuel, s')"
  by (simp_all add: seqM_def bindM_def)

lemma zoomM_run [prog_simps]: "m (get s) = (r, t) \<Longrightarrow> zoomM get put m s = (r, put t s)"
  by (simp add: zoomM_def)

lemma catchM_run [prog_simps]:
  "m s = (Ok a, s') \<Longrightarrow> catchM m h s = (Ok a, s')"
  "m s = (Fail e, s') \<Longrightarrow> catchM m h s = h e s'"
  "m s = (Panic, s') \<Longrightarrow> catchM m h s = (Panic, s')"
  "m s = (OutOfFuel, s') \<Longrightarrow> catchM m h s = (OutOfFuel, s')"
  by (simp_all add: catchM_def)

lemma branchM_run [prog_simps]:
  "m s = (Ok a, s') \<Longrightarrow> branchM m k h s = k a s'"
  "m s = (Fail e, s') \<Longrightarrow> branchM m k h s = h e s'"
  "m s = (Panic, s') \<Longrightarrow> branchM m k h s = (Panic, s')"
  "m s = (OutOfFuel, s') \<Longrightarrow> branchM m k h s = (OutOfFuel, s')"
  by (simp_all add: branchM_def)

lemma bindM_primitive [simp]:
  "bindM (returnM a) f = f a"
  "bindM (failM e) f = failM e"
  "bindM panicM f = panicM"
  "bindM (getsM g) f s = f (g s) s"
  "bindM (modifyM h) f' s = f' () (h s)"
  "seqM (returnM ()) k = k"
  "seqM (failM e) k = failM e"
  "seqM panicM k = panicM"
  "seqM (modifyM h) k s = k (h s)"
  by (simp_all add: bindM_def seqM_def fun_eq_iff)

lemma bindM_readM: "bindM (readM f) k s = (case f s of Ok a \<Rightarrow> k a s | Fail e \<Rightarrow> (Fail e, s)
    | Panic \<Rightarrow> (Panic, s) | OutOfFuel \<Rightarrow> (OutOfFuel, s))"
  by (simp add: bindM_def split: outcome.splits)

lemma bindM_Ok: "bindM m f s = (Ok b, t) \<longleftrightarrow> (\<exists>a s'. m s = (Ok a, s') \<and> f a s' = (Ok b, t))"
  by (auto simp: bindM_def split: prod.splits outcome.splits)

lemma seqM_Ok: "seqM m k s = (Ok b, t) \<longleftrightarrow> (\<exists>s'. m s = (Ok (), s') \<and> k s' = (Ok b, t))"
  by (auto simp: seqM_def bindM_Ok)

lemma seqM_bindM: "seqM m (bindM k f) = bindM (seqM m k) f"
  by (auto simp: seqM_def bindM_def fun_eq_iff split: prod.splits outcome.splits)

lemma zoomM_Ok: "zoomM get put m s = (r, s') \<longleftrightarrow> (\<exists>t. m (get s) = (r, t) \<and> s' = put t s)"
  by (auto simp: zoomM_def split: prod.splits)

lemma bindO_Ok: "bindO r f = Ok b \<longleftrightarrow> (\<exists>a. r = Ok a \<and> f a = Ok b)"
  by (cases r) auto

lemma bindO_cong [fundef_cong]:
  "r = r' \<Longrightarrow> (\<And>a. r' = Ok a \<Longrightarrow> f a = f' a) \<Longrightarrow> bindO r f = bindO r' f'"
  by (cases r') auto

lemma bindO_assoc: "bindO (bindO r f) g = bindO r (\<lambda>a. bindO (f a) g)"
  by (cases r) auto

lemma bindO_not_Panic: "r \<noteq> Panic \<Longrightarrow> (\<And>a. r = Ok a \<Longrightarrow> f a \<noteq> Panic) \<Longrightarrow> bindO r f \<noteq> Panic"
  by (cases r) auto

text \<open>A chain of error returns panics where one of its calls does.\<close>

lemma bindM_Panic:
  "fst (bindM m f s) = Panic \<longleftrightarrow>
     fst (m s) = Panic \<or> (\<exists>a s'. m s = (Ok a, s') \<and> fst (f a s') = Panic)"
  by (cases "m s"; cases "fst (m s)") (auto simp: bindM_def)

lemma seqM_Panic:
  "fst (seqM m k s) = Panic \<longleftrightarrow>
     fst (m s) = Panic \<or> (\<exists>s'. m s = (Ok (), s') \<and> fst (k s') = Panic)"
  by (auto simp: seqM_def bindM_Panic)

section \<open>Frame relations\<close>

text \<open>
  A reflexive and transitive relation between the state before and after: an invariant that
  every step keeps, a field no step writes, a go routine no step touches. Whatever composes
  steps that respect it respects it too.
\<close>

definition keeps :: "('s \<Rightarrow> 's \<Rightarrow> bool) \<Rightarrow> ('s, 'a) prog \<Rightarrow> bool" where
  "keeps R m \<longleftrightarrow> (\<forall>s. R s (snd (m s)))"

lemma keepsI [intro?]: "(\<And>s. R s (snd (m s))) \<Longrightarrow> keeps R m"
  by (simp add: keeps_def)

lemma keepsD: "keeps R m \<Longrightarrow> m s = (r, s') \<Longrightarrow> R s s'"
  by (metis keeps_def snd_conv)

locale frame =
  fixes R :: "'s \<Rightarrow> 's \<Rightarrow> bool"
  assumes refl: "R s s"
    and trans: "R s t \<Longrightarrow> R t u \<Longrightarrow> R s u"
begin

lemma return_frame [frame_intros]: "keeps R (returnM a)"
  by (simp add: keeps_def refl)

lemma fail_frame [frame_intros]: "keeps R (failM e)"
  by (simp add: keeps_def refl)

lemma panic_frame [frame_intros]: "keeps R panicM"
  by (simp add: keeps_def refl)

lemma outOfFuel_frame [frame_intros]: "keeps R outOfFuelM"
  by (simp add: keeps_def refl)

lemma gets_frame [frame_intros]: "keeps R (getsM f)"
  by (simp add: keeps_def refl)

lemma read_frame [frame_intros]: "keeps R (readM f)"
  by (simp add: keeps_def refl)

lemma bind_frame_at:
  assumes "R s (snd (m s))" and "\<And>a s'. m s = (Ok a, s') \<Longrightarrow> R s' (snd (f a s'))"
  shows "R s (snd (bindM m f s))"
  using assms trans
  by (cases "m s"; cases "fst (m s)") (fastforce simp: bindM_def)+

lemma bind_frame [frame_intros]:
  assumes "keeps R m" and "\<And>a. keeps R (f a)"
  shows "keeps R (bindM m f)"
  using assms by (simp add: keeps_def bind_frame_at)

lemma seq_frame [frame_intros]:
  assumes "keeps R m" and "keeps R k"
  shows "keeps R (seqM m k)"
  using assms by (simp add: seqM_def bind_frame)

lemma catch_frame [frame_intros]:
  assumes m: "keeps R m" and h: "\<And>e. keeps R (h e)"
  shows "keeps R (catchM m h)"
proof (rule keepsI)
  fix s
  obtain r s' where ms: "m s = (r, s')" by (cases "m s")
  with m have "R s s'" by (auto dest: keepsD)
  moreover have "R s' (snd (h e s'))" for e using h by (simp add: keeps_def)
  ultimately show "R s (snd (catchM m h s))"
    using ms trans by (cases r) (auto simp: catchM_def)
qed

lemma branch_frame [frame_intros]:
  assumes m: "keeps R m" and k: "\<And>a. keeps R (k a)" and h: "\<And>e. keeps R (h e)"
  shows "keeps R (branchM m k h)"
proof (rule keepsI)
  fix s
  obtain r s' where ms: "m s = (r, s')" by (cases "m s")
  with m have "R s s'" by (auto dest: keepsD)
  moreover have "R s' (snd (h e s'))" for e using h by (simp add: keeps_def)
  moreover have "R s' (snd (k a s'))" for a using k by (simp add: keeps_def)
  ultimately show "R s (snd (branchM m k h s))"
    using ms trans by (cases r) (auto simp: branchM_def)
qed

lemma forM_frame [frame_intros]:
  assumes "\<And>x. x \<in> set xs \<Longrightarrow> keeps R (f x)"
  shows "keeps R (forM xs f)"
  using assms by (induction xs) (auto intro: return_frame seq_frame)

lemma if_frame [frame_intros]:
  assumes "b \<Longrightarrow> keeps R m" and "\<not> b \<Longrightarrow> keeps R k"
  shows "keeps R (if b then m else k)"
  using assms by simp

lemma option_frame [frame_intros]:
  assumes "x = None \<Longrightarrow> keeps R m" and "\<And>a. x = Some a \<Longrightarrow> keeps R (k a)"
  shows "keeps R (case x of None \<Rightarrow> m | Some a \<Rightarrow> k a)"
  using assms by (cases x) auto

lemma prod_frame [frame_intros]:
  assumes "\<And>a b. keeps R (f a b)"
  shows "keeps R (case p of (a, b) \<Rightarrow> f a b)"
  using assms by (cases p) auto

lemma list_frame [frame_intros]:
  assumes "keeps R m" and "\<And>y ys. keeps R (k y ys)"
  shows "keeps R (case xs of [] \<Rightarrow> m | y # ys \<Rightarrow> k y ys)"
  using assms by (cases xs) auto

end

section \<open>Little-endian bytes\<close>

text \<open>
  binary.LittleEndian of the Go library: \<open>Uint16\<close>, \<open>Uint32\<close> and \<open>Uint64\<close> read the first bytes
  of a slice and panic when it is too short; \<open>PutUint64\<close> writes eight bytes.
\<close>

fun le_nat :: "u8 list \<Rightarrow> nat" where
  "le_nat [] = 0"
| "le_nat (b # bs) = unat b + 256 * le_nat bs"

fun le_bytes :: "nat \<Rightarrow> nat \<Rightarrow> u8 list" where
  "le_bytes 0 x = []"
| "le_bytes (Suc n) x = of_nat (x mod 256) # le_bytes n (x div 256)"

definition Uint16 :: "u8 list \<Rightarrow> u16 outcome" where
  "Uint16 bs = (if length bs < 2 then Panic else Ok (of_nat (le_nat (take 2 bs))))"

definition Uint32 :: "u8 list \<Rightarrow> u32 outcome" where
  "Uint32 bs = (if length bs < 4 then Panic else Ok (of_nat (le_nat (take 4 bs))))"

definition Uint64 :: "u8 list \<Rightarrow> u64 outcome" where
  "Uint64 bs = (if length bs < 8 then Panic else Ok (of_nat (le_nat (take 8 bs))))"

definition PutUint64 :: "u64 \<Rightarrow> u8 list" where
  "PutUint64 x = le_bytes 8 (unat x)"

lemma length_le_bytes [simp]: "length (le_bytes n x) = n"
  by (induction n arbitrary: x) auto

lemma le_nat_le_bytes: "x < 256 ^ n \<Longrightarrow> le_nat (le_bytes n x) = x"
proof (induction n arbitrary: x)
  case 0
  then show ?case by simp
next
  case (Suc n)
  from Suc.prems have "x div 256 < 256 ^ n" by (simp add: less_mult_imp_div_less mult.commute)
  then have "le_nat (le_bytes n (x div 256)) = x div 256" by (rule Suc.IH)
  moreover have "unat (of_nat (x mod 256) :: u8) = x mod 256"
    by (simp add: unat_of_nat)
  ultimately show ?case by simp
qed

lemma Uint64_PutUint64 [simp]: "Uint64 (PutUint64 x) = Ok x"
proof -
  have "unat x < 256 ^ 8" using unsigned_less [of x] by simp
  then show ?thesis by (simp add: Uint64_def PutUint64_def le_nat_le_bytes)
qed

lemma length_PutUint64 [simp]: "length (PutUint64 x) = 8"
  by (simp add: PutUint64_def)

section \<open>Memory\<close>

text \<open>The bytes a memory holds at consecutive addresses, and its 64-bit words.\<close>

definition bytesAt :: "(u64 \<Rightarrow> u8) \<Rightarrow> u64 \<Rightarrow> nat \<Rightarrow> u8 list" where
  "bytesAt mem a n = map (\<lambda>i. mem (a + of_nat i)) [0..<n]"

definition word64At :: "(u64 \<Rightarrow> u8) \<Rightarrow> u64 \<Rightarrow> u64" where
  "word64At mem a = of_nat (le_nat (bytesAt mem a 8))"

lemma length_bytesAt [simp]: "length (bytesAt mem a n) = n"
  by (simp add: bytesAt_def)

lemma nth_bytesAt [simp]: "i < n \<Longrightarrow> bytesAt mem a n ! i = mem (a + of_nat i)"
  by (simp add: bytesAt_def)

lemma take_bytesAt: "k \<le> n \<Longrightarrow> take k (bytesAt mem a n) = bytesAt mem a k"
  by (simp add: bytesAt_def take_map)

lemma drop_bytesAt: "k \<le> n \<Longrightarrow> drop k (bytesAt mem a n) = bytesAt mem (a + of_nat k) (n - k)"
  by (intro nth_equalityI) (simp_all add: add.assoc)

lemma Uint64_bytesAt [simp]: "Uint64 (bytesAt mem a 8) = Ok (word64At mem a)"
  by (simp add: Uint64_def word64At_def)

section \<open>Addresses in an interval\<close>

lemma offset_in_range:
  fixes S E :: u64
  assumes "S \<le> E" and "i < unat (E - S)"
  shows "unat (S + of_nat i) = unat S + i \<and> S \<le> S + of_nat i \<and> S + of_nat i < E
    \<and> unat (S + of_nat i - S) = i"
proof -
  have "unat (E - S) = unat E - unat S" using assms(1) by (simp add: unat_sub)
  then have lt: "unat S + i < unat E" using assms(2) by simp
  have E: "unat E < 2 ^ 64" using unsigned_less [of E] by simp
  then have i: "unat (of_nat i :: u64) = i" using lt by (simp add: unat_of_nat)
  have "unat S + unat (of_nat i :: u64) < 2 ^ LENGTH(64)" using lt E i by simp
  then have sum: "unat (S + of_nat i) = unat S + i" using i by (simp add: unat_add_lem [THEN iffD1])
  with lt show ?thesis by (simp add: word_le_nat_alt word_less_nat_alt i)
qed

lemma offset_of_member:
  fixes S a E :: u64
  assumes "S \<le> a" and "a < E"
  shows "unat (a - S) < unat (E - S)"
proof -
  have "unat (a - S) = unat a - unat S" "unat (E - S) = unat E - unat S"
    using assms by (simp_all add: unat_sub)
  then show ?thesis using assms by (simp add: word_le_nat_alt word_less_nat_alt)
qed

end
