(* ===== verification/GoStrings.thy ===== *)
theory GoStrings
  imports Prelude "HOL-Library.Sublist"
begin

text \<open>
  The string functions of the Go library the program uses, on char lists: strings.HasPrefix,
  TrimPrefix, Split by a one-character separator, Join and Repeat, strconv.Atoi with the error
  dropped, and the decimal verbs \%d and \%02d of fmt. The lemmas tie printing to parsing.
\<close>

section \<open>Prefixes, splitting, joining\<close>

definition HasPrefix :: "string \<Rightarrow> string \<Rightarrow> bool" where
  "HasPrefix s pre = (take (length pre) s = pre)"

definition TrimPrefix :: "string \<Rightarrow> string \<Rightarrow> string" where
  "TrimPrefix s pre = (if HasPrefix s pre then drop (length pre) s else s)"

fun splitOn :: "char \<Rightarrow> string \<Rightarrow> string list" where
  "splitOn sep [] = [[]]"
| "splitOn sep (c # cs) =
     (if c = sep then [] # splitOn sep cs
      else case splitOn sep cs of
             [] \<Rightarrow> [[c]]
           | w # ws \<Rightarrow> (c # w) # ws)"

fun joinWith :: "string \<Rightarrow> string list \<Rightarrow> string" where
  "joinWith sep [] = []"
| "joinWith sep [w] = w"
| "joinWith sep (w # v # ws) = w @ sep @ joinWith sep (v # ws)"

text \<open>strings.Repeat panics when the count is negative.\<close>

definition Repeat :: "string \<Rightarrow> int \<Rightarrow> string outcome" where
  "Repeat s n = (if n < 0 then Panic else Ok (concat (replicate (nat n) s)))"

lemma HasPrefix_iff: "HasPrefix s pre \<longleftrightarrow> (\<exists>rest. s = pre @ rest)"
  unfolding HasPrefix_def by (metis append_eq_conv_conj append_take_drop_id)

lemma TrimPrefix_append [simp]: "TrimPrefix (pre @ s) pre = s"
  by (simp add: TrimPrefix_def HasPrefix_def)

lemma splitOn_not_Nil [simp]: "splitOn sep s \<noteq> []"
  by (induction s) (auto split: list.splits)

lemma splitOn_word: "sep \<notin> set w \<Longrightarrow> splitOn sep w = [w]"
  by (induction w) auto

lemma splitOn_append: "sep \<notin> set w \<Longrightarrow> splitOn sep (w @ sep # s) = w # splitOn sep s"
  by (induction w) auto

lemma splitOn_join:
  "ws \<noteq> [] \<Longrightarrow> list_all (\<lambda>w. sep \<notin> set w) ws \<Longrightarrow> splitOn sep (joinWith [sep] ws) = ws"
proof (induction ws rule: list_nonempty_induct)
  case (single w)
  then show ?case by (simp add: splitOn_word)
next
  case (cons w ws)
  then show ?case by (cases ws) (simp_all add: splitOn_append)
qed

lemma join_terminated: "ws \<noteq> [] \<Longrightarrow> concat (map (\<lambda>w. w @ [sep]) ws) = joinWith [sep] ws @ [sep]"
proof (induction ws rule: list_nonempty_induct)
  case (cons w ws)
  then show ?case by (cases ws) simp_all
qed simp

lemma splitOn_last: "sep \<notin> set w \<Longrightarrow> last (splitOn sep (s @ sep # w)) = w"
proof (induction s)
  case Nil
  then show ?case by (simp add: splitOn_word)
next
  case (Cons c s)
  show ?case
  proof (cases "c = sep")
    case True
    with Cons show ?thesis by simp
  next
    case False
    obtain v vs where "splitOn sep (s @ sep # w) = v # vs"
      using splitOn_not_Nil by (cases "splitOn sep (s @ sep # w)") blast+
    moreover have "vs \<noteq> []" if "splitOn sep (s @ sep # w) = v # vs" for v vs
    proof -
      have "length (splitOn sep (t @ sep # w)) \<ge> 2" for t
        using splitOn_not_Nil [of sep w]
        by (induction t) (auto simp: Suc_le_eq split: list.splits)
      then show ?thesis using that by (metis One_nat_def Suc_1 list.size(3,4) not_less_eq_eq le_refl add.right_neutral add_Suc_right)
    qed
    ultimately show ?thesis using Cons False by simp
  qed
qed

section \<open>Decimal numbers\<close>

definition digitChar :: "nat \<Rightarrow> char" where
  "digitChar d = char_of (48 + d)"

definition isDigit :: "char \<Rightarrow> bool" where
  "isDigit c = (48 \<le> (of_char c :: nat) \<and> (of_char c :: nat) \<le> 57)"

definition digitVal :: "char \<Rightarrow> nat" where
  "digitVal c = of_char c - 48"

fun dec_nat :: "nat \<Rightarrow> string" where
  "dec_nat n = (if n < 10 then [digitChar n] else dec_nat (n div 10) @ [digitChar (n mod 10)])"

declare dec_nat.simps [simp del]

definition dec_int :: "int \<Rightarrow> string" where
  "dec_int i = (if i < 0 then ''-'' @ dec_nat (nat (- i)) else dec_nat (nat i))"

text \<open>The verb \%02d: at least two characters, filled with zeros after the sign.\<close>

definition dec02_int :: "int \<Rightarrow> string" where
  "dec02_int i = (if 0 \<le> i \<and> i < 10 then ''0'' @ dec_int i else dec_int i)"

definition decVal :: "string \<Rightarrow> nat" where
  "decVal ds = foldl (\<lambda>acc c. 10 * acc + digitVal c) 0 ds"

text \<open>
  The value strconv.Atoi returns beside its error: 0 for a syntax error, and the nearest int64
  for a number out of range.
\<close>

definition Atoi :: "string \<Rightarrow> int" where
  "Atoi s =
     (let neg = (take 1 s = ''-'');
          ds = (if take 1 s = ''-'' \<or> take 1 s = ''+'' then drop 1 s else s)
      in if ds = [] \<or> \<not> list_all isDigit ds then 0
         else if neg then max (- (2 ^ 63)) (- int (decVal ds))
         else min (2 ^ 63 - 1) (int (decVal ds)))"

lemma digitChar_digit [simp]: "d < 10 \<Longrightarrow> isDigit (digitChar d)"
  by (simp add: isDigit_def digitChar_def)

lemma digitVal_digitChar [simp]: "d < 10 \<Longrightarrow> digitVal (digitChar d) = d"
  by (simp add: digitVal_def digitChar_def)

lemma dec_nat_digits: "list_all isDigit (dec_nat n)"
proof (induction n rule: dec_nat.induct)
  case (1 n)
  then show ?case by (simp add: dec_nat.simps [of n])
qed

lemma dec_nat_not_Nil [simp]: "dec_nat n \<noteq> []"
  by (simp add: dec_nat.simps [of n])

lemma decVal_dec_nat: "decVal (dec_nat n) = n"
proof (induction n rule: dec_nat.induct)
  case (1 n)
  show ?case
  proof (cases "n < 10")
    case True
    then show ?thesis by (simp add: dec_nat.simps [of n] decVal_def)
  next
    case False
    with "1" have IH: "decVal (dec_nat (n div 10)) = n div 10" by simp
    from False have "decVal (dec_nat n) = 10 * decVal (dec_nat (n div 10)) + n mod 10"
      by (simp add: dec_nat.simps [of n] decVal_def)
    with IH show ?thesis by simp
  qed
qed

lemma sign_not_digit: "\<not> isDigit (CHR ''-'')" "\<not> isDigit (CHR ''+'')" "\<not> isDigit (CHR ''.'')"
  by (simp_all add: isDigit_def)

lemma digits_avoid: "list_all isDigit ds \<Longrightarrow> \<not> isDigit c \<Longrightarrow> c \<notin> set ds"
  by (auto simp: list_all_iff)

lemma Atoi_dec_nat: "n < 2 ^ 63 \<Longrightarrow> Atoi (dec_nat n) = int n"
proof -
  assume n: "n < 2 ^ 63"
  obtain d ds where D: "dec_nat n = d # ds" using dec_nat_not_Nil by (cases "dec_nat n") blast+
  with dec_nat_digits [of n] have "isDigit d" by simp
  then have "d \<noteq> CHR ''-''" "d \<noteq> CHR ''+''" using sign_not_digit by auto
  then have "take 1 (dec_nat n) \<noteq> ''-''" "take 1 (dec_nat n) \<noteq> ''+''" by (simp_all add: D)
  moreover have "int n < int (2 ^ 63)" using n by (simp only: of_nat_less_iff)
  then have "int n \<le> 2 ^ 63 - 1" by simp
  ultimately show ?thesis
    using dec_nat_digits [of n] by (simp add: Atoi_def Let_def decVal_dec_nat min_def)
qed

end
