(* ===== verification/Binary.thy ===== *)
theory Binary
  imports GoStrings
begin

text \<open>
  The data of tracee/binary.go: functions and their parameters, the DWARF types of the Go
  library's debug/dwarf package as far as the program looks into them, the BinaryFile
  interface, and its implementation for a program without DWARF sections together with the
  type descriptions written out for that case (those of tracee/process.go too).
\<close>

section \<open>DWARF types\<close>

text \<open>
  debug/dwarf represents types as a graph of pointers, in which every cycle runs through a
  pointer type. A pointer type therefore holds a reference to its target type: none for a nil
  target, the library's void type, or a number that the function \<open>typeAt\<close> of the binary
  resolves; all other types hold their component types. Sizes and counts are the library's int64 values.
\<close>

datatype typeRef = NilRef | VoidRef | Ref nat

datatype dtype =
    IntType int
  | UintType int
  | FloatType int
  | ComplexType int
  | BoolType int
  | PtrType int typeRef
  | VoidType
  | FuncType int
  | StructType string int "(string \<times> nat \<times> dtype) list"
  | ArrayType int dtype
  | TypedefType string dtype
  | OtherType int

type_synonym structField = "string \<times> nat \<times> dtype"

text \<open>A field of a struct type is its name, its byte offset and its type.\<close>

abbreviation fieldName :: "structField \<Rightarrow> string" where "fieldName f \<equiv> fst f"
abbreviation byteOffset :: "structField \<Rightarrow> nat" where "byteOffset f \<equiv> fst (snd f)"
abbreviation fieldType :: "structField \<Rightarrow> dtype" where "fieldType f \<equiv> snd (snd f)"

text \<open>The method Size of the library: the ByteSize, but count times size for an array.\<close>

fun typeSize :: "dtype \<Rightarrow> int" where
  "typeSize (IntType n) = n"
| "typeSize (UintType n) = n"
| "typeSize (FloatType n) = n"
| "typeSize (ComplexType n) = n"
| "typeSize (BoolType n) = n"
| "typeSize (PtrType n target) = n"
| "typeSize VoidType = 0"
| "typeSize (FuncType n) = n"
| "typeSize (StructType name n fs) = n"
| "typeSize (ArrayType cnt elem) = cnt * typeSize elem"
| "typeSize (TypedefType name t) = typeSize t"
| "typeSize (OtherType n) = n"

text \<open>Allocating a buffer for a value: make panics for a negative length.\<close>

definition bufferSize :: "dtype \<Rightarrow> nat outcome" where
  "bufferSize t = (if typeSize t < 0 then Panic else Ok (nat (typeSize t)))"

section \<open>Functions and parameters\<close>

record Parameter =
  pName :: string
  Typ :: dtype
  Offset :: int
  Exists :: bool
  IsOutput :: bool

record Function =
  Name :: string
  StartAddr :: u64
  EndAddr :: u64
  Parameters :: "Parameter list"

text \<open>
  IsExported looks at the first rune of the last component of the name. A rune of one byte is
  decided here; \<open>upperRune\<close> stands for the tables of the package unicode, for a name that
  starts with a longer rune.
\<close>

definition isUpperFirst :: "(string \<Rightarrow> bool) \<Rightarrow> string \<Rightarrow> bool" where
  "isUpperFirst upperRune s = (case s of
       [] \<Rightarrow> False
     | c # cs \<Rightarrow> (if (of_char c :: nat) < 128 then 65 \<le> (of_char c :: nat) \<and> (of_char c :: nat) \<le> 90
                else upperRune s))"

definition IsExported :: "(string \<Rightarrow> bool) \<Rightarrow> Function \<Rightarrow> bool" where
  "IsExported upperRune f =
     (let elems = splitOn (CHR ''.'') (Name f) in isUpperFirst upperRune (elems ! (length elems - 1)))"

section \<open>Binary files\<close>

text \<open>
  The Go interface BinaryFile is a record of methods. The result of Close depends on how often
  the file was closed before; \<open>typeAt\<close> resolves the references of pointer types.
\<close>

record BinaryFile =
  bfFindFunction :: "u64 \<Rightarrow> Function outcome"
  bfClose :: "nat \<Rightarrow> unit outcome"
  findDwarfTypeByAddr :: "u64 \<Rightarrow> dtype outcome"
  moduleDataType :: dtype
  runtimeGType :: dtype
  typeAt :: "nat \<Rightarrow> dtype"

section \<open>A program without DWARF sections\<close>

text \<open>
  The written-out types. The targets of their pointers are numbered: 0 an unsigned byte (the
  pcln table), 1 the function table entry, 2 the deferred call, 3 the slice of ancestors,
  4 the ancestor info.
\<close>

definition uint64Field :: "string \<Rightarrow> nat \<Rightarrow> structField" where
  "uint64Field name off = (name, off, UintType 8)"

definition functabType :: dtype where
  "functabType = StructType ''runtime.functab'' 16 [uint64Field ''entry'' 0, uint64Field ''funcoff'' 8]"

definition deferType :: dtype where
  "deferType = StructType ''runtime._defer'' 48
     [uint64Field ''sp'' 8, uint64Field ''pc'' 16, (''fn'', 24, PtrType 8 NilRef),
      (''_panic'', 32, PtrType 8 NilRef), (''link'', 40, PtrType 8 NilRef)]"

definition ancestorsType :: dtype where
  "ancestorsType = StructType ''[]runtime.ancestorInfo'' 24
     [(''array'', 0, PtrType 8 (Ref 4)), (''len'', 8, IntType 8)]"

definition ancestorInfoType :: dtype where
  "ancestorInfoType = StructType ''runtime.ancestorInfo'' 40 [(''goid'', 24, IntType 8)]"

definition noDwarfTypeAt :: "nat \<Rightarrow> dtype" where
  "noDwarfTypeAt n =
     (if n = 0 then UintType 1 else if n = 1 then functabType else if n = 2 then deferType
      else if n = 3 then ancestorsType else if n = 4 then ancestorInfoType else VoidType)"

definition noDwarfModuleDataType :: dtype where
  "noDwarfModuleDataType = StructType ''runtime.moduledata'' 456
     [(''pclntable'', 0, StructType ''[]uint8'' 24
         [(''array'', 0, PtrType 8 (Ref 0)), (''len'', 8, IntType 8)]),
      (''ftab'', 24, StructType ''[]runtime.functab'' 24
         [(''array'', 0, PtrType 8 (Ref 1)), (''len'', 8, IntType 8)]),
      uint64Field ''findfunctab'' 72,
      uint64Field ''minpc'' 80,
      uint64Field ''maxpc'' 88,
      uint64Field ''types'' 200,
      uint64Field ''etypes'' 208,
      (''next'', 448, PtrType 8 NilRef)]"

definition noDwarfRuntimeGType :: dtype where
  "noDwarfRuntimeGType = StructType ''runtime.moduledata'' 456
     [(''stack'', 0, StructType ''runtime.stack'' 16 [uint64Field ''lo'' 0, uint64Field ''hi'' 8]),
      (''_panic'', 32, PtrType 8 NilRef),
      (''_defer'', 40, PtrType 8 (Ref 2)),
      (''goid'', 152, IntType 8),
      (''ancestors'', 288, PtrType 8 (Ref 3))]"

definition nonDebuggableBinaryFile :: "(nat \<Rightarrow> unit outcome) \<Rightarrow> BinaryFile" where
  "nonDebuggableBinaryFile closer =
     \<lparr>bfFindFunction = (\<lambda>pc. Fail (ErrMsg ''no DWARF info'')),
      bfClose = closer,
      findDwarfTypeByAddr = (\<lambda>typeAddr. Fail (ErrMsg ''no DWARF info'')),
      moduleDataType = noDwarfModuleDataType,
      runtimeGType = noDwarfRuntimeGType,
      typeAt = noDwarfTypeAt\<rparr>"

definition findfuncbucketType :: dtype where
  "findfuncbucketType = StructType ''runtime.findfuncbucket'' 20
     [(''idx'', 0, UintType 4), (''subbuckets'', 4, ArrayType 16 (UintType 1))]"

definition funcType :: dtype where
  "funcType = StructType ''runtime._func'' 40
     [uint64Field ''entry'' 0, (''nameoff'', 8, IntType 4), (''args'', 12, IntType 4)]"

section \<open>Struct layouts\<close>

text \<open>
  A struct type is well laid out when its fields do not overlap, lie inside it and have the
  size their names are read with. The written-out types are; a field that strayed would let
  the tracer read another field's bytes.
\<close>

fun fieldsOf :: "dtype \<Rightarrow> structField list" where
  "fieldsOf (StructType name n fs) = fs"
| "fieldsOf _ = []"

definition fieldEnd :: "structField \<Rightarrow> int" where
  "fieldEnd f = int (byteOffset f) + typeSize (fieldType f)"

fun laidOut :: "structField list \<Rightarrow> int \<Rightarrow> bool" where
  "laidOut [] sz = True"
| "laidOut [f] sz = (0 \<le> typeSize (fieldType f) \<and> fieldEnd f \<le> sz)"
| "laidOut (f # g # fs) sz =
     (0 \<le> typeSize (fieldType f) \<and> fieldEnd f \<le> int (byteOffset g) \<and> laidOut (g # fs) sz)"

lemma bufferSize_nonneg: "0 \<le> typeSize t \<Longrightarrow> bufferSize t = Ok (nat (typeSize t))"
  by (simp add: bufferSize_def)

end
