(* ===== verification/ModuleData.thy ===== *)
theory ModuleData
  imports Binary
begin

text \<open>
  tracee/moduledata.go: reading the fields of the runtime's moduledata value, one field per
  call. A memory reader is what the interface memoryReader shows while the tracee is stopped:
  the bytes at an address, or an error. A missing field of the map is a nil pointer, whose use
  panics; so does a failing type assertion.
\<close>

type_synonym memoryReader = "u64 \<Rightarrow> nat \<Rightarrow> u8 list outcome"

record moduleData =
  moduleDataAddr :: u64
  mdTypeAt :: "nat \<Rightarrow> dtype"
  mdFields :: "string \<Rightarrow> structField option"

text \<open>A field that occurs twice in the type keeps its last description in the map.\<close>

definition newModuleData :: "(nat \<Rightarrow> dtype) \<Rightarrow> u64 \<Rightarrow> dtype \<Rightarrow> moduleData outcome" where
  "newModuleData types a t = (case t of
       StructType name n fs \<Rightarrow>
         Ok \<lparr>moduleDataAddr = a, mdTypeAt = types,
             mdFields = map_of (rev (map (\<lambda>f. (fieldName f, f)) fs))\<rparr>
     | _ \<Rightarrow> Panic)"

text \<open>Some reads are logged and turned into a default when they fail.\<close>

fun orElse :: "'a outcome \<Rightarrow> 'a \<Rightarrow> 'a outcome" where
  "orElse (Ok a) d = Ok a"
| "orElse (Fail e) d = Ok d"
| "orElse Panic d = Panic"
| "orElse OutOfFuel d = OutOfFuel"

definition mdField :: "moduleData \<Rightarrow> string \<Rightarrow> structField outcome" where
  "mdField md name = (case mdFields md name of None \<Rightarrow> Panic | Some f \<Rightarrow> Ok f)"

definition retrieveUint64 :: "moduleData \<Rightarrow> memoryReader \<Rightarrow> string \<Rightarrow> u64 outcome" where
  "retrieveUint64 md reader name =
     bindO (mdField md name) (\<lambda>field.
     bindO (orElse (reader (moduleDataAddr md + of_nat (byteOffset field)) 8) (replicate 8 0)) Uint64)"

fun findField :: "structField list \<Rightarrow> string \<Rightarrow> structField option" where
  "findField [] name = None"
| "findField (f # fs) name = (if fieldName f = name then Some f else findField fs name)"

text \<open>\<open>None\<close> is the pair of nils of a field that is not a struct, or could not be read.\<close>

definition retrieveFieldOfStruct ::
    "moduleData \<Rightarrow> memoryReader \<Rightarrow> structField \<Rightarrow> string \<Rightarrow> (dtype \<times> u8 list) option outcome" where
  "retrieveFieldOfStruct md reader strct name = (case fieldType strct of
       StructType sname n fs \<Rightarrow>
         (case findField fs name of
            None \<Rightarrow> Panic
          | Some field \<Rightarrow>
              bindO (bufferSize (fieldType field)) (\<lambda>size.
                (case reader (moduleDataAddr md + of_nat (byteOffset strct) + of_nat (byteOffset field)) size of
                   Ok buff \<Rightarrow> Ok (Some (fieldType field, buff))
                 | Fail e \<Rightarrow> Ok None
                 | Panic \<Rightarrow> Panic
                 | OutOfFuel \<Rightarrow> OutOfFuel)))
     | _ \<Rightarrow> Ok None)"

definition retrieveArrayInSlice ::
    "moduleData \<Rightarrow> memoryReader \<Rightarrow> string \<Rightarrow> (dtype option \<times> u64) outcome" where
  "retrieveArrayInSlice md reader name =
     bindO (mdField md name) (\<lambda>strct.
     bindO (retrieveFieldOfStruct md reader strct ''array'') (\<lambda>res. case res of
         None \<Rightarrow> Ok (None, 0)
       | Some (typ, buff) \<Rightarrow> bindO (Uint64 buff) (\<lambda>addr. Ok (Some typ, addr))))"

definition retrieveSliceLen :: "moduleData \<Rightarrow> memoryReader \<Rightarrow> string \<Rightarrow> int outcome" where
  "retrieveSliceLen md reader name =
     bindO (mdField md name) (\<lambda>strct.
     bindO (retrieveFieldOfStruct md reader strct ''len'') (\<lambda>res. case res of
         None \<Rightarrow> Ok 0
       | Some (typ, buff) \<Rightarrow> bindO (Uint64 buff) (\<lambda>n. Ok (sint n))))"

text \<open>The assertion that a type is a pointer, and its target; a nil target panics when used.\<close>

definition pointerTarget :: "moduleData \<Rightarrow> dtype option \<Rightarrow> dtype outcome" where
  "pointerTarget md t = (case t of
       Some (PtrType n (Ref target)) \<Rightarrow> Ok (mdTypeAt md target)
     | Some (PtrType n VoidRef) \<Rightarrow> Ok VoidType
     | _ \<Rightarrow> Panic)"

definition pclntable :: "moduleData \<Rightarrow> memoryReader \<Rightarrow> int \<Rightarrow> u64 outcome" where
  "pclntable md reader index =
     bindO (retrieveArrayInSlice md reader ''pclntable'') (\<lambda>(ptrToArrayType, ptrToArray).
     bindO (pointerTarget md ptrToArrayType) (\<lambda>elementType.
       Ok (ptrToArray + of_int index * of_int (typeSize elementType))))"

text \<open>The loop over the fields of a function table entry reads every field as eight bytes.\<close>

definition sliceField :: "u8 list \<Rightarrow> structField \<Rightarrow> u8 list outcome" where
  "sliceField buff f =
     (if 0 \<le> typeSize (fieldType f) \<and> fieldEnd f \<le> int (length buff)
      then Ok (take (nat (typeSize (fieldType f))) (drop (byteOffset f) buff)) else Panic)"

fun functabFields :: "u8 list \<Rightarrow> structField list \<Rightarrow> u64 \<times> u64 \<Rightarrow> (u64 \<times> u64) outcome" where
  "functabFields buff [] (entry, funcoff) = Ok (entry, funcoff)"
| "functabFields buff (f # fs) (entry, funcoff) =
     bindO (bindO (sliceField buff f) Uint64) (\<lambda>val.
       functabFields buff fs
         (if fieldName f = ''entry'' then (val, funcoff)
          else if fieldName f = ''funcoff'' then (entry, val)
          else (entry, funcoff)))"

definition functab :: "moduleData \<Rightarrow> memoryReader \<Rightarrow> int \<Rightarrow> (u64 \<times> u64) outcome" where
  "functab md reader index =
     bindO (retrieveArrayInSlice md reader ''ftab'') (\<lambda>(ptrToFtabType, ptrToArray).
     bindO (pointerTarget md ptrToFtabType) (\<lambda>ftabType.
     bindO (bufferSize ftabType) (\<lambda>functabSize.
       (case reader (ptrToArray + of_int index * of_nat functabSize) functabSize of
          Fail e \<Rightarrow> Ok (0, 0)
        | Panic \<Rightarrow> Panic
        | OutOfFuel \<Rightarrow> OutOfFuel
        | Ok buff \<Rightarrow>
            (case (case ftabType of TypedefType name inner \<Rightarrow> inner | _ \<Rightarrow> ftabType) of
               StructType name n fs \<Rightarrow> functabFields buff fs (0, 0)
             | _ \<Rightarrow> Panic)))))"

definition ftabLen :: "moduleData \<Rightarrow> memoryReader \<Rightarrow> int outcome" where
  "ftabLen md reader = retrieveSliceLen md reader ''ftab''"

definition findfunctab :: "moduleData \<Rightarrow> memoryReader \<Rightarrow> u64 outcome" where
  "findfunctab md reader = retrieveUint64 md reader ''findfunctab''"

definition minpc :: "moduleData \<Rightarrow> memoryReader \<Rightarrow> u64 outcome" where
  "minpc md reader = retrieveUint64 md reader ''minpc''"

definition maxpc :: "moduleData \<Rightarrow> memoryReader \<Rightarrow> u64 outcome" where
  "maxpc md reader = retrieveUint64 md reader ''maxpc''"

definition mdTypes :: "moduleData \<Rightarrow> memoryReader \<Rightarrow> u64 outcome" where
  "mdTypes md reader = retrieveUint64 md reader ''types''"

definition etypes :: "moduleData \<Rightarrow> memoryReader \<Rightarrow> u64 outcome" where
  "etypes md reader = retrieveUint64 md reader ''etypes''"

definition mdNext :: "moduleData \<Rightarrow> memoryReader \<Rightarrow> u64 outcome" where
  "mdNext md reader = retrieveUint64 md reader ''next''"

end
