(* ===== verification/FuncTab.thy ===== *)
theory FuncTab
  imports ModuleData
begin

text \<open>
  The lookup of a function by program counter in tracee/process.go, for programs without
  DWARF: findModuleDataByPC, findFuncType with its two tables and its linear search,
  resolveNameoff, findFunctionByModuleData and findFunctionArgsSize. The two loops that read
  memory until a condition holds take a fuel: OutOfFuel is a loop that is still running.
\<close>

definition pcbucketsize :: u64 where
  "pcbucketsize = 256 * 16"

fun findModuleDataByPC :: "moduleData list \<Rightarrow> memoryReader \<Rightarrow> u64 \<Rightarrow> moduleData option outcome" where
  "findModuleDataByPC [] reader pc = Ok None"
| "findModuleDataByPC (md # mds) reader pc =
     bindO (minpc md reader) (\<lambda>lo.
       if lo \<le> pc then
         bindO (maxpc md reader) (\<lambda>hi.
           if pc < hi then Ok (Some md) else findModuleDataByPC mds reader pc)
       else findModuleDataByPC mds reader pc)"

section \<open>The index in the function table\<close>

definition bucketField :: "string \<Rightarrow> structField outcome" where
  "bucketField name =
     (case findField (fieldsOf findfuncbucketType) name of None \<Rightarrow> Panic | Some f \<Rightarrow> Ok f)"

definition findFtabIndex :: "moduleData \<Rightarrow> memoryReader \<Rightarrow> u64 \<Rightarrow> int outcome" where
  "findFtabIndex md reader pc =
     bindO (bucketField ''idx'') (\<lambda>idxField.
     bindO (bucketField ''subbuckets'') (\<lambda>subbucketsField.
     bindO (minpc md reader) (\<lambda>lo.
       let x = pc - lo;
           bucketIndex = x div pcbucketsize;
           subbucketIndex = unat (x mod pcbucketsize
             div (pcbucketsize div of_int (typeSize (fieldType subbucketsField))))
       in bindO (findfunctab md reader) (\<lambda>tab.
          bindO (reader (tab + bucketIndex * of_int (typeSize findfuncbucketType))
                   (nat (typeSize findfuncbucketType))) (\<lambda>buff.
          bindO (bindO (sliceField buff idxField) Uint32) (\<lambda>idx.
            let k = byteOffset subbucketsField + subbucketIndex in
            if k < length buff then Ok (int (unat idx) + int (unat (buff ! k))) else Panic))))))"

text \<open>The two searches of adjustFtabIndex; the downward one is bounded by the index.\<close>

fun searchDown :: "moduleData \<Rightarrow> memoryReader \<Rightarrow> u64 \<Rightarrow> nat \<Rightarrow> u64 \<Rightarrow> nat outcome" where
  "searchDown md reader pc 0 entry = Ok 0"
| "searchDown md reader pc (Suc ftabIdx) entry =
     (if entry > pc then
        bindO (functab md reader (int ftabIdx)) (\<lambda>(entry', _). searchDown md reader pc ftabIdx entry')
      else Ok (Suc ftabIdx))"

fun searchUp :: "nat \<Rightarrow> moduleData \<Rightarrow> memoryReader \<Rightarrow> u64 \<Rightarrow> int \<Rightarrow> u64 \<Rightarrow> int outcome" where
  "searchUp 0 md reader pc ftabIdx nextEntry = OutOfFuel"
| "searchUp (Suc fuel) md reader pc ftabIdx nextEntry =
     (if nextEntry \<le> pc then
        bindO (functab md reader (ftabIdx + 1 + 1)) (\<lambda>(nextEntry', _).
          searchUp fuel md reader pc (ftabIdx + 1) nextEntry')
      else Ok ftabIdx)"

definition adjustFtabIndex :: "nat \<Rightarrow> moduleData \<Rightarrow> memoryReader \<Rightarrow> u64 \<Rightarrow> int \<Rightarrow> int outcome" where
  "adjustFtabIndex fuel md reader pc ftabIdx0 =
     bindO (ftabLen md reader) (\<lambda>len.
       let ftabIdx = (if ftabIdx0 \<ge> len then len - 1 else ftabIdx0) in
       bindO (functab md reader ftabIdx) (\<lambda>(entry, _).
         if pc < entry then
           (if ftabIdx < 0 then Ok ftabIdx
            else bindO (searchDown md reader pc (nat ftabIdx) entry) (\<lambda>i.
              if i = 0 then Panic else Ok (int i)))
         else
           bindO (functab md reader (ftabIdx + 1)) (\<lambda>(nextEntry, _).
             searchUp fuel md reader pc ftabIdx nextEntry)))"

definition findEndAddr :: "moduleData \<Rightarrow> memoryReader \<Rightarrow> int \<Rightarrow> u64 outcome" where
  "findEndAddr md reader ftabIdx =
     bindO (ftabLen md reader) (\<lambda>len.
       if ftabIdx + 1 \<ge> len then Ok 0
       else bindO (functab md reader (ftabIdx + 1)) (\<lambda>(entry, _). Ok entry))"

definition findFuncType :: "nat \<Rightarrow> moduleData \<Rightarrow> memoryReader \<Rightarrow> u64 \<Rightarrow> (u8 list \<times> u64) outcome" where
  "findFuncType fuel md reader pc =
     bindO (findFtabIndex md reader pc) (\<lambda>i.
     bindO (adjustFtabIndex fuel md reader pc i) (\<lambda>ftabIdx.
     bindO (findEndAddr md reader ftabIdx) (\<lambda>endAddr.
     bindO (functab md reader ftabIdx) (\<lambda>(_, funcoff).
     bindO (pclntable md reader (sint funcoff)) (\<lambda>funcTypePtr.
     bindO (reader funcTypePtr (nat (typeSize funcType))) (\<lambda>buff.
       Ok (buff, endAddr)))))))"

section \<open>The name, and the function\<close>

definition bytesToString :: "u8 list \<Rightarrow> string" where
  "bytesToString bs = map (\<lambda>b. char_of (unat b)) bs"

fun indexOfZero :: "u8 list \<Rightarrow> nat \<Rightarrow> nat option" where
  "indexOfZero [] i = None"
| "indexOfZero (b # bs) i = (if b = 0 then Some i else indexOfZero bs (Suc i))"

fun nameLoop :: "nat \<Rightarrow> memoryReader \<Rightarrow> u64 \<Rightarrow> u8 list \<Rightarrow> string outcome" where
  "nameLoop 0 reader ptrToFuncname rawFuncname = OutOfFuel"
| "nameLoop (Suc fuel) reader ptrToFuncname rawFuncname =
     bindO (reader ptrToFuncname 16) (\<lambda>buff.
       case indexOfZero buff 0 of
         Some i \<Rightarrow> Ok (bytesToString (rawFuncname @ take i buff))
       | None \<Rightarrow> nameLoop fuel reader (ptrToFuncname + of_nat (length buff)) (rawFuncname @ buff))"

definition resolveNameoff :: "nat \<Rightarrow> moduleData \<Rightarrow> memoryReader \<Rightarrow> int \<Rightarrow> string outcome" where
  "resolveNameoff fuel md reader nameoff =
     bindO (pclntable md reader nameoff) (\<lambda>ptrToFuncname. nameLoop fuel reader ptrToFuncname [])"

text \<open>The three values taken out of the func type; a negative args size counts as zero.\<close>

fun funcTypeFields :: "u8 list \<Rightarrow> structField list \<Rightarrow> u64 \<times> int \<times> int \<Rightarrow> (u64 \<times> int \<times> int) outcome" where
  "funcTypeFields val [] (entry, nameoff, args) = Ok (entry, nameoff, args)"
| "funcTypeFields val (f # fs) (entry, nameoff, args) =
     bindO (sliceField val f) (\<lambda>rawData.
       if fieldName f = ''entry'' then
         bindO (Uint64 rawData) (\<lambda>v. funcTypeFields val fs (v, nameoff, args))
       else if fieldName f = ''nameoff'' then
         bindO (Uint32 rawData) (\<lambda>v. funcTypeFields val fs (entry, sint v, args))
       else if fieldName f = ''args'' then
         bindO (Uint32 rawData) (\<lambda>v. funcTypeFields val fs
           (entry, nameoff, if sint v < 0 then 0 else sint v))
       else funcTypeFields val fs (entry, nameoff, args))"

definition pointerParam :: "nat \<Rightarrow> Parameter" where
  "pointerParam i = \<lparr>pName = [], Typ = PtrType 8 VoidRef, Offset = int i * 8, Exists = True, IsOutput = False\<rparr>"

definition findFunctionByModuleData ::
    "nat \<Rightarrow> moduleData list \<Rightarrow> memoryReader \<Rightarrow> u64 \<Rightarrow> Function outcome" where
  "findFunctionByModuleData fuel mds reader pc =
     bindO (findModuleDataByPC mds reader pc) (\<lambda>m. case m of
         None \<Rightarrow> Fail (ErrMsg ''no moduledata found for pc'')
       | Some md \<Rightarrow>
           bindO (findFuncType fuel md reader pc) (\<lambda>(funcTypeVal, endAddr).
           bindO (funcTypeFields funcTypeVal (fieldsOf funcType) (0, 0, 0)) (\<lambda>(entry, nameoff, args).
           bindO (resolveNameoff fuel md reader nameoff) (\<lambda>funcName.
             let numParams = nat args div 8 in
             Ok \<lparr>Name = funcName, StartAddr = entry, EndAddr = endAddr,
                 Parameters = map pointerParam [0..<numParams]\<rparr>))))"

text \<open>The args size is read as an unsigned number here.\<close>

definition findFunctionArgsSize :: "nat \<Rightarrow> moduleData list \<Rightarrow> memoryReader \<Rightarrow> u64 \<Rightarrow> int outcome" where
  "findFunctionArgsSize fuel mds reader pc =
     bindO (findModuleDataByPC mds reader pc) (\<lambda>m. case m of
         None \<Rightarrow> Fail (ErrMsg ''no moduledata found for pc'')
       | Some md \<Rightarrow>
           bindO (findFuncType fuel md reader pc) (\<lambda>(funcTypeVal, _).
             case findField (fieldsOf funcType) ''args'' of
               None \<Rightarrow> Fail (ErrMsg ''failed to find args size'')
             | Some field \<Rightarrow>
                 bindO (sliceField funcTypeVal field) (\<lambda>rawData.
                 bindO (Uint32 rawData) (\<lambda>v. Ok (int (unat v))))))"

section \<open>The interface to the function table\<close>

text \<open>
  What the lookup needs of moduledata.go: the table has a known length, each of its entries can
  be read, and their start addresses increase. The last entry is a sentinel, the end of the
  text.
\<close>

locale function_table =
  fixes md :: moduleData and reader :: memoryReader and tab :: "(u64 \<times> u64) list"
  assumes len: "ftabLen md reader = Ok (int (length tab))"
    and entry: "i < length tab \<Longrightarrow> functab md reader (int i) = Ok (tab ! i)"
    and sorted: "sorted_wrt (<) (map fst tab)"
begin

lemma entry_mono: "i < j \<Longrightarrow> j < length tab \<Longrightarrow> fst (tab ! i) < fst (tab ! j)"
  using sorted by (auto simp: sorted_wrt_iff_nth_less)

lemma entry_mono_le: "i \<le> j \<Longrightarrow> j < length tab \<Longrightarrow> fst (tab ! i) \<le> fst (tab ! j)"
  using entry_mono [of i j] by (cases "i = j") auto

lemma searchDown_finds:
  assumes "k < length tab" and "i \<le> k" and "fst (tab ! i) \<le> pc"
    and "\<And>j. i < j \<Longrightarrow> j \<le> k \<Longrightarrow> pc < fst (tab ! j)"
  shows "searchDown md reader pc k (fst (tab ! k)) = Ok i"
  using assms
proof (induction k)
  case 0
  then show ?case by simp
next
  case (Suc k)
  show ?case
  proof (cases "i = Suc k")
    case True
    with Suc.prems show ?thesis by (simp add: leD)
  next
    case False
    with Suc.prems have "pc < fst (tab ! Suc k)" "i \<le> k" by auto
    moreover have "searchDown md reader pc k (fst (tab ! k)) = Ok i"
      using Suc.prems \<open>i \<le> k\<close> by (intro Suc.IH) auto
    ultimately show ?thesis
      using Suc.prems(1) entry [of k] by (cases "tab ! k") simp
  qed
qed

lemma searchUp_finds:
  assumes "s \<le> i" and "Suc i < length tab" and "pc < fst (tab ! Suc i)"
    and "\<And>j. s < j \<Longrightarrow> j \<le> i \<Longrightarrow> fst (tab ! j) \<le> pc" and "i - s < fuel"
  shows "searchUp fuel md reader pc (int s) (fst (tab ! Suc s)) = Ok (int i)"
  using assms
proof (induction fuel arbitrary: s)
  case 0
  then show ?case by simp
next
  case (Suc fuel)
  show ?case
  proof (cases "s = i")
    case True
    with Suc.prems show ?thesis by (simp add: less_le_not_le)
  next
    case False
    with Suc.prems have "fst (tab ! Suc s) \<le> pc" "Suc s \<le> i" by auto
    moreover have "searchUp fuel md reader pc (int (Suc s)) (fst (tab ! Suc (Suc s))) = Ok (int i)"
      using Suc.prems \<open>Suc s \<le> i\<close> by (intro Suc.IH) auto
    moreover have "functab md reader (int s + 1 + 1) = Ok (tab ! Suc (Suc s))"
      using entry [of "Suc (Suc s)"] Suc.prems \<open>Suc s \<le> i\<close> by (simp add: algebra_simps)
    ultimately show ?thesis
      by (cases "tab ! Suc (Suc s)") (simp add: algebra_simps)
  qed
qed

lemma adjustFtabIndex_finds:
  assumes i: "Suc i < length tab" and lo: "fst (tab ! i) \<le> pc" and hi: "pc < fst (tab ! Suc i)"
    and fuel: "length tab \<le> fuel"
  shows "adjustFtabIndex fuel md reader pc (int s)
      = (if i = 0 \<and> 0 < s then Panic else Ok (int i))"
proof -
  define k where "k = min s (length tab - 1)"
  have k: "k < length tab" "(if int s \<ge> int (length tab) then int (length tab) - 1 else int s) = int k"
    using i by (auto simp: k_def)
  obtain e off where kth: "tab ! k = (e, off)" by (cases "tab ! k")
  show ?thesis
  proof (cases "i < k")
    case True
    then have "pc < e" using hi entry_mono_le [of "Suc i" k] k kth by simp
    moreover have "searchDown md reader pc k (fst (tab ! k)) = Ok i"
      using k True lo hi entry_mono_le
      by (intro searchDown_finds) (auto intro: less_le_trans)
    ultimately show ?thesis
      using k kth entry [of k] True i
      by (auto simp: adjustFtabIndex_def len Let_def k_def)
  next
    case False
    then have "e \<le> pc" using lo entry_mono_le [of k i] i kth by simp
    moreover have "searchUp fuel md reader pc (int k) (fst (tab ! Suc k)) = Ok (int i)"
      using False i lo hi fuel entry_mono_le [of _ i]
      by (intro searchUp_finds) (auto intro: order_trans)
    moreover have "functab md reader (int k + 1) = Ok (tab ! Suc k)"
      using entry [of "Suc k"] False i by (simp add: algebra_simps)
    moreover have "\<not> (i = 0 \<and> 0 < s)" using False i by (auto simp: k_def)
    ultimately show ?thesis
      using k kth entry [of k]
      by (cases "tab ! Suc k") (simp add: adjustFtabIndex_def len Let_def leD)
  qed
qed

lemma findEndAddr_next: "Suc i < length tab \<Longrightarrow> findEndAddr md reader (int i) = Ok (fst (tab ! Suc i))"
  using entry [of "Suc i"] by (cases "tab ! Suc i") (simp add: findEndAddr_def len algebra_simps)

end

section \<open>The table of a program without DWARF\<close>

definition memReader :: "(u64 \<Rightarrow> u8) \<Rightarrow> memoryReader" where
  "memReader mem = (\<lambda>a n. Ok (bytesAt mem a n))"

text \<open>The value newModuleData makes from the written-out type.\<close>

definition noDwarfModule :: "u64 \<Rightarrow> moduleData" where
  "noDwarfModule a =
     \<lparr>moduleDataAddr = a, mdTypeAt = noDwarfTypeAt,
      mdFields = map_of (rev (map (\<lambda>f. (fieldName f, f)) (fieldsOf noDwarfModuleDataType)))\<rparr>"

lemma newModuleData_noDwarf:
  "newModuleData noDwarfTypeAt a noDwarfModuleDataType = Ok (noDwarfModule a)"
  by (simp add: newModuleData_def noDwarfModule_def noDwarfModuleDataType_def)

lemmas noDwarf_defs = noDwarfModule_def noDwarfModuleDataType_def uint64Field_def mdField_def

lemma array_of_ftab:
  "retrieveArrayInSlice (noDwarfModule a) (memReader mem) ''ftab''
     = Ok (Some (PtrType 8 (Ref 1)), word64At mem (a + 24))"
  by (simp add: retrieveArrayInSlice_def noDwarf_defs retrieveFieldOfStruct_def bufferSize_def memReader_def)

lemma array_of_pclntable:
  "retrieveArrayInSlice (noDwarfModule a) (memReader mem) ''pclntable''
     = Ok (Some (PtrType 8 (Ref 0)), word64At mem a)"
  by (simp add: retrieveArrayInSlice_def noDwarf_defs retrieveFieldOfStruct_def bufferSize_def memReader_def)

lemma noDwarf_ftabLen:
  "ftabLen (noDwarfModule a) (memReader mem) = Ok (sint (word64At mem (a + 32)))"
  by (simp add: ftabLen_def retrieveSliceLen_def noDwarf_defs retrieveFieldOfStruct_def bufferSize_def
      memReader_def add.commute add.left_commute)

lemma memReader_Ok: "memReader mem a n = Ok (bytesAt mem a n)"
  by (simp add: memReader_def)

lemma functab_entry_bytes:
  "functabFields (bytesAt mem a 16) (fieldsOf functabType) (0, 0) = Ok (word64At mem a, word64At mem (a + 8))"
  by (simp add: functabType_def uint64Field_def sliceField_def fieldEnd_def take_bytesAt drop_bytesAt)

lemma noDwarf_functab:
  "functab (noDwarfModule a) (memReader mem) i
     = Ok (word64At mem (word64At mem (a + 24) + of_int i * 16),
           word64At mem (word64At mem (a + 24) + of_int i * 16 + 8))"
proof -
  have target: "pointerTarget (noDwarfModule a) (Some (PtrType 8 (Ref 1))) = Ok functabType"
    by (simp add: pointerTarget_def noDwarfModule_def noDwarfTypeAt_def)
  have struct: "(case (case functabType of TypedefType name inner \<Rightarrow> inner | _ \<Rightarrow> functabType) of
      StructType name n fs \<Rightarrow> functabFields buff fs (0, 0) | _ \<Rightarrow> Panic)
      = functabFields buff (fieldsOf functabType) (0, 0)" for buff
    by (simp add: functabType_def)
  have sz: "bufferSize functabType = Ok 16" by (simp add: bufferSize_def functabType_def)
  show ?thesis
    by (simp add: functab_def array_of_ftab target sz memReader_Ok struct functab_entry_bytes
        del: One_nat_def)
qed

text \<open>
  The moduledata value in memory provides the interface: the lookups of moduledata.go on the
  written-out types read exactly the table that lies behind the slice header of the field ftab.
\<close>

lemma image_function_table:
  assumes "sint (word64At mem (a + 32)) = int (length tab)"
    and "\<And>i. i < length tab \<Longrightarrow>
           tab ! i = (word64At mem (word64At mem (a + 24) + of_nat i * 16),
                      word64At mem (word64At mem (a + 24) + of_nat i * 16 + 8))"
    and "sorted_wrt (<) (map fst tab)"
  shows "function_table (noDwarfModule a) (memReader mem) tab"
  using assms by unfold_locales (simp_all add: noDwarf_ftabLen noDwarf_functab)

text \<open>
  A small image: the moduledata at 0x1000, three functions at 16, 32 and 48 with the sentinel
  64, the function table at 0x2000, the bucket at 0x3000, the pcln table at 0x4000 with the
  function info of the second function at offset 5 and its name at offset 60.
\<close>

definition exampleImage :: "u64 \<Rightarrow> u8" where
  "exampleImage x = (case map_of
     [(0x1001, 0x40), (0x1019, 0x20), (0x1020, 4), (0x1049, 0x30), (0x1050, 16), (0x1058, 64),
      (0x2000, 16), (0x2008, 1), (0x2010, 32), (0x2018, 5), (0x2020, 48), (0x2028, 9), (0x2030, 64),
      (0x4005, 32), (0x400d, 60), (0x4011, 24), (0x403c, 0x67), (0x403d, 0x6f)] x of
     None \<Rightarrow> 0 | Some b \<Rightarrow> b)"

lemma upt_bytes: "[0..<8] = [0, 1, 2, 3, 4, 5, 6, 7]" "[0..<4] = [0, 1, 2, 3]"
  by (simp_all add: upt_rec)

interpretation exampleTable: function_table "noDwarfModule 0x1000" "memReader exampleImage"
    "[(16, 1), (32, 5), (48, 9), (64, 0)]"
proof (rule image_function_table)
  show "sint (word64At exampleImage (0x1000 + 32)) = int (length [(16::u64, 1::u64), (32, 5), (48, 9), (64, 0)])"
    by (simp add: word64At_def bytesAt_def upt_bytes exampleImage_def)
next
  fix i assume "i < length [(16::u64, 1::u64), (32, 5), (48, 9), (64, 0)]"
  then have "i = 0 \<or> i = 1 \<or> i = 2 \<or> i = 3" by auto
  then show "[(16, 1), (32, 5), (48, 9), (64, 0)] ! i
      = (word64At exampleImage (word64At exampleImage (0x1000 + 24) + of_nat i * 16),
         word64At exampleImage (word64At exampleImage (0x1000 + 24) + of_nat i * 16 + 8))"
    by (elim disjE) (simp_all add: word64At_def bytesAt_def upt_bytes exampleImage_def)
next
  show "sorted_wrt (<) (map fst [(16::u64, 1::u64), (32, 5), (48, 9), (64, 0)])" by simp
qed

section \<open>The whole lookup\<close>

text \<open>The moduledata at \<open>a\<close> holds the table \<open>tab\<close>, with the start addresses in order.\<close>

definition holdsTable :: "(u64 \<Rightarrow> u8) \<Rightarrow> u64 \<Rightarrow> (u64 \<times> u64) list \<Rightarrow> bool" where
  "holdsTable mem a tab \<longleftrightarrow>
     sint (word64At mem (a + 32)) = int (length tab) \<and>
     tab = map (\<lambda>i. (word64At mem (word64At mem (a + 24) + of_nat i * 16),
                     word64At mem (word64At mem (a + 24) + of_nat i * 16 + 8))) [0..<length tab] \<and>
     sorted_wrt (<) (map fst tab)"

lemma holdsTable_function_table:
  assumes "holdsTable mem a tab"
  shows "function_table (noDwarfModule a) (memReader mem) tab"
proof (rule image_function_table)
  fix i assume i: "i < length tab"
  from assms have "tab ! i = (map (\<lambda>i. (word64At mem (word64At mem (a + 24) + of_nat i * 16),
      word64At mem (word64At mem (a + 24) + of_nat i * 16 + 8))) [0..<length tab]) ! i"
    by (simp add: holdsTable_def)
  with i show "tab ! i = (word64At mem (word64At mem (a + 24) + of_nat i * 16),
      word64At mem (word64At mem (a + 24) + of_nat i * 16 + 8))" by simp
qed (use assms in \<open>simp_all add: holdsTable_def\<close>)

lemma exampleImage_holdsTable: "holdsTable exampleImage 0x1000 [(16, 1), (32, 5), (48, 9), (64, 0)]"
  by (simp add: holdsTable_def word64At_def bytesAt_def upt_bytes exampleImage_def upt_rec)

lemma noDwarf_words:
  "minpc (noDwarfModule a) (memReader mem) = Ok (word64At mem (a + 80))"
  "maxpc (noDwarfModule a) (memReader mem) = Ok (word64At mem (a + 88))"
  "findfunctab (noDwarfModule a) (memReader mem) = Ok (word64At mem (a + 72))"
  by (simp_all add: minpc_def maxpc_def findfunctab_def retrieveUint64_def noDwarf_defs memReader_Ok)

lemma noDwarf_pclntable:
  "pclntable (noDwarfModule a) (memReader mem) i = Ok (word64At mem a + of_int i)"
  unfolding pclntable_def array_of_pclntable
  by (simp add: pointerTarget_def noDwarfModule_def noDwarfTypeAt_def)

text \<open>The index that the bucket and the subbucket of a program counter hold.\<close>

definition roughIndex :: "(u64 \<Rightarrow> u8) \<Rightarrow> u64 \<Rightarrow> u64 \<Rightarrow> nat" where
  "roughIndex mem a pc =
     (let x = pc - word64At mem (a + 80); bucket = word64At mem (a + 72) + x div 4096 * 20
      in le_nat (bytesAt mem bucket 4) + unat (mem (bucket + 4 + of_nat (unat (x mod 4096 div 256)))))"

lemma le_nat_bound: "le_nat bs < 256 ^ length bs"
proof (induction bs)
  case Nil
  then show ?case by simp
next
  case (Cons b bs)
  have "unat b < 256" using unsigned_less [of b] by simp
  with Cons show ?case by simp
qed

definition word32At :: "(u64 \<Rightarrow> u8) \<Rightarrow> u64 \<Rightarrow> u32" where
  "word32At mem a = of_nat (le_nat (bytesAt mem a 4))"

lemma Uint32_bytesAt [simp]: "Uint32 (bytesAt mem a 4) = Ok (word32At mem a)"
  by (simp add: Uint32_def word32At_def)

lemma uint_word32At: "uint (word32At mem a) = int (le_nat (bytesAt mem a 4))"
proof -
  have "le_nat (bytesAt mem a 4) < 2 ^ 32" using le_nat_bound [of "bytesAt mem a 4"] by simp
  then show ?thesis by (simp add: word32At_def uint_word_of_int take_bit_eq_mod unsigned_of_nat)
qed

lemma subbucket_in_bucket: "unat (x mod 4096 div 256 :: u64) < 16"
proof -
  have "x mod 4096 < (4096 :: u64)" by (simp add: word_mod_less_divisor)
  then have "unat (x mod 4096) < 4096" by (simp add: word_less_nat_alt)
  then show ?thesis by (simp add: unat_div less_mult_imp_div_less)
qed

lemma noDwarf_findFtabIndex:
  "findFtabIndex (noDwarfModule a) (memReader mem) pc = Ok (int (roughIndex mem a pc))"
proof -
  have fields: "bucketField ''idx'' = Ok (''idx'', 0, UintType 4)"
    "bucketField ''subbuckets'' = Ok (''subbuckets'', 4, ArrayType 16 (UintType 1))"
    "typeSize findfuncbucketType = 20"
    by (simp_all add: bucketField_def findfuncbucketType_def)
  have idx: "sliceField (bytesAt mem b 20) (''idx'', 0, UintType 4) = Ok (bytesAt mem b 4)" for b
    by (simp add: sliceField_def fieldEnd_def take_bytesAt)
  show ?thesis
    using subbucket_in_bucket
    by (simp add: findFtabIndex_def fields noDwarf_words memReader_Ok idx
        uint_word32At roughIndex_def pcbucketsize_def Let_def add.assoc)
qed

lemma funcType_values:
  "funcTypeFields (bytesAt mem p 40) (fieldsOf funcType) (0, 0, 0)
     = Ok (word64At mem p, sint (word32At mem (p + 8)), max 0 (sint (word32At mem (p + 12))))"
  by (simp add: funcType_def uint64Field_def sliceField_def fieldEnd_def take_bytesAt drop_bytesAt)

text \<open>The zero-terminated string of \<open>n\<close> bytes at an address, read sixteen bytes at a time.\<close>

definition cstringAt :: "(u64 \<Rightarrow> u8) \<Rightarrow> u64 \<Rightarrow> nat \<Rightarrow> bool" where
  "cstringAt mem p n \<longleftrightarrow> (\<forall>j\<in>{..<n}. mem (p + of_nat j) \<noteq> 0) \<and> mem (p + of_nat n) = 0"

lemma indexOfZero_Some:
  "n < length bs \<Longrightarrow> bs ! n = 0 \<Longrightarrow> (\<And>j. j < n \<Longrightarrow> bs ! j \<noteq> 0) \<Longrightarrow> indexOfZero bs k = Some (k + n)"
proof (induction bs arbitrary: n k)
  case Nil
  then show ?case by simp
next
  case (Cons b bs)
  show ?case
  proof (cases n)
    case 0
    with Cons.prems show ?thesis by simp
  next
    case (Suc m)
    have "b \<noteq> 0" using Cons.prems(3) [of 0] Suc by simp
    moreover have "indexOfZero bs (Suc k) = Some (Suc k + m)"
      using Cons.prems(1,2) Cons.prems(3) [of "Suc _"] Suc by (intro Cons.IH) auto
    ultimately show ?thesis using Suc by simp
  qed
qed

lemma indexOfZero_None: "0 \<notin> set bs \<Longrightarrow> indexOfZero bs k = None"
  by (induction bs arbitrary: k) auto

lemma cstringAt_short:
  assumes "cstringAt mem p n" and "n < 16"
  shows "indexOfZero (bytesAt mem p 16) 0 = Some n"
proof -
  have "indexOfZero (bytesAt mem p 16) 0 = Some (0 + n)"
    using assms by (intro indexOfZero_Some) (auto simp: cstringAt_def)
  then show ?thesis by simp
qed

lemma cstringAt_long:
  assumes "cstringAt mem p n" and "16 \<le> n"
  shows "indexOfZero (bytesAt mem p 16) 0 = None" and "cstringAt mem (p + 16) (n - 16)"
proof -
  have nz: "mem (p + of_nat j) \<noteq> 0" if "j < n" for j
    using assms that by (simp add: cstringAt_def)
  then show "indexOfZero (bytesAt mem p 16) 0 = None"
    using assms(2) by (intro indexOfZero_None) (auto simp: bytesAt_def)
  have "mem (p + 16 + of_nat j) \<noteq> 0" if "j < n - 16" for j
    using nz [of "16 + j"] that by (simp add: add.assoc)
  moreover have "mem (p + 16 + of_nat (n - 16)) = 0"
    using assms by (simp add: cstringAt_def of_nat_diff)
  ultimately show "cstringAt mem (p + 16) (n - 16)" by (simp add: cstringAt_def)
qed

lemma bytesAt_add: "bytesAt mem p (m + n) = bytesAt mem p m @ bytesAt mem (p + of_nat m) n"
  by (intro nth_equalityI) (auto simp: nth_append add.assoc simp flip: of_nat_add)

lemma nameLoop_cstring:
  assumes "cstringAt mem p n" and "n < 16 * fuel"
  shows "nameLoop fuel (memReader mem) p raw = Ok (bytesToString (raw @ bytesAt mem p n))"
  using assms
proof (induction fuel arbitrary: p n raw)
  case 0
  then show ?case by simp
next
  case (Suc fuel)
  show ?case
  proof (cases "n < 16")
    case True
    with Suc.prems show ?thesis by (simp add: memReader_Ok cstringAt_short take_bytesAt)
  next
    case False
    then have "16 \<le> n" by simp
    note rest = cstringAt_long [OF Suc.prems(1) this]
    have "nameLoop fuel (memReader mem) (p + 16) (raw @ bytesAt mem p 16)
        = Ok (bytesToString ((raw @ bytesAt mem p 16) @ bytesAt mem (p + 16) (n - 16)))"
      using rest(2) Suc.prems(2) \<open>16 \<le> n\<close> by (intro Suc.IH) auto
    moreover have "bytesAt mem p n = bytesAt mem p 16 @ bytesAt mem (p + 16) (n - 16)"
      using bytesAt_add [of mem p 16 "n - 16"] \<open>16 \<le> n\<close> by simp
    ultimately show ?thesis using rest(1) by (simp add: memReader_Ok [of mem p 16])
  qed
qed

section \<open>Properties\<close>

text \<open>
  C10: the search of adjustFtabIndex corrects a rough index in either direction, upwards for every
  function and downwards for every function but the first: it ends at the table entry whose
  function contains the program counter, when the fuel covers the table. For the first function
  of the text it answers the entry from the rough index 0, and panics from any higher one.
\<close>

theorem adjustFtabIndex_finds_the_function:
  assumes "holdsTable mem a tab" and "Suc i < length tab"
    and "fst (tab ! i) \<le> pc" and "pc < fst (tab ! Suc i)" and "length tab \<le> fuel"
  shows "adjustFtabIndex fuel (noDwarfModule a) (memReader mem) pc (int rough)
       = (if i = 0 \<and> 0 < rough then Panic else Ok (int i))"
  using assms function_table.adjustFtabIndex_finds [OF holdsTable_function_table] by blast

theorem adjustFtabIndex_finds_the_function_witness:
  "adjustFtabIndex 4 (noDwarfModule 0x1000) (memReader exampleImage) 40 0 = Ok 1
   \<and> adjustFtabIndex 4 (noDwarfModule 0x1000) (memReader exampleImage) 40 (int 3) = Ok 1
   \<and> adjustFtabIndex 4 (noDwarfModule 0x1000) (memReader exampleImage) 20 (int 2) = Panic"
  using adjustFtabIndex_finds_the_function [OF exampleImage_holdsTable, of 1 40 4 0]
    adjustFtabIndex_finds_the_function [OF exampleImage_holdsTable, of 1 40 4 3]
    adjustFtabIndex_finds_the_function [OF exampleImage_holdsTable, of 0 20 4 2]
  by simp

text \<open>
  C9: without DWARF, FindFunction on a program counter inside the module returns the function
  that the tables of the runtime describe: the name is the zero-terminated string in the pcln
  table, the end is the start of the next function, and there is one pointer-sized parameter
  per eight bytes of arguments, none when the size is negative (omitted in the TEXT directive).
\<close>

theorem findFunctionByModuleData_reads_the_tables:
  assumes table: "holdsTable mem a tab" and i: "Suc i < length tab"
    and pc: "fst (tab ! i) \<le> pc" "pc < fst (tab ! Suc i)"
    and module: "word64At mem (a + 80) \<le> pc" "pc < word64At mem (a + 88)"
    and rough: "i = 0 \<longrightarrow> roughIndex mem a pc = 0"
    and info: "info = word64At mem a + of_int (sint (snd (tab ! i)))"
    and name: "cstringAt mem nameAddr n" "nameAddr = word64At mem a + of_int (sint (word32At mem (info + 8)))"
    and fuel: "length tab \<le> fuel" "n < 16 * fuel"
  shows "findFunctionByModuleData fuel [noDwarfModule a] (memReader mem) pc
       = Ok \<lparr>Name = bytesToString (bytesAt mem nameAddr n), StartAddr = word64At mem info,
             EndAddr = fst (tab ! Suc i),
             Parameters = map pointerParam [0..<nat (sint (word32At mem (info + 12))) div 8]\<rparr>"
proof -
  note ft = holdsTable_function_table [OF table]
  have adjust: "adjustFtabIndex fuel (noDwarfModule a) (memReader mem) pc (int (roughIndex mem a pc)) = Ok (int i)"
    using function_table.adjustFtabIndex_finds [OF ft i pc fuel(1)] rough by auto
  have "functab (noDwarfModule a) (memReader mem) (int i) = Ok (tab ! i)"
    using function_table.entry [OF ft] i by simp
  then have off: "functab (noDwarfModule a) (memReader mem) (int i) = Ok (fst (tab ! i), snd (tab ! i))"
    by simp
  have size: "typeSize funcType = 40" by (simp add: funcType_def)
  have "findFuncType fuel (noDwarfModule a) (memReader mem) pc
      = Ok (bytesAt mem info 40, fst (tab ! Suc i))"
    by (cases "tab ! i") (simp add: findFuncType_def noDwarf_findFtabIndex adjust
        function_table.findEndAddr_next [OF ft i] off noDwarf_pclntable info size memReader_Ok [of mem _ 40])
  moreover have "findModuleDataByPC [noDwarfModule a] (memReader mem) pc = Ok (Some (noDwarfModule a))"
    using module by (simp add: noDwarf_words)
  moreover have "resolveNameoff fuel (noDwarfModule a) (memReader mem) (sint (word32At mem (info + 8)))
      = Ok (bytesToString (bytesAt mem nameAddr n))"
    using nameLoop_cstring [OF name(1) fuel(2), of "[]"] name(2)
    by (simp add: resolveNameoff_def noDwarf_pclntable)
  ultimately show ?thesis
    by (simp add: findFunctionByModuleData_def funcType_values max_def)
qed

theorem findFunctionByModuleData_reads_the_tables_witness:
  "findFunctionByModuleData 4 [noDwarfModule 0x1000] (memReader exampleImage) 40
     = Ok \<lparr>Name = ''go'', StartAddr = 32, EndAddr = 48, Parameters = [pointerParam 0, pointerParam 1, pointerParam 2]\<rparr>"
proof -
  let ?tab = "[(16, 1), (32, 5), (48, 9), (64, 0)] :: (u64 \<times> u64) list"
  have words: "word64At exampleImage 0x1000 = 0x4000" "word64At exampleImage 0x1050 = 16"
    "word64At exampleImage 0x1058 = 64" "word64At exampleImage 0x4005 = 32"
    "word32At exampleImage 0x400d = 60" "word32At exampleImage 0x4011 = 24"
    "cstringAt exampleImage 0x403c 2" "bytesToString (bytesAt exampleImage 0x403c 2) = ''go''"
    by (simp_all add: word64At_def word32At_def bytesAt_def upt_bytes exampleImage_def cstringAt_def
        lessThan_nat_numeral bytesToString_def upt_rec char_of_def bit_0)
  have params: "map pointerParam [0..<3] = [pointerParam 0, pointerParam 1, pointerParam 2]"
    by (simp add: numeral_3_eq_3 numeral_2_eq_2)
  have "findFunctionByModuleData 4 [noDwarfModule 0x1000] (memReader exampleImage) 40
     = Ok \<lparr>Name = bytesToString (bytesAt exampleImage 0x403c 2), StartAddr = word64At exampleImage 0x4005,
         EndAddr = fst (?tab ! Suc 1),
         Parameters = map pointerParam [0..<nat (sint (word32At exampleImage (0x4005 + 12))) div 8]\<rparr>"
    by (rule findFunctionByModuleData_reads_the_tables [OF exampleImage_holdsTable]) (simp_all add: words)
  then show ?thesis by (simp add: params words)
qed

text \<open>
  C38: the upward search never ends when the entries of the table cannot be read: functab logs
  the failed read and returns an entry at address zero, which is at or before every program
  counter, so the loop runs on with every fuel. The caller, findFuncType, could have returned
  an error.
\<close>

theorem unreadable_table_hangs_the_search:
  assumes "\<forall>i. reader (word64At mem (a + 24) + of_int i * 16) 16 = Fail e"
    and "\<forall>off\<in>{0, 24, 32}. reader (a + of_nat off) 8 = Ok (bytesAt mem (a + of_nat off) 8)"
  shows "adjustFtabIndex fuel (noDwarfModule a) reader pc i = OutOfFuel"
proof -
  have arr: "retrieveArrayInSlice (noDwarfModule a) reader ''ftab''
      = Ok (Some (PtrType 8 (Ref 1)), word64At mem (a + 24))"
    using assms(2) by (simp add: retrieveArrayInSlice_def noDwarf_defs retrieveFieldOfStruct_def
        bufferSize_def)
  have len: "ftabLen (noDwarfModule a) reader = Ok (sint (word64At mem (a + 32)))"
    using assms(2) by (simp add: ftabLen_def retrieveSliceLen_def noDwarf_defs retrieveFieldOfStruct_def
        bufferSize_def add.commute add.left_commute)
  have target: "pointerTarget (noDwarfModule a) (Some (PtrType 8 (Ref 1))) = Ok functabType"
    "bufferSize functabType = Ok 16"
    by (simp_all add: pointerTarget_def noDwarfModule_def noDwarfTypeAt_def bufferSize_def functabType_def)
  have zero: "functab (noDwarfModule a) reader k = Ok (0, 0)" for k
    using assms(1) by (simp add: functab_def arr target del: One_nat_def)
  have "searchUp fuel (noDwarfModule a) reader pc k 0 = OutOfFuel" for k
    by (induction fuel arbitrary: k) (simp_all add: zero)
  then show ?thesis by (simp add: adjustFtabIndex_def len zero Let_def)
qed

theorem unreadable_table_hangs_the_search_witness:
  "adjustFtabIndex 100 (noDwarfModule 0x1000)
     (\<lambda>x n. if n = 16 then Fail (ErrMsg ''unmapped'') else Ok (bytesAt exampleImage x n)) 40 1 = OutOfFuel"
  by (rule unreadable_table_hangs_the_search [where mem = exampleImage and e = "ErrMsg ''unmapped''"]) simp_all

end
