(* ===== verification/Params.thy ===== *)
theory Params
  imports FuncTab "HOL-Library.List_Lexorder" "HOL-Library.Char_ord"
begin

text \<open>
  The locations of parameters in tracee/process.go: FindFunction and the two steps that fill in
  the locations the DWARF sections do not give, those of the unnamed results and that of one
  single parameter. Both rely on the parameters filling the argument area without padding.
  The parameters are modified in place in the code: a step maps the list to the list.
  sort.Slice leaves the order of equal elements open, which is fixed to the stable one here.
\<close>

section \<open>The operations\<close>

definition paramSize :: "Parameter \<Rightarrow> int" where
  "paramSize p = typeSize (Typ p)"

definition paramsSize :: "Parameter list \<Rightarrow> int" where
  "paramsSize ps = sum_list (map paramSize ps)"

text \<open>The args size of findFunctionArgsSize is an argument; its error is logged and means no.\<close>

fun noPadding :: "int outcome \<Rightarrow> Parameter list \<Rightarrow> bool outcome" where
  "noPadding (Ok expectedArgsSize) ps = Ok (paramsSize ps = expectedArgsSize)"
| "noPadding (Fail e) ps = Ok False"
| "noPadding Panic ps = Panic"
| "noPadding OutOfFuel ps = OutOfFuel"

definition canFillInOutputParameters :: "int outcome \<Rightarrow> Parameter list \<Rightarrow> bool outcome" where
  "canFillInOutputParameters argsSize ps =
     (if list_ex (\<lambda>p. IsOutput p \<and> (Exists p \<or> \<not> HasPrefix (pName p) ''~r'')) ps then Ok False
      else noPadding argsSize ps)"

fun assignOffsets :: "Parameter list \<Rightarrow> nat list \<Rightarrow> int \<Rightarrow> Parameter list" where
  "assignOffsets ps [] currOffset = ps"
| "assignOffsets ps (i # is) currOffset =
     assignOffsets (ps[i := (ps ! i)\<lparr>Exists := True, Offset := currOffset\<rparr>]) is
       (currOffset + paramSize (ps ! i))"

definition doFillInOutputParameters :: "Parameter list \<Rightarrow> Parameter list" where
  "doFillInOutputParameters ps =
     (let outputIndexes = filter (\<lambda>i. IsOutput (ps ! i)) [0..<length ps];
          totalSize = paramsSize ps;
          totalOutputSize = paramsSize (filter IsOutput ps)
      in assignOffsets ps (sort_key (\<lambda>i. pName (ps ! i)) outputIndexes) (totalSize - totalOutputSize))"

definition fillInOutputParameters :: "int outcome \<Rightarrow> Parameter list \<Rightarrow> Parameter list outcome" where
  "fillInOutputParameters argsSize ps =
     bindO (canFillInOutputParameters argsSize ps) (\<lambda>can.
       Ok (if can then sort_key Offset (doFillInOutputParameters ps) else ps))"

definition canFillInUnknownParameter :: "int outcome \<Rightarrow> Parameter list \<Rightarrow> bool outcome" where
  "canFillInUnknownParameter argsSize ps =
     (if length (filter (\<lambda>p. \<not> Exists p) ps) \<noteq> 1 then Ok False else noPadding argsSize ps)"

definition sentinel :: "int \<Rightarrow> Parameter" where
  "sentinel argsSize = \<lparr>pName = [], Typ = VoidType, Offset = argsSize, Exists = True, IsOutput = False\<rparr>"

fun unknownOffsetLoop :: "Parameter list \<Rightarrow> nat list \<Rightarrow> int outcome" where
  "unknownOffsetLoop ps [] = Ok 0"
| "unknownOffsetLoop ps (i # is) =
     (if \<not> Exists (ps ! i) then unknownOffsetLoop ps is
      else if i + 1 \<ge> length ps then Panic
      else
        (let j = (if \<not> Exists (ps ! (i + 1)) then i + 2 else i + 1);
             nextOffset = Offset (ps ! i) + paramSize (ps ! i)
         in if j \<ge> length ps then Panic
            else if nextOffset \<noteq> Offset (ps ! j) then Ok nextOffset
            else unknownOffsetLoop ps is))"

definition calculateUnknownParameterOffset :: "Parameter list \<Rightarrow> int outcome" where
  "calculateUnknownParameterOffset ps =
     (let ps' = ps @ [sentinel (paramsSize ps)]
      in unknownOffsetLoop ps' [0..<length ps' - 1])"

fun findUnknown :: "Parameter list \<Rightarrow> nat \<Rightarrow> nat option" where
  "findUnknown [] i = None"
| "findUnknown (p # ps) i = (if \<not> Exists p then Some i else findUnknown ps (Suc i))"

definition fillInUnknownParameter :: "int outcome \<Rightarrow> Parameter list \<Rightarrow> Parameter list outcome" where
  "fillInUnknownParameter argsSize ps =
     bindO (canFillInUnknownParameter argsSize ps) (\<lambda>can.
       if \<not> can then Ok ps
       else bindO (calculateUnknownParameterOffset ps) (\<lambda>offset.
         case findUnknown ps 0 of
           None \<Rightarrow> Panic
         | Some i \<Rightarrow> Ok (sort_key Offset (ps[i := (ps ! i)\<lparr>Exists := True, Offset := offset\<rparr>]))))"

definition FindFunction ::
    "nat \<Rightarrow> BinaryFile \<Rightarrow> moduleData list \<Rightarrow> memoryReader \<Rightarrow> u64 \<Rightarrow> Function outcome" where
  "FindFunction fuel bin mds reader pc =
     (case bfFindFunction bin pc of
        Ok f \<Rightarrow>
          bindO (fillInOutputParameters (findFunctionArgsSize fuel mds reader pc) (Parameters f)) (\<lambda>ps.
          bindO (fillInUnknownParameter (findFunctionArgsSize fuel mds reader pc) ps) (\<lambda>ps'.
            Ok (f\<lparr>Parameters := ps'\<rparr>)))
      | Fail e \<Rightarrow> findFunctionByModuleData fuel mds reader pc
      | Panic \<Rightarrow> Panic
      | OutOfFuel \<Rightarrow> OutOfFuel)"

section \<open>Tiled argument areas\<close>

text \<open>The parameters of a function, in order, fill the area from \<open>base\<close> on; each has a size.\<close>

fun tiled :: "int \<Rightarrow> Parameter list \<Rightarrow> bool" where
  "tiled base [] = True"
| "tiled base (p # ps) = (Exists p \<and> 0 < paramSize p \<and> Offset p = base \<and> tiled (base + paramSize p) ps)"

lemma tiled_append: "tiled base (ps @ qs) \<longleftrightarrow> tiled base ps \<and> tiled (base + paramsSize ps) qs"
  by (induction ps arbitrary: base) (auto simp: paramsSize_def add.assoc)

lemma paramsSize_simps [simp]:
  "paramsSize [] = 0" "paramsSize (p # ps) = paramSize p + paramsSize ps"
  "paramsSize (ps @ qs) = paramsSize ps + paramsSize qs"
  by (simp_all add: paramsSize_def)

lemma paramsSize_mset: "mset ps = mset qs \<Longrightarrow> paramsSize ps = paramsSize qs"
  unfolding paramsSize_def by (metis mset_map sum_mset_sum_list)

lemma tiled_bound: "tiled base ps \<Longrightarrow> p \<in> set ps \<Longrightarrow> base \<le> Offset p"
  by (induction ps arbitrary: base) fastforce+

lemma tiled_strict: "tiled base ps \<Longrightarrow> sorted_wrt (<) (map Offset ps)"
  by (induction ps arbitrary: base) (fastforce dest: tiled_bound)+

lemma tiled_sort:
  assumes "tiled base ps" and "mset qs = mset ps"
  shows "sort_key Offset qs = ps"
proof (rule sort_key_inj_key_eq)
  have s: "sorted_wrt (<) (map Offset ps)" using assms(1) by (rule tiled_strict)
  then show "sorted (map Offset ps)" by (simp add: strict_sorted_iff)
  have "distinct (map Offset ps)" using s by (simp add: strict_sorted_iff)
  then show "inj_on Offset (set qs)"
    using mset_eq_setD [OF assms(2)] by (simp add: distinct_map)
qed (rule assms(2))

section \<open>The unknown parameter\<close>

text \<open>What the index loop computes on the parameters with a location: the first gap.\<close>

fun gapOf :: "Parameter list \<Rightarrow> int" where
  "gapOf (p # q # ps) =
     (if Offset p + paramSize p \<noteq> Offset q then Offset p + paramSize p else gapOf (q # ps))"
| "gapOf _ = 0"

definition atMostOneUnknown :: "Parameter list \<Rightarrow> bool" where
  "atMostOneUnknown ps \<longleftrightarrow>
     (\<forall>i < length ps. \<forall>j < length ps. \<not> Exists (ps ! i) \<longrightarrow> \<not> Exists (ps ! j) \<longrightarrow> i = j)"

lemma unknownOffsetLoop_gap:
  assumes one: "atMostOneUnknown ps" and len: "length ps = Suc n" and last: "Exists (ps ! n)"
    and i: "i \<le> n"
  shows "unknownOffsetLoop ps [i..<n] = Ok (gapOf (filter Exists (drop i ps)))"
  using i
proof (induction i rule: inc_induct)
  case base
  have "drop n ps = [ps ! n]" using len by (simp add: Cons_nth_drop_Suc [symmetric])
  with last show ?case by simp
next
  case (step i)
  have upt: "[i..<n] = i # [Suc i..<n]" using step.hyps by (simp add: upt_conv_Cons)
  have drop1: "drop i ps = ps ! i # drop (Suc i) ps" "drop (Suc i) ps = ps ! Suc i # drop (Suc (Suc i)) ps"
    using step.hyps len by (simp_all add: Cons_nth_drop_Suc)
  show ?case
  proof (cases "Exists (ps ! i)")
    case False
    with step show ?thesis by (simp add: upt drop1(1))
  next
    case True
    define j where "j = (if \<not> Exists (ps ! (i + 1)) then i + 2 else i + 1)"
    have lt: "j < length ps" using last step.hyps len by (cases "Suc i = n") (auto simp: j_def)
    have "\<exists>rest. filter Exists (drop (Suc i) ps) = ps ! j # rest"
    proof (cases "Exists (ps ! Suc i)")
      case True
      then show ?thesis by (subst drop1(2)) (simp add: j_def)
    next
      case False
      then have j2: "j = Suc (Suc i)" by (simp add: j_def)
      have "Exists (ps ! j)"
        using one [unfolded atMostOneUnknown_def, rule_format, of "Suc i" j] False lt len j2 by auto
      moreover have "drop (Suc (Suc i)) ps = ps ! j # drop (Suc j) ps"
        unfolding j2 using lt j2 by (intro Cons_nth_drop_Suc [symmetric]) simp
      ultimately show ?thesis using False by (subst drop1(2)) simp
    qed
    then obtain rest where rest: "filter Exists (drop (Suc i) ps) = ps ! j # rest" by blast
    have "unknownOffsetLoop ps (i # [Suc i..<n]) =
        (if Offset (ps ! i) + paramSize (ps ! i) \<noteq> Offset (ps ! j)
         then Ok (Offset (ps ! i) + paramSize (ps ! i))
         else unknownOffsetLoop ps [Suc i..<n])"
      unfolding unknownOffsetLoop.simps j_def [symmetric] Let_def using True step.hyps lt len by simp
    then show ?thesis
      unfolding upt step.IH rest drop1(1) using True rest by simp
  qed
qed

lemma calculate_gap:
  assumes "atMostOneUnknown ps"
  shows "calculateUnknownParameterOffset ps = Ok (gapOf (filter Exists ps @ [sentinel (paramsSize ps)]))"
proof -
  have s: "Exists (sentinel n)" for n by (simp add: sentinel_def)
  have one: "atMostOneUnknown (ps @ [sentinel (paramsSize ps)])"
    using assms s by (auto simp: atMostOneUnknown_def nth_append less_Suc_eq)
  show ?thesis
    using unknownOffsetLoop_gap [OF one, of "length ps" 0] s
    by (simp add: calculateUnknownParameterOffset_def)
qed

lemma gapOf_tiled: "tiled base ps \<Longrightarrow> Offset s = base + paramsSize ps \<Longrightarrow> gapOf (ps @ [s]) = 0"
proof (induction ps arbitrary: base)
  case Nil
  then show ?case by simp
next
  case (Cons p ps)
  from Cons.prems have t: "tiled (base + paramSize p) ps" "Offset p = base" by auto
  have IH: "gapOf (ps @ [s]) = 0"
    using Cons.prems(2) by (intro Cons.IH [OF t(1)]) simp
  show ?case
  proof (cases ps)
    case Nil
    then show ?thesis using t Cons.prems(2) by simp
  next
    case (Cons q qs)
    then show ?thesis using t IH by simp
  qed
qed

lemma gapOf_hole:
  assumes "tiled base (p # a)" and "Offset q \<noteq> base + paramsSize (p # a)"
  shows "gapOf (p # a @ q # ps) = base + paramsSize (p # a)"
  using assms
proof (induction a arbitrary: base p)
  case Nil
  then show ?case by simp
next
  case (Cons r a)
  from Cons.prems have "tiled (base + paramSize p) (r # a)" by simp
  with Cons.prems Cons.IH [of "base + paramSize p" r] show ?case by (simp add: add.assoc)
qed

lemma gapOf_removed:
  assumes "tiled 0 (a @ u # b)"
  shows "gapOf (a @ b @ [sentinel (paramsSize (a @ u # b))]) = Offset u"
proof (cases a)
  case Nil
  with assms have "gapOf (b @ [sentinel (paramsSize (u # b))]) = 0"
    by (intro gapOf_tiled [of "paramSize u"]) (auto simp: sentinel_def)
  with Nil assms show ?thesis by simp
next
  case (Cons p a')
  define n where "n = paramsSize (a @ u # b)"
  have u: "Offset u = paramsSize a" "0 < paramSize u" using assms by (auto simp: tiled_append)
  obtain q rest where q: "b @ [sentinel n] = q # rest" by (cases b) auto
  have "Offset q = paramsSize a + paramSize u"
    using q assms by (cases b) (auto simp: tiled_append sentinel_def n_def)
  moreover have "tiled 0 (p # a')" using assms Cons by (simp add: tiled_append)
  ultimately have "gapOf (p # a' @ q # rest) = Offset u"
    using gapOf_hole [of 0 p a' q rest] u Cons by simp
  moreover have "a @ b @ [sentinel n] = p # a' @ q # rest" using q Cons by simp
  ultimately show ?thesis by (simp only: n_def [symmetric])
qed

lemma findUnknown_append: "\<forall>p\<in>set a. Exists p \<Longrightarrow> \<not> Exists u \<Longrightarrow> findUnknown (a @ u # b) i = Some (i + length a)"
  by (induction a arbitrary: i) auto

lemma tiled_Exists: "tiled base ps \<Longrightarrow> p \<in> set ps \<Longrightarrow> Exists p"
  by (induction ps arbitrary: base) auto

lemma atMostOneUnknown_split:
  assumes "\<forall>p\<in>set c \<union> set d. Exists p"
  shows "atMostOneUnknown (c @ u # d)"
proof -
  have "i = length c" if i: "i < length (c @ u # d)" and no: "\<not> Exists ((c @ u # d) ! i)" for i
  proof (rule ccontr)
    assume "i \<noteq> length c"
    then have "(c @ u # d) ! i \<in> set c \<union> set d"
      using i by (cases "i < length c") (auto simp: nth_append nth_Cons')
    with assms no show False by blast
  qed
  then show ?thesis unfolding atMostOneUnknown_def by metis
qed

section \<open>The unnamed results\<close>

fun place :: "int \<Rightarrow> Parameter list \<Rightarrow> Parameter list" where
  "place off [] = []"
| "place off (p # ps) = p\<lparr>Exists := True, Offset := off\<rparr> # place (off + paramSize p) ps"

lemma paramSize_update [simp]: "paramSize (p\<lparr>Exists := e, Offset := off\<rparr>) = paramSize p"
  by (simp add: paramSize_def)

lemma assignOffsets_mset:
  assumes "distinct is" and "\<forall>i\<in>set is. i < length ps"
  shows "mset (assignOffsets ps is off) + mset (map ((!) ps) is) = mset ps + mset (place off (map ((!) ps) is))"
  using assms
proof (induction "is" arbitrary: ps off)
  case Nil
  then show ?case by simp
next
  case (Cons i "is")
  let ?v = "(ps ! i)\<lparr>Exists := True, Offset := off\<rparr>"
  let ?ps = "ps[i := ?v]"
  have same: "map ((!) ?ps) is = map ((!) ps) is" using Cons.prems(1)
    by (intro map_cong refl) (metis distinct.simps(2) nth_list_update_neq)
  have "mset (assignOffsets ?ps is (off + paramSize (ps ! i))) + mset (map ((!) ps) is)
      = mset ?ps + mset (place (off + paramSize (ps ! i)) (map ((!) ps) is))"
    using Cons.IH [of ?ps] Cons.prems same by simp
  moreover have "add_mset (ps ! i) (mset ?ps) = add_mset ?v (mset ps)"
    using Cons.prems by (simp add: mset_update)
  ultimately show ?case by (simp add: add.commute)
qed

lemma insort_map: "map f (insort_key (\<lambda>x. k (f x)) x xs) = insort_key k (f x) (map f xs)"
  by (induction xs) auto

lemma sort_map: "map f (sort_key (\<lambda>x. k (f x)) xs) = sort_key k (map f xs)"
  by (induction xs) (simp_all add: insort_map)

lemma nth_filter_upt: "map ((!) ps) (filter (\<lambda>i. P (ps ! i)) [0..<length ps]) = filter P ps"
proof -
  have "filter P (map ((!) ps) [0..<length ps]) = map ((!) ps) (filter (\<lambda>i. P (ps ! i)) [0..<length ps])"
    by (simp add: filter_map comp_def)
  then show ?thesis by (simp add: map_nth)
qed

lemma doFillInOutputParameters_mset:
  "mset (doFillInOutputParameters ps)
     = mset (filter (\<lambda>p. \<not> IsOutput p) ps)
       + mset (place (paramsSize (filter (\<lambda>p. \<not> IsOutput p) ps)) (sort_key pName (filter IsOutput ps)))"
proof -
  let ?is = "sort_key (\<lambda>i. pName (ps ! i)) (filter (\<lambda>i. IsOutput (ps ! i)) [0..<length ps])"
  have picked: "map ((!) ps) ?is = sort_key pName (filter IsOutput ps)"
    by (simp add: sort_map nth_filter_upt)
  have parts: "mset ps = mset (filter IsOutput ps) + mset (filter (\<lambda>p. \<not> IsOutput p) ps)"
    by (metis mset_filter multiset_partition)
  have "paramsSize ps = paramsSize (filter IsOutput ps @ filter (\<lambda>p. \<not> IsOutput p) ps)"
    by (rule paramsSize_mset) (simp only: mset_append parts [symmetric])
  then have size: "paramsSize ps - paramsSize (filter IsOutput ps) = paramsSize (filter (\<lambda>p. \<not> IsOutput p) ps)"
    by simp
  have "mset (doFillInOutputParameters ps) + mset (map ((!) ps) ?is)
      = mset ps + mset (place (paramsSize (filter (\<lambda>p. \<not> IsOutput p) ps)) (map ((!) ps) ?is))"
    unfolding doFillInOutputParameters_def Let_def size
    by (rule assignOffsets_mset) auto
  then have "mset (doFillInOutputParameters ps) + mset (filter IsOutput ps)
      = mset (place (paramsSize (filter (\<lambda>p. \<not> IsOutput p) ps)) (sort_key pName (filter IsOutput ps)))
        + mset (filter (\<lambda>p. \<not> IsOutput p) ps) + mset (filter IsOutput ps)"
    unfolding picked mset_sort by (subst (asm) parts) (simp only: add.assoc add.commute add.left_commute)
  then have "mset (doFillInOutputParameters ps)
      = mset (place (paramsSize (filter (\<lambda>p. \<not> IsOutput p) ps)) (sort_key pName (filter IsOutput ps)))
        + mset (filter (\<lambda>p. \<not> IsOutput p) ps)"
    by (rule add_right_imp_eq)
  then show ?thesis by (simp only: add.commute)
qed

text \<open>The parameter as the DWARF reader gives it when it has no location.\<close>

definition hideLocation :: "Parameter \<Rightarrow> Parameter" where
  "hideLocation p = p\<lparr>Exists := False, Offset := 0\<rparr>"

lemma hideLocation_simps [simp]:
  "pName (hideLocation p) = pName p" "IsOutput (hideLocation p) = IsOutput p"
  "\<not> Exists (hideLocation p)" "paramSize (hideLocation p) = paramSize p"
  "(hideLocation p)\<lparr>Exists := True, Offset := off\<rparr> = p\<lparr>Exists := True, Offset := off\<rparr>"
  by (simp_all add: hideLocation_def paramSize_def)

lemma place_hidden: "tiled base ps \<Longrightarrow> place base (map hideLocation ps) = ps"
  by (induction ps arbitrary: base) auto

lemma paramsSize_hidden: "paramsSize (map hideLocation ps) = paramsSize ps"
  by (induction ps) auto

lemma results_placed_by_name:
  assumes area: "tiled 0 (ins @ outs)"
    and kinds: "\<forall>p\<in>set ins. \<not> IsOutput p" "\<forall>p\<in>set outs. IsOutput p \<and> HasPrefix (pName p) ''~r''"
    and names: "sorted_wrt (<) (map pName outs)"
    and seen: "mset obs = mset (ins @ map hideLocation outs)"
  shows "fillInOutputParameters (Ok (paramsSize (ins @ outs))) obs = Ok (ins @ outs)"
proof -
  have members: "set obs = set ins \<union> hideLocation ` set outs"
    using mset_eq_setD [OF seen] by simp
  then have "\<not> list_ex (\<lambda>p. IsOutput p \<and> (Exists p \<or> \<not> HasPrefix (pName p) ''~r'')) obs"
    using kinds by (auto simp: list_ex_iff)
  moreover have "paramsSize obs = paramsSize (ins @ outs)"
    using paramsSize_mset [OF seen] by (simp add: paramsSize_hidden)
  ultimately have can: "canFillInOutputParameters (Ok (paramsSize (ins @ outs))) obs = Ok True"
    by (simp add: canFillInOutputParameters_def)
  have split: "filter (\<lambda>p. \<not> IsOutput p) (ins @ map hideLocation outs) = ins"
    "filter IsOutput (ins @ map hideLocation outs) = map hideLocation outs"
    using kinds by (auto simp: filter_empty_conv filter_id_conv)
  have parts: "mset (filter (\<lambda>p. \<not> IsOutput p) obs) = mset ins"
    "mset (filter IsOutput obs) = mset (map hideLocation outs)"
    by (simp_all only: mset_filter seen) (simp_all only: split flip: mset_filter)
  have "sort_key pName (filter IsOutput obs) = map hideLocation outs"
  proof (rule sort_key_inj_key_eq [OF parts(2)])
    have same: "map pName (map hideLocation outs) = map pName outs" by simp
    have s: "sorted (map pName outs) \<and> distinct (map pName outs)"
      using names by (simp add: strict_sorted_iff)
    then show "sorted (map pName (map hideLocation outs))" by (simp only: same)
    have "distinct (map pName (map hideLocation outs))" using s by (simp only: same)
    then show "inj_on pName (set (filter IsOutput obs))"
      using mset_eq_setD [OF parts(2)] by (simp only: distinct_map)
  qed
  moreover have "paramsSize (filter (\<lambda>p. \<not> IsOutput p) obs) = paramsSize ins"
    using parts(1) by (rule paramsSize_mset)
  ultimately have "mset (doFillInOutputParameters obs) = mset (ins @ outs)"
    using area by (simp only: doFillInOutputParameters_mset parts place_hidden tiled_append mset_append add_0)
  then have "sort_key Offset (doFillInOutputParameters obs) = ins @ outs"
    using area by (intro tiled_sort)
  then show ?thesis by (simp add: fillInOutputParameters_def can del: paramsSize_simps)
qed

section \<open>Properties\<close>

text \<open>
  C22: FindFunction restores the locations of unnamed results. When the arguments and then the
  results fill the argument area without padding, none of the results has a location, and their
  generated names come in the order of strings, every parameter gets its true offset, whatever
  order the parameters came in.
\<close>

theorem unnamed_results_are_restored:
  assumes "tiled 0 (ins @ outs)"
    and "\<forall>p\<in>set ins. \<not> IsOutput p" and "\<forall>p\<in>set outs. IsOutput p \<and> HasPrefix (pName p) ''~r''"
    and "sorted_wrt (<) (map pName outs)"
    and "mset obs = mset (ins @ map hideLocation outs)"
  shows "fillInOutputParameters (Ok (paramsSize (ins @ outs))) obs = Ok (ins @ outs)"
  by (rule results_placed_by_name [OF assms])

definition intParam :: "string \<Rightarrow> int \<Rightarrow> bool \<Rightarrow> Parameter" where
  "intParam name off out = \<lparr>pName = name, Typ = IntType 8, Offset = off, Exists = True, IsOutput = out\<rparr>"

lemma intParam_simps [simp]:
  "pName (intParam name off out) = name" "Offset (intParam name off out) = off"
  "Exists (intParam name off out)" "IsOutput (intParam name off out) = out"
  "paramSize (intParam name off out) = 8" "Typ (intParam name off out) = IntType 8"
  by (simp_all add: intParam_def paramSize_def)

theorem unnamed_results_are_restored_witness:
  "fillInOutputParameters (Ok 24)
     [hideLocation (intParam ''~r2'' 16 True), hideLocation (intParam ''~r1'' 8 True), intParam ''a'' 0 False]
   = Ok [intParam ''a'' 0 False, intParam ''~r1'' 8 True, intParam ''~r2'' 16 True]"
  using unnamed_results_are_restored
    [of "[intParam ''a'' 0 False]" "[intParam ''~r1'' 8 True, intParam ''~r2'' 16 True]"
      "[hideLocation (intParam ''~r2'' 16 True), hideLocation (intParam ''~r1'' 8 True), intParam ''a'' 0 False]"]
  by (simp add: HasPrefix_def less_char_def)

text \<open>
  The order of the names is that of strings, in which ~r10 comes before ~r9. A function
  whose unnamed results are numbered nine and ten gets their two locations swapped, so that
  each result is printed with the bytes of the other.
\<close>

theorem tenth_result_takes_the_place_of_the_ninth:
  assumes "tiled 0 ins" and "\<forall>p\<in>set ins. \<not> IsOutput p"
    and "r9 = \<lparr>pName = ''~r9'', Typ = t9, Offset = paramsSize ins, Exists = True, IsOutput = True\<rparr>"
    and "r10 = \<lparr>pName = ''~r10'', Typ = t10, Offset = paramsSize ins + typeSize t9, Exists = True, IsOutput = True\<rparr>"
    and "0 < typeSize t9" and "0 < typeSize t10"
  shows "fillInOutputParameters (Ok (paramsSize (ins @ [r9, r10]))) (ins @ [hideLocation r9, hideLocation r10])
       = Ok (ins @ [r10\<lparr>Offset := paramsSize ins\<rparr>, r9\<lparr>Offset := paramsSize ins + typeSize t10\<rparr>])"
proof -
  let ?outs = "[r10\<lparr>Offset := paramsSize ins\<rparr>, r9\<lparr>Offset := paramsSize ins + typeSize t10\<rparr>]"
  have hide: "hideLocation (r10\<lparr>Offset := n\<rparr>) = hideLocation r10" "hideLocation (r9\<lparr>Offset := n\<rparr>) = hideLocation r9" for n
    by (simp_all add: hideLocation_def)
  have "tiled 0 (ins @ ?outs)"
    using assms by (simp add: tiled_append paramSize_def)
  moreover have "\<forall>p\<in>set ?outs. IsOutput p \<and> HasPrefix (pName p) ''~r''"
    using assms(3,4) by (simp add: HasPrefix_def)
  moreover have "sorted_wrt (<) (map pName ?outs)" using assms(3,4) by (simp add: less_char_def)
  ultimately have "fillInOutputParameters (Ok (paramsSize (ins @ ?outs))) (ins @ [hideLocation r9, hideLocation r10])
      = Ok (ins @ ?outs)"
    using assms(2) by (intro results_placed_by_name) (simp_all add: hide)
  moreover have "paramsSize (ins @ ?outs) = paramsSize (ins @ [r9, r10])"
    using assms(3,4) by (simp add: paramSize_def)
  ultimately show ?thesis by simp
qed

theorem tenth_result_takes_the_place_of_the_ninth_witness:
  "fillInOutputParameters (Ok 16) [hideLocation (intParam ''~r9'' 0 True), hideLocation (intParam ''~r10'' 8 True)]
   = Ok [intParam ''~r10'' 0 True, intParam ''~r9'' 8 True]"
  using tenth_result_takes_the_place_of_the_ninth
    [of "[]" "intParam ''~r9'' 0 True" "IntType 8" "intParam ''~r10'' 8 True" "IntType 8"]
  by (simp add: intParam_def paramSize_def)

text \<open>
  C21: FindFunction restores the location of a single parameter that has none. When the
  parameters fill the argument area without padding and the others have their true locations
  in order, the gap they leave is found, wherever the parameter without a location stands in
  the list, and the list comes back in the order of the area.
\<close>

theorem unknown_parameter_is_restored:
  assumes area: "tiled 0 (a @ u # b)" and seen: "c @ d = a @ b"
  shows "fillInUnknownParameter (Ok (paramsSize (a @ u # b))) (c @ hideLocation u # d) = Ok (a @ u # b)"
proof -
  have ex: "\<forall>p\<in>set c \<union> set d. Exists p"
  proof
    fix p assume "p \<in> set c \<union> set d"
    then have "p \<in> set (c @ d)" by simp
    then have "p \<in> set (a @ u # b)" unfolding seen by auto
    then show "Exists p" using area by (rule tiled_Exists [rotated])
  qed
  have "mset c + mset d = mset a + mset b" using arg_cong [OF seen, of mset] by simp
  then have perm: "mset (c @ u # d) = mset (a @ u # b)" by simp
  have size: "paramsSize (c @ hideLocation u # d) = paramsSize (a @ u # b)"
    using paramsSize_mset [OF perm] by simp
  have "filter Exists (c @ hideLocation u # d) = c @ d"
    using ex by (simp add: filter_id_conv)
  then have off: "calculateUnknownParameterOffset (c @ hideLocation u # d) = Ok (Offset u)"
    using calculate_gap [OF atMostOneUnknown_split [OF ex]] gapOf_removed [OF area]
    by (simp only: size seen append_assoc)
  have found: "findUnknown (c @ hideLocation u # d) 0 = Some (length c)"
    using ex by (simp add: findUnknown_append)
  have "length (filter (\<lambda>p. \<not> Exists p) (c @ hideLocation u # d)) = 1"
    using ex by (simp add: filter_empty_conv [THEN iffD2])
  then have can: "canFillInUnknownParameter (Ok (paramsSize (a @ u # b))) (c @ hideLocation u # d) = Ok True"
    by (simp only: canFillInUnknownParameter_def noPadding.simps size simp_thms if_False)
  have "Exists u" using area by (simp add: tiled_append)
  then have "u\<lparr>Exists := True, Offset := Offset u\<rparr> = u" by simp
  then have "sort_key Offset ((c @ hideLocation u # d)[length c := u\<lparr>Exists := True, Offset := Offset u\<rparr>]) = a @ u # b"
    using tiled_sort [OF area perm] by simp
  then show ?thesis
    by (simp add: fillInUnknownParameter_def can off found nth_append del: paramsSize_simps)
qed

theorem unknown_parameter_is_restored_witness:
  "fillInUnknownParameter (Ok 24)
     [hideLocation (intParam ''b'' 8 False), intParam ''a'' 0 False, intParam ''c'' 16 False]
   = Ok [intParam ''a'' 0 False, intParam ''b'' 8 False, intParam ''c'' 16 False]"
  using unknown_parameter_is_restored
    [of "[intParam ''a'' 0 False]" "intParam ''b'' 8 False" "[intParam ''c'' 16 False]" "[]"
      "[intParam ''a'' 0 False, intParam ''c'' 16 False]"]
  by simp

end
