(* ===== verification/Value.thy ===== *)
theory Value
  imports FuncTab
begin

text \<open>
  tracee/value.go: the parser of the tracee's values by their DWARF types, and the values'
  string representations. A value keeps the type it was parsed with. Bit patterns of floating
  point numbers stay bit patterns; how the library prints them, quotes a string or names a type
  is the record \<open>fmtEnv\<close>, together with the order in which a Go map is ranged over when printed.

  The parser follows pointers, so that it need not end: it is one step over the parser it calls
  for the parts, and \<open>parseValue\<close> iterates that step as often as its fuel says.
\<close>

section \<open>Values\<close>

text \<open>
  The value types without parts are the constructors of \<open>scalar\<close>, which the other value types
  are built from; each embeds the DWARF type it was parsed with, the first component here.
\<close>

datatype scalar =
    Int8Value u8
  | Int16Value u16
  | Int32Value u32
  | Int64Value u64
  | Uint8Value u8
  | Uint16Value u16
  | Uint32Value u32
  | Uint64Value u64
  | Float32Value u32
  | Float64Value u64
  | Complex64Value u32 u32
  | Complex128Value u64 u64
  | BoolValue bool
  | FuncValue u64
  | StringValue string
  | VoidValue "u8 list"

datatype val =
    Scalar dtype scalar
  | PtrValue dtype u64 "val option"
  | SliceValue dtype "val option list"
  | StructValue dtype "(string \<times> val) list" bool
  | InterfaceValue dtype "(dtype \<times> val) option" bool
  | ArrayValue dtype "val list"
  | MapValue dtype "(val \<times> val) list"

fun valueType :: "val \<Rightarrow> dtype" where
  "valueType (Scalar t _) = t"
| "valueType (PtrValue t _ _) = t"
| "valueType (SliceValue t _) = t"
| "valueType (StructValue t _ _) = t"
| "valueType (InterfaceValue t _ _) = t"
| "valueType (ArrayValue t _) = t"
| "valueType (MapValue t _) = t"

text \<open>The method Size is the one of the embedded type.\<close>

definition valueSize :: "val \<Rightarrow> int" where
  "valueSize v = typeSize (valueType v)"

text \<open>
  A Go map with keys of an interface type panics on a key whose dynamic type has a slice or a
  map in it.
\<close>

fun hashable :: "val \<Rightarrow> bool" where
  "hashable (PtrValue t a (Some v)) = hashable v"
| "hashable (SliceValue t vs) = False"
| "hashable (StructValue t fs abbr) = False"
| "hashable (InterfaceValue t (Some (impl, v)) abbr) = hashable v"
| "hashable (ArrayValue t vs) = False"
| "hashable (MapValue t kvs) = False"
| "hashable (Scalar t (VoidValue bs)) = False"
| "hashable _ = True"

text \<open>
  Keys are compared by ==, which is on floating point numbers not the comparison of their bit
  patterns: a NaN is unequal to itself, the two zeros are equal. Values of the kinds that panic
  above never come to be compared.
\<close>

definition float32Eq :: "u32 \<Rightarrow> u32 \<Rightarrow> bool" where
  "float32Eq w r = (let m = take_bit 31 w; n = take_bit 31 r in
     m \<le> 0x7F800000 \<and> n \<le> 0x7F800000 \<and> (w = r \<or> m = 0 \<and> n = 0))"

definition float64Eq :: "u64 \<Rightarrow> u64 \<Rightarrow> bool" where
  "float64Eq w r = (let m = take_bit 63 w; n = take_bit 63 r in
     m \<le> 0x7FF0000000000000 \<and> n \<le> 0x7FF0000000000000 \<and> (w = r \<or> m = 0 \<and> n = 0))"

fun scalarEq :: "scalar \<Rightarrow> scalar \<Rightarrow> bool" where
  "scalarEq (Float32Value w) (Float32Value r) = float32Eq w r"
| "scalarEq (Float64Value w) (Float64Value r) = float64Eq w r"
| "scalarEq (Complex64Value w w') (Complex64Value r r') = (float32Eq w r \<and> float32Eq w' r')"
| "scalarEq (Complex128Value w w') (Complex128Value r r') = (float64Eq w r \<and> float64Eq w' r')"
| "scalarEq s r = (s = r)"

fun keyEq :: "val \<Rightarrow> val \<Rightarrow> bool" where
  "keyEq (Scalar t s) (Scalar u r) = (t = u \<and> scalarEq s r)"
| "keyEq (PtrValue t a None) (PtrValue u c None) = (t = u \<and> a = c)"
| "keyEq (PtrValue t a (Some v)) (PtrValue u c (Some w)) = (t = u \<and> a = c \<and> keyEq v w)"
| "keyEq (InterfaceValue t None abbr) (InterfaceValue u None abbr') = (t = u \<and> abbr = abbr')"
| "keyEq (InterfaceValue t (Some (i, v)) abbr) (InterfaceValue u (Some (j, w)) abbr') =
     (t = u \<and> abbr = abbr' \<and> i = j \<and> keyEq v w)"
| "keyEq _ _ = False"

definition mapPut :: "val \<Rightarrow> val \<Rightarrow> (val \<times> val) list \<Rightarrow> (val \<times> val) list outcome" where
  "mapPut k v kvs =
     (if hashable k then Ok (filter (\<lambda>kv. \<not> keyEq (fst kv) k) kvs @ [(k, v)]) else Panic)"

fun mapPutAll :: "(val \<times> val) list \<Rightarrow> (val \<times> val) list \<Rightarrow> (val \<times> val) list outcome" where
  "mapPutAll [] kvs = Ok kvs"
| "mapPutAll ((k, v) # new) kvs = bindO (mapPut k v kvs) (mapPutAll new)"

section \<open>The string representations\<close>

definition maxContainerItemsToPrint :: nat where
  "maxContainerItemsToPrint = 8"

record fmtEnv =
  fmtFloat32 :: "u32 \<Rightarrow> string"
  fmtFloat64 :: "u64 \<Rightarrow> string"
  fmtComplex64 :: "u32 \<Rightarrow> u32 \<Rightarrow> string"
  fmtComplex128 :: "u64 \<Rightarrow> u64 \<Rightarrow> string"
  quote :: "string \<Rightarrow> string"
  typeName :: "dtype \<Rightarrow> string"
  rangeOrder :: "string list \<Rightarrow> string list"
  panicText :: string

fun hexDigits :: "nat \<Rightarrow> nat \<Rightarrow> string" where
  "hexDigits 0 n = []"
| "hexDigits (Suc k) n =
     (if n < 16 then [''0123456789abcdef'' ! n] else hexDigits k (n div 16) @ [''0123456789abcdef'' ! (n mod 16)])"

definition hex0x :: "u64 \<Rightarrow> string" where
  "hex0x a = ''0x'' @ hexDigits 16 (unat a)"

text \<open>The package fmt recovers a panic in a String method and prints a text for it.\<close>

fun viaFmt :: "fmtEnv \<Rightarrow> string outcome \<Rightarrow> string outcome" where
  "viaFmt fe Panic = Ok (panicText fe)"
| "viaFmt fe r = r"

definition braces :: "string \<Rightarrow> string list \<Rightarrow> bool \<Rightarrow> string" where
  "braces opening vals abbrev =
     opening @ ''{'' @ joinWith '', '' vals @ (if abbrev then '', ...'' else []) @ ''}''"

fun scalarString :: "fmtEnv \<Rightarrow> scalar \<Rightarrow> string" where
  "scalarString fe (Int8Value w) = dec_int (sint w)"
| "scalarString fe (Int16Value w) = dec_int (sint w)"
| "scalarString fe (Int32Value w) = dec_int (sint w)"
| "scalarString fe (Int64Value w) = dec_int (sint w)"
| "scalarString fe (Uint8Value w) = dec_nat (unat w)"
| "scalarString fe (Uint16Value w) = dec_nat (unat w)"
| "scalarString fe (Uint32Value w) = dec_nat (unat w)"
| "scalarString fe (Uint64Value w) = dec_nat (unat w)"
| "scalarString fe (Float32Value w) = fmtFloat32 fe w"
| "scalarString fe (Float64Value w) = fmtFloat64 fe w"
| "scalarString fe (Complex64Value re im) = fmtComplex64 fe re im"
| "scalarString fe (Complex128Value re im) = fmtComplex128 fe re im"
| "scalarString fe (BoolValue b) = (if b then ''true'' else ''false'')"
| "scalarString fe (FuncValue a) = hex0x a"
| "scalarString fe (StringValue s) = quote fe s"
| "scalarString fe (VoidValue bs) = ''['' @ joinWith '' '' (map (\<lambda>b. dec_nat (unat b)) bs) @ '']''"

text \<open>
  The lists of the items' strings: for a slice or an array the items after the eighth are not
  looked at; a missing item of a slice is a nil interface, whose method call panics.
\<close>

function valString :: "fmtEnv \<Rightarrow> val \<Rightarrow> string outcome"
  and itemStrings :: "fmtEnv \<Rightarrow> nat \<Rightarrow> val option list \<Rightarrow> string list outcome"
  and elemStrings :: "fmtEnv \<Rightarrow> nat \<Rightarrow> val list \<Rightarrow> string list outcome"
  and fieldStrings :: "fmtEnv \<Rightarrow> (string \<times> val) list \<Rightarrow> string list outcome"
  and pairStrings :: "fmtEnv \<Rightarrow> (val \<times> val) list \<Rightarrow> string list outcome"
where
  "valString fe (Scalar t s) = Ok (scalarString fe s)"
| "valString fe (PtrValue t a pointed) =
     (case pointed of
        None \<Rightarrow> Ok (hex0x a)
      | Some v \<Rightarrow> bindO (viaFmt fe (valString fe v)) (\<lambda>s. Ok (''&'' @ s)))"
| "valString fe (SliceValue t vs) =
     (if vs = [] then Ok ''nil''
      else bindO (itemStrings fe maxContainerItemsToPrint vs) (\<lambda>ss.
        Ok (braces ''[]'' ss (maxContainerItemsToPrint < length vs))))"
| "valString fe (StructValue t fs abbr) =
     (if abbr then Ok ''{...}''
      else bindO (fieldStrings fe fs) (\<lambda>ss. Ok (braces [] (rangeOrder fe ss) False)))"
| "valString fe (InterfaceValue t impl abbr) =
     (if abbr then Ok ''{...}''
      else case impl of
        None \<Rightarrow> Ok ''nil''
      | Some (implType, implVal) \<Rightarrow> bindO (viaFmt fe (valString fe implVal)) (\<lambda>s.
          Ok (TrimPrefix (typeName fe implType) ''struct '' @ ''('' @ s @ '')'')))"
| "valString fe (ArrayValue t vs) =
     bindO (elemStrings fe maxContainerItemsToPrint vs) (\<lambda>ss.
       Ok (braces (''['' @ dec_nat (length ss) @ '']'') ss (maxContainerItemsToPrint < length vs)))"
| "valString fe (MapValue t kvs) =
     bindO (pairStrings fe kvs) (\<lambda>ss. Ok (braces [] (rangeOrder fe ss) False))"
| "itemStrings fe n [] = Ok []"
| "itemStrings fe n (v # vs) =
     (case n of 0 \<Rightarrow> Ok [] | Suc m \<Rightarrow>
       (case v of None \<Rightarrow> Panic
        | Some u \<Rightarrow> bindO (valString fe u) (\<lambda>s. bindO (itemStrings fe m vs) (\<lambda>ss. Ok (s # ss)))))"
| "elemStrings fe n [] = Ok []"
| "elemStrings fe n (v # vs) =
     (case n of 0 \<Rightarrow> Ok [] | Suc m \<Rightarrow>
       bindO (valString fe v) (\<lambda>s. bindO (elemStrings fe m vs) (\<lambda>ss. Ok (s # ss))))"
| "fieldStrings fe [] = Ok []"
| "fieldStrings fe ((name, v) # fs) =
     bindO (viaFmt fe (valString fe v)) (\<lambda>s.
     bindO (fieldStrings fe fs) (\<lambda>ss. Ok ((name @ '': '' @ s) # ss)))"
| "pairStrings fe [] = Ok []"
| "pairStrings fe ((k, v) # kvs) =
     bindO (viaFmt fe (valString fe k)) (\<lambda>s.
     bindO (viaFmt fe (valString fe v)) (\<lambda>t.
     bindO (pairStrings fe kvs) (\<lambda>ss. Ok ((s @ '': '' @ t) # ss))))"
  by pat_completeness simp_all
termination
  by (relation "measure (case_sum
        (case_sum (\<lambda>(fe, v). size v) (\<lambda>(fe, n, vs). size_list (size_option size) vs))
        (case_sum (\<lambda>(fe, n, vs). size_list size vs)
          (case_sum (\<lambda>(fe, fs). size_list (size_prod (\<lambda>_. 0) size) fs)
            (\<lambda>(fe, kvs). size_list (size_prod size size) kvs))))") auto

section \<open>The parser\<close>

type_synonym parser = "dtype \<Rightarrow> u8 list \<Rightarrow> int \<Rightarrow> val outcome"

record valueParser =
  reader :: memoryReader
  vpTypeAt :: "nat \<Rightarrow> dtype"
  mapRuntimeType :: "(u64 \<Rightarrow> dtype outcome) option"

text \<open>
  Subslices, type assertions and the allocation of a buffer, which panics for a length that is
  negative or above the address space. (A subslice of a subslice may in Go reach up to the end
  of the underlying buffer; here the end of the value is the limit.)
\<close>

definition subslice :: "u8 list \<Rightarrow> int \<Rightarrow> int \<Rightarrow> u8 list outcome" where
  "subslice bs lo hi =
     (if 0 \<le> lo \<and> lo \<le> hi \<and> hi \<le> int (length bs) then Ok (take (nat (hi - lo)) (drop (nat lo) bs)) else Panic)"

definition makeSize :: "int \<Rightarrow> nat outcome" where
  "makeSize n = (if n < 0 \<or> 2 ^ 48 < n then Panic else Ok (nat n))"

fun asPtr :: "val \<Rightarrow> (dtype \<times> u64 \<times> val option) outcome" where
  "asPtr (PtrValue t a v) = Ok (t, a, v)"
| "asPtr _ = Panic"

fun asArray :: "val \<Rightarrow> val list outcome" where
  "asArray (ArrayValue t vs) = Ok vs"
| "asArray _ = Panic"

fun asUint8 :: "val \<Rightarrow> u8 outcome" where
  "asUint8 (Scalar t (Uint8Value w)) = Ok w"
| "asUint8 _ = Panic"

fun asInt64 :: "val \<Rightarrow> int outcome" where
  "asInt64 (Scalar t (Int64Value w)) = Ok (sint w)"
| "asInt64 _ = Panic"

fun asUint64 :: "val \<Rightarrow> u64 outcome" where
  "asUint64 (Scalar t (Uint64Value w)) = Ok w"
| "asUint64 _ = Panic"

text \<open>The field of a value asserted to be a struct; a missing field is nil, whose assertion panics.\<close>

definition fieldOf :: "string \<Rightarrow> val \<Rightarrow> val outcome" where
  "fieldOf name v = (case v of
       StructValue t fs abbr \<Rightarrow> (case map_of fs name of None \<Rightarrow> Panic | Some u \<Rightarrow> Ok u)
     | _ \<Rightarrow> Panic)"

definition pointedBy :: "val option \<Rightarrow> val outcome" where
  "pointedBy v = (case v of None \<Rightarrow> Panic | Some u \<Rightarrow> Ok u)"

text \<open>A read whose error is logged and leads to a value without the data.\<close>

definition readOr :: "valueParser \<Rightarrow> u64 \<Rightarrow> nat \<Rightarrow> 'a \<Rightarrow> (u8 list \<Rightarrow> 'a outcome) \<Rightarrow> 'a outcome" where
  "readOr b a n otherwise k = (case reader b a n of
       Ok buff \<Rightarrow> k buff
     | Fail e \<Rightarrow> Ok otherwise
     | Panic \<Rightarrow> Panic
     | OutOfFuel \<Rightarrow> OutOfFuel)"

definition parseStringValue :: "valueParser \<Rightarrow> dtype \<Rightarrow> u8 list \<Rightarrow> val outcome" where
  "parseStringValue b typ v =
     bindO (bindO (subslice v 0 8) Uint64) (\<lambda>a.
     bindO (bindO (subslice v 8 (int (length v))) Uint64) (\<lambda>len.
     bindO (makeSize (sint len)) (\<lambda>n.
       readOr b a n (Scalar typ (StringValue []))
         (\<lambda>buff. Ok (Scalar typ (StringValue (bytesToString buff)))))))"

text \<open>A field name that occurs twice keeps its last value.\<close>

fun parseFields :: "parser \<Rightarrow> structField list \<Rightarrow> u8 list \<Rightarrow> int \<Rightarrow> (string \<times> val) list \<Rightarrow> (string \<times> val) list outcome" where
  "parseFields pv [] v depth acc = Ok acc"
| "parseFields pv (f # fs) v depth acc =
     bindO (sliceField v f) (\<lambda>raw.
     bindO (pv (fieldType f) raw depth) (\<lambda>u.
       parseFields pv fs v depth (filter (\<lambda>g. fst g \<noteq> fieldName f) acc @ [(fieldName f, u)])))"

definition parseStructValue :: "parser \<Rightarrow> dtype \<Rightarrow> u8 list \<Rightarrow> int \<Rightarrow> val outcome" where
  "parseStructValue pv typ v remainingDepth =
     (if remainingDepth \<le> 0 then Ok (StructValue typ [] True)
      else bindO (parseFields pv (fieldsOf typ) v (remainingDepth - 1) []) (\<lambda>fields.
        Ok (StructValue typ fields False)))"

fun sliceElems :: "parser \<Rightarrow> dtype \<Rightarrow> u64 \<Rightarrow> val option \<Rightarrow> int \<Rightarrow> nat list \<Rightarrow> val option list outcome" where
  "sliceElems pv ptrType addr first remainingDepth [] = Ok []"
| "sliceElems pv ptrType addr first remainingDepth (i # is) =
     bindO (pointedBy first) (\<lambda>firstVal.
     bindO (pv ptrType (PutUint64 (addr + of_int (valueSize firstVal) * of_nat i)) remainingDepth) (\<lambda>elem.
     bindO (asPtr elem) (\<lambda>(_, _, pointed).
     bindO (sliceElems pv ptrType addr first remainingDepth is) (\<lambda>rest. Ok (pointed # rest)))))"

definition parseSliceValue :: "parser \<Rightarrow> dtype \<Rightarrow> u8 list \<Rightarrow> int \<Rightarrow> val outcome" where
  "parseSliceValue pv typ v remainingDepth =
     bindO (parseStructValue pv typ v (remainingDepth + 1)) (\<lambda>structVal.
     bindO (bindO (fieldOf ''len'' structVal) asInt64) (\<lambda>len.
       if len = 0 then Ok (SliceValue typ [])
       else bindO (bindO (fieldOf ''array'' structVal) asPtr) (\<lambda>(ptrType, addr, firstElem).
            bindO (sliceElems pv ptrType addr firstElem remainingDepth [1..<nat len]) (\<lambda>rest.
              Ok (SliceValue typ (firstElem # rest))))))"

text \<open>The common end of the two interface kinds: the dynamic type, and the data word.\<close>

definition parseImpl ::
    "valueParser \<Rightarrow> parser \<Rightarrow> (u64 \<Rightarrow> dtype outcome) \<Rightarrow> dtype \<Rightarrow> u64 \<Rightarrow> val \<Rightarrow> int \<Rightarrow> val outcome" where
  "parseImpl b pv f typ runtimeTypeAddr structVal remainingDepth = (case f runtimeTypeAddr of
       Fail e \<Rightarrow> Ok (InterfaceValue typ None False)
     | Panic \<Rightarrow> Panic
     | OutOfFuel \<Rightarrow> OutOfFuel
     | Ok implType \<Rightarrow>
         bindO (bindO (fieldOf ''data'' structVal) asPtr) (\<lambda>(_, dataAddr, _). case implType of
             PtrType n target \<Rightarrow>
               bindO (pv implType (PutUint64 dataAddr) remainingDepth) (\<lambda>u.
                 Ok (InterfaceValue typ (Some (implType, u)) False))
           | _ \<Rightarrow>
               bindO (bufferSize implType) (\<lambda>n.
               readOr b dataAddr n (InterfaceValue typ None False) (\<lambda>dataBuff.
                 bindO (pv implType dataBuff remainingDepth) (\<lambda>u.
                   Ok (InterfaceValue typ (Some (implType, u)) False))))))"

definition parseInterfaceValue :: "valueParser \<Rightarrow> parser \<Rightarrow> dtype \<Rightarrow> u8 list \<Rightarrow> int \<Rightarrow> val outcome" where
  "parseInterfaceValue b pv typ v remainingDepth =
     bindO (parseStructValue pv typ v 2) (\<lambda>structVal.
     bindO (bindO (fieldOf ''tab'' structVal) asPtr) (\<lambda>(_, _, pointedTab). case pointedTab of
         None \<Rightarrow> Ok (InterfaceValue typ None False)
       | Some tab \<Rightarrow> (case mapRuntimeType b of
             None \<Rightarrow> Ok (InterfaceValue typ None True)
           | Some f \<Rightarrow>
               bindO (bindO (fieldOf ''_type'' tab) asPtr) (\<lambda>(_, runtimeTypeAddr, _).
                 parseImpl b pv f typ runtimeTypeAddr structVal remainingDepth))))"

definition parseEmptyInterfaceValue :: "valueParser \<Rightarrow> parser \<Rightarrow> dtype \<Rightarrow> u8 list \<Rightarrow> int \<Rightarrow> val outcome" where
  "parseEmptyInterfaceValue b pv typ v remainingDepth =
     bindO (parseStructValue pv typ v 1) (\<lambda>structVal.
     bindO (bindO (fieldOf ''data'' structVal) asPtr) (\<lambda>(_, dataAddr, _).
       if dataAddr = 0 then Ok (InterfaceValue typ None False)
       else case mapRuntimeType b of
           None \<Rightarrow> Ok (InterfaceValue typ None True)
         | Some f \<Rightarrow>
             bindO (bindO (fieldOf ''_type'' structVal) asPtr) (\<lambda>(_, runtimeTypeAddr, _).
               parseImpl b pv f typ runtimeTypeAddr structVal remainingDepth)))"

subsection \<open>Maps\<close>

fun bucketItems :: "val list \<Rightarrow> val list \<Rightarrow> val list \<Rightarrow> nat \<Rightarrow> (val \<times> val) list \<Rightarrow> (val \<times> val) list outcome" where
  "bucketItems [] ks vs j acc = Ok acc"
| "bucketItems (hash # hs) ks vs j acc =
     bindO (asUint8 hash) (\<lambda>h.
       if h = 0 then bucketItems hs ks vs (Suc j) acc
       else if j < length ks \<and> j < length vs
            then bindO (mapPut (ks ! j) (vs ! j) acc) (bucketItems hs ks vs (Suc j))
            else Panic)"

fun parseBucket :: "nat \<Rightarrow> parser \<Rightarrow> dtype \<Rightarrow> u64 \<Rightarrow> val option \<Rightarrow> int \<Rightarrow> (val \<times> val) list outcome" where
  "parseBucket 0 pv ptrType addr pointed remainingDepth = OutOfFuel"
| "parseBucket (Suc fuel) pv ptrType addr pointed remainingDepth =
     (if addr = 0 then Ok []
      else bindO (pointedBy pointed) (\<lambda>buckets.
           bindO (bindO (fieldOf ''tophash'' buckets) asArray) (\<lambda>tophash.
           bindO (bindO (fieldOf ''keys'' buckets) asArray) (\<lambda>keys.
           bindO (bindO (fieldOf ''values'' buckets) asArray) (\<lambda>values.
           bindO (bucketItems tophash keys values 0 []) (\<lambda>mapValues.
           bindO (bindO (fieldOf ''overflow'' buckets) asPtr) (\<lambda>(_, overflowAddr, _).
             if overflowAddr = 0 then Ok mapValues
             else bindO (bindO (pv ptrType (PutUint64 overflowAddr) (remainingDepth + 1)) asPtr)
                    (\<lambda>(ptrType', addr', pointed').
                  bindO (parseBucket fuel pv ptrType' addr' pointed' remainingDepth) (\<lambda>overflowed.
                    mapPutAll overflowed mapValues)))))))))"

text \<open>The loop over the buckets stops when \<open>i + 1\<close> is the number of buckets.\<close>

fun bucketLoop :: "nat \<Rightarrow> parser \<Rightarrow> int \<Rightarrow> int \<Rightarrow> dtype \<Rightarrow> u64 \<Rightarrow> val option \<Rightarrow> int \<Rightarrow> (val \<times> val) list
     \<Rightarrow> (val \<times> val) list outcome" where
  "bucketLoop 0 pv numBuckets i ptrType addr pointed remainingDepth acc = OutOfFuel"
| "bucketLoop (Suc fuel) pv numBuckets i ptrType addr pointed remainingDepth acc =
     bindO (parseBucket fuel pv ptrType addr pointed remainingDepth) (\<lambda>items.
     bindO (mapPutAll items acc) (\<lambda>acc'.
       if i + 1 = numBuckets then Ok acc'
       else bindO (pointedBy pointed) (\<lambda>buckets. case buckets of
           StructValue t fs abbr \<Rightarrow>
             bindO (bindO (pv ptrType (PutUint64 (addr + of_int (typeSize t))) (remainingDepth + 1)) asPtr)
               (\<lambda>(ptrType', addr', pointed').
                 bucketLoop fuel pv numBuckets (i + 1) ptrType' addr' pointed' remainingDepth acc')
         | _ \<Rightarrow> Panic)))"

definition parseMapValue :: "nat \<Rightarrow> parser \<Rightarrow> dtype \<Rightarrow> dtype \<Rightarrow> u8 list \<Rightarrow> int \<Rightarrow> val outcome" where
  "parseMapValue fuel pv typ inner v remainingDepth =
     bindO (bindO (pv inner v (remainingDepth + 2)) asPtr) (\<lambda>(_, _, pointedMap). case pointedMap of
         None \<Rightarrow> Ok (MapValue typ [])
       | Some hmapVal \<Rightarrow>
           bindO (bindO (fieldOf ''B'' hmapVal) asUint8) (\<lambda>B.
           bindO (bindO (fieldOf ''buckets'' hmapVal) asPtr) (\<lambda>(ptrType, addr, pointed).
           bindO (bindO (fieldOf ''oldbuckets'' hmapVal) asPtr) (\<lambda>_.
           bindO (bucketLoop fuel pv (sint (push_bit (unat B) 1 :: u64)) 0 ptrType addr pointed remainingDepth [])
             (\<lambda>items. Ok (MapValue typ items))))))"

subsection \<open>One step, and the parser\<close>

definition firstByte :: "u8 list \<Rightarrow> u8 outcome" where
  "firstByte v = (case v of [] \<Rightarrow> Panic | b # _ \<Rightarrow> Ok b)"

definition parsePtr :: "valueParser \<Rightarrow> parser \<Rightarrow> dtype \<Rightarrow> typeRef \<Rightarrow> u8 list \<Rightarrow> int \<Rightarrow> val outcome" where
  "parsePtr b pv typ target v remainingDepth =
     bindO (Uint64 v) (\<lambda>addr.
       if addr = 0 then Ok (PtrValue typ 0 None)
       else case target of
           VoidRef \<Rightarrow> Ok (PtrValue typ addr None)
         | NilRef \<Rightarrow> Panic
         | Ref n \<Rightarrow>
             bindO (bufferSize (vpTypeAt b n)) (\<lambda>size.
             readOr b addr size (PtrValue typ addr None) (\<lambda>buff.
               bindO (pv (vpTypeAt b n) buff remainingDepth) (\<lambda>pointedVal.
                 Ok (PtrValue typ addr (Some pointedVal))))))"

fun parseElems :: "parser \<Rightarrow> dtype \<Rightarrow> u8 list \<Rightarrow> int \<Rightarrow> nat list \<Rightarrow> val list outcome" where
  "parseElems pv elem v remainingDepth [] = Ok []"
| "parseElems pv elem v remainingDepth (i # is) =
     bindO (subslice v (int i * typeSize elem) ((int i + 1) * typeSize elem)) (\<lambda>raw.
     bindO (pv elem raw remainingDepth) (\<lambda>u.
     bindO (parseElems pv elem v remainingDepth is) (\<lambda>us. Ok (u # us))))"

definition parseStep :: "nat \<Rightarrow> valueParser \<Rightarrow> parser \<Rightarrow> parser" where
  "parseStep fuel b pv rawTyp v remainingDepth =
     (let void = Ok (Scalar rawTyp (VoidValue v)); scalar = (\<lambda>s. Ok (Scalar rawTyp s)) in
      case rawTyp of
        IntType n \<Rightarrow>
          (if n = 1 then bindO (firstByte v) (\<lambda>w. scalar (Int8Value w))
           else if n = 2 then bindO (Uint16 v) (\<lambda>w. scalar (Int16Value w))
           else if n = 4 then bindO (Uint32 v) (\<lambda>w. scalar (Int32Value w))
           else if n = 8 then bindO (Uint64 v) (\<lambda>w. scalar (Int64Value w))
           else void)
      | UintType n \<Rightarrow>
          (if n = 1 then bindO (firstByte v) (\<lambda>w. scalar (Uint8Value w))
           else if n = 2 then bindO (Uint16 v) (\<lambda>w. scalar (Uint16Value w))
           else if n = 4 then bindO (Uint32 v) (\<lambda>w. scalar (Uint32Value w))
           else if n = 8 then bindO (Uint64 v) (\<lambda>w. scalar (Uint64Value w))
           else void)
      | FloatType n \<Rightarrow>
          (if n = 4 then bindO (Uint32 v) (\<lambda>w. scalar (Float32Value w))
           else if n = 8 then bindO (Uint64 v) (\<lambda>w. scalar (Float64Value w))
           else void)
      | ComplexType n \<Rightarrow>
          (if n = 8 then
             bindO (bindO (subslice v 0 4) Uint32) (\<lambda>re. bindO (bindO (subslice v 4 8) Uint32) (\<lambda>im.
               scalar (Complex64Value re im)))
           else if n = 16 then
             bindO (bindO (subslice v 0 8) Uint64) (\<lambda>re. bindO (bindO (subslice v 8 16) Uint64) (\<lambda>im.
               scalar (Complex128Value re im)))
           else void)
      | BoolType n \<Rightarrow> bindO (firstByte v) (\<lambda>w. scalar (BoolValue (w = 1)))
      | PtrType n target \<Rightarrow> parsePtr b pv rawTyp target v remainingDepth
      | FuncType n \<Rightarrow> bindO (Uint64 v) (\<lambda>addr. scalar (FuncValue addr))
      | StructType name n fs \<Rightarrow>
          (if name = ''string'' then parseStringValue b rawTyp v
           else if HasPrefix name ''[]'' then parseSliceValue pv rawTyp v remainingDepth
           else if name = ''runtime.iface'' then parseInterfaceValue b pv rawTyp v remainingDepth
           else if name = ''runtime.eface'' then parseEmptyInterfaceValue b pv rawTyp v remainingDepth
           else parseStructValue pv rawTyp v remainingDepth)
      | ArrayType cnt elem \<Rightarrow>
          (if cnt = -1 then void
           else bindO (parseElems pv elem v remainingDepth [0..<nat cnt]) (\<lambda>vs. Ok (ArrayValue rawTyp vs)))
      | TypedefType name t \<Rightarrow>
          (if HasPrefix name ''map['' then parseMapValue fuel pv rawTyp t v remainingDepth
           else pv t v remainingDepth)
      | _ \<Rightarrow> void)"

fun parseValue :: "nat \<Rightarrow> valueParser \<Rightarrow> parser" where
  "parseValue 0 b = (\<lambda>rawTyp v remainingDepth. OutOfFuel)"
| "parseValue (Suc fuel) b = parseStep fuel b (parseValue fuel b)"

section \<open>Properties\<close>

lemma Uint16_le_bytes: "Uint16 (le_bytes 2 (unat w)) = Ok w"
proof -
  have "unat w < 256 ^ 2" using unsigned_less [of w] by simp
  then show ?thesis by (simp add: Uint16_def le_nat_le_bytes)
qed

lemma Uint32_le_bytes: "Uint32 (le_bytes 4 (unat w)) = Ok w"
proof -
  have "unat w < 256 ^ 4" using unsigned_less [of w] by simp
  then show ?thesis by (simp add: Uint32_def le_nat_le_bytes)
qed

text \<open>
  an integer in the tracee's memory is printed as the number it is, at each of its widths:
  a signed one by its two's complement value and an unsigned one by its magnitude.
\<close>

theorem integers_print_their_value:
  "bindO (parseValue (Suc f) b (IntType 1) [w8] d) (valString fe) = Ok (dec_int (sint w8)) \<and>
   bindO (parseValue (Suc f) b (IntType 2) (le_bytes 2 (unat (w16 :: u16))) d) (valString fe) = Ok (dec_int (sint w16)) \<and>
   bindO (parseValue (Suc f) b (IntType 4) (le_bytes 4 (unat (w32 :: u32))) d) (valString fe) = Ok (dec_int (sint w32)) \<and>
   bindO (parseValue (Suc f) b (IntType 8) (PutUint64 w64) d) (valString fe) = Ok (dec_int (sint w64)) \<and>
   bindO (parseValue (Suc f) b (UintType 1) [w8] d) (valString fe) = Ok (dec_nat (unat w8)) \<and>
   bindO (parseValue (Suc f) b (UintType 2) (le_bytes 2 (unat w16)) d) (valString fe) = Ok (dec_nat (unat w16)) \<and>
   bindO (parseValue (Suc f) b (UintType 4) (le_bytes 4 (unat w32)) d) (valString fe) = Ok (dec_nat (unat w32)) \<and>
   bindO (parseValue (Suc f) b (UintType 8) (PutUint64 w64) d) (valString fe) = Ok (dec_nat (unat w64))"
  by (simp add: parseStep_def firstByte_def Uint16_le_bytes Uint32_le_bytes Let_def)

text \<open>The type of a slice of ints: the header has the pointer to the array and the length.\<close>

definition intSliceType :: "nat \<Rightarrow> dtype" where
  "intSliceType n = StructType ''[]int'' 24
     [(''array'', 0, PtrType 8 (Ref n)), (''len'', 8, IntType 8), (''cap'', 16, IntType 8)]"

definition sliceHeader :: "u64 \<Rightarrow> u64 \<Rightarrow> u64 \<Rightarrow> u8 list" where
  "sliceHeader a len cap = PutUint64 a @ PutUint64 len @ PutUint64 cap"

lemma parse_int8: "parseValue (Suc f) b (IntType 8) bs d = bindO (Uint64 bs) (\<lambda>w. Ok (Scalar (IntType 8) (Int64Value w)))"
  by (simp add: parseStep_def Let_def)

lemma parse_int_pointer:
  assumes "vpTypeAt b n = IntType 8"
  shows "parseValue (Suc (Suc f)) b (PtrType 8 (Ref n)) (PutUint64 a) d =
    (if a = 0 then Ok (PtrValue (PtrType 8 (Ref n)) 0 None)
     else readOr b a 8 (PtrValue (PtrType 8 (Ref n)) a None) (\<lambda>buff.
       bindO (Uint64 buff) (\<lambda>w. Ok (PtrValue (PtrType 8 (Ref n)) a (Some (Scalar (IntType 8) (Int64Value w)))))))"
proof -
  have "bindO (bindO r (\<lambda>w. Ok (g w))) (\<lambda>v. Ok (h v)) = bindO r (\<lambda>w. Ok (h (g w)))" for r :: "u64 outcome" and g :: "u64 \<Rightarrow> val" and h :: "val \<Rightarrow> val"
    by (cases r) auto
  then show ?thesis
    unfolding parseValue.simps(2) [of "Suc f"] parseStep_def [of "Suc f"] parsePtr_def Let_def
    by (simp add: assms bufferSize_def parse_int8 del: parseValue.simps)
qed

lemma sliceHeader_fields:
  "sliceField (sliceHeader a len cap) (''array'', 0, PtrType 8 (Ref n)) = Ok (PutUint64 a)"
  "sliceField (sliceHeader a len cap) (''len'', 8, IntType 8) = Ok (PutUint64 len)"
  "sliceField (sliceHeader a len cap) (''cap'', 16, IntType 8) = Ok (PutUint64 cap)"
  by (simp_all add: sliceField_def fieldEnd_def sliceHeader_def)

lemma parse_slice_header:
  assumes "vpTypeAt b n = IntType 8" and "0 \<le> d"
    and "parseValue (Suc (Suc f)) b (PtrType 8 (Ref n)) (PutUint64 a) d = Ok ptr"
  shows "parseStructValue (parseValue (Suc (Suc f)) b) (intSliceType n) (sliceHeader a len cap) (d + 1)
     = Ok (StructValue (intSliceType n)
         [(''array'', ptr), (''len'', Scalar (IntType 8) (Int64Value len)),
          (''cap'', Scalar (IntType 8) (Int64Value cap))] False)"
  using assms
  by (simp add: parseStructValue_def intSliceType_def sliceHeader_fields parse_int8 del: parseValue.simps)

text \<open>
  a slice of ints is read as the array behind its header: when the array can be read, its
  elements are the words at consecutive addresses, in order and as many as the header says.
\<close>

theorem int_slice_reads_its_array:
  assumes b: "vpTypeAt b n = IntType 8" "reader b = memReader mem" and d: "0 \<le> d"
    and len: "sint len = int (Suc k)"
    and a: "\<forall>i\<in>{..k}. a + of_nat i * 8 \<noteq> 0"
  shows "parseValue (Suc (Suc (Suc f))) b (intSliceType n) (sliceHeader a len cap) d
     = Ok (SliceValue (intSliceType n)
         (map (\<lambda>i. Some (Scalar (IntType 8) (Int64Value (word64At mem (a + of_nat i * 8))))) [0..<Suc k]))"
proof -
  let ?pv = "parseValue (Suc (Suc f)) b"
  let ?elem = "\<lambda>i. Scalar (IntType 8) (Int64Value (word64At mem (a + of_nat i * 8)))"
  let ?pt = "PtrType 8 (Ref n)"
  have ptr: "?pv ?pt (PutUint64 (a + of_nat i * 8)) d = Ok (PtrValue ?pt (a + of_nat i * 8) (Some (?elem i)))"
    if "i \<le> k" for i
    using a that by (simp add: parse_int_pointer [OF b(1)] readOr_def b(2) memReader_Ok del: parseValue.simps)
  have first: "?pv ?pt (PutUint64 a) d = Ok (PtrValue ?pt a (Some (?elem 0)))"
    using ptr [of 0] by simp
  have rest: "sliceElems ?pv ?pt a (Some (?elem 0)) d is = Ok (map (\<lambda>i. Some (?elem i)) is)"
    if "\<forall>i\<in>set is. i \<le> k" for "is"
    using that
  proof (induction "is")
    case Nil
    then show ?case by simp
  next
    case (Cons i "is")
    have "of_int (valueSize (?elem 0)) * of_nat i = (of_nat i * 8 :: u64)"
      by (simp add: valueSize_def mult.commute)
    then show ?case
      using Cons ptr [of i] by (simp add: pointedBy_def del: parseValue.simps)
  qed
  have "sliceElems ?pv ?pt a (Some (?elem 0)) d [1..<nat (int (Suc k))] = Ok (map (\<lambda>i. Some (?elem i)) [1..<Suc k])"
    unfolding nat_int by (rule rest) auto
  then have "parseSliceValue ?pv (intSliceType n) (sliceHeader a len cap) d
      = Ok (SliceValue (intSliceType n) (Some (?elem 0) # map (\<lambda>i. Some (?elem i)) [1..<Suc k]))"
    using len unfolding parseSliceValue_def parse_slice_header [OF b(1) d first]
    by (simp add: fieldOf_def del: parseValue.simps upt_Suc of_nat_Suc)
  moreover have "[0..<Suc k] = 0 # [1..<Suc k]" by (simp add: upt_conv_Cons del: upt_Suc)
  moreover have "parseStep (Suc (Suc f)) b ?pv (intSliceType n) (sliceHeader a len cap) d
      = parseSliceValue ?pv (intSliceType n) (sliceHeader a len cap) d"
    by (simp add: parseStep_def intSliceType_def HasPrefix_def Let_def)
  ultimately show ?thesis
    unfolding parseValue.simps(2) [of "Suc (Suc f)"] by (simp del: upt_Suc parseValue.simps)
qed

theorem int_slice_reads_its_array_witness:
  "parseValue 3 \<lparr>reader = memReader exampleImage, vpTypeAt = (\<lambda>_. IntType 8), mapRuntimeType = None\<rparr>
     (intSliceType 7) (sliceHeader 0x2000 2 2) 1
   = Ok (SliceValue (intSliceType 7)
       [Some (Scalar (IntType 8) (Int64Value 16)), Some (Scalar (IntType 8) (Int64Value 1))])"
proof -
  have words: "word64At exampleImage 0x2000 = 16" "word64At exampleImage 0x2008 = 1"
    by (simp_all add: word64At_def bytesAt_def upt_bytes exampleImage_def)
  show ?thesis
    using int_slice_reads_its_array
      [of "\<lparr>reader = memReader exampleImage, vpTypeAt = (\<lambda>_. IntType 8), mapRuntimeType = None\<rparr>" 7
        exampleImage 1 2 1 "0x2000" 0 2] words
    by (simp add: numeral_3_eq_3 atMost_Suc del: parseValue.simps)
qed

lemma parse_int_slice:
  "parseValue (Suc (Suc (Suc f))) b (intSliceType n) bs d = parseSliceValue (parseValue (Suc (Suc f)) b) (intSliceType n) bs d"
  unfolding parseValue.simps(2) [of "Suc (Suc f)"]
  by (simp add: parseStep_def intSliceType_def HasPrefix_def Let_def del: parseValue.simps)

text \<open>
  C39: values that are not initialized yet, or not any more, can stop the tracer itself. A string
  whose length word is negative makes the allocation of its buffer panic. Where a failed read is
  otherwise answered with a value without the data, a slice whose array cannot be read is
  parsed with a missing first element: with more elements the parser panics on it, and
  with one the value is parsed and panics as it is printed.
\<close>

theorem garbage_headers_panic:
  assumes "vpTypeAt b n = IntType 8" and "0 \<le> d"
    and "sint len < 0" and "1 < sint many" and "sint one = 1" and "a \<noteq> 0" and "reader b a 8 = Fail e"
  shows "parseValue (Suc f) b (StructType ''string'' 16 fs) (PutUint64 a @ PutUint64 len) d = Panic
    \<and> parseValue (Suc (Suc (Suc f))) b (intSliceType n) (sliceHeader a many cap) d = Panic
    \<and> parseValue (Suc (Suc (Suc f))) b (intSliceType n) (sliceHeader a one cap) d = Ok (SliceValue (intSliceType n) [None])
    \<and> valString fe (SliceValue (intSliceType n) [None]) = Panic"
proof -
  have string: "parseValue (Suc f) b (StructType ''string'' 16 fs) (PutUint64 a @ PutUint64 len) d = Panic"
    using assms(3) by (simp add: parseStep_def parseStringValue_def subslice_def makeSize_def Let_def)
  have first: "parseValue (Suc (Suc f)) b (PtrType 8 (Ref n)) (PutUint64 a) d = Ok (PtrValue (PtrType 8 (Ref n)) a None)"
    using assms(6,7) by (simp add: parse_int_pointer [OF assms(1)] readOr_def del: parseValue.simps)
  have upt: "[Suc 0..<nat (sint many)] = Suc 0 # [2..<nat (sint many)]"
    using assms(4) by (simp add: upt_conv_Cons numeral_2_eq_2)
  have "parseValue (Suc (Suc (Suc f))) b (intSliceType n) (sliceHeader a many cap) d = Panic"
    using assms(4) unfolding parse_int_slice parseSliceValue_def parse_slice_header [OF assms(1,2) first]
    by (simp add: fieldOf_def upt pointedBy_def del: parseValue.simps)
  moreover have "parseValue (Suc (Suc (Suc f))) b (intSliceType n) (sliceHeader a one cap) d
      = Ok (SliceValue (intSliceType n) [None])"
    using assms(5) unfolding parse_int_slice parseSliceValue_def parse_slice_header [OF assms(1,2) first]
    by (auto simp: fieldOf_def simp del: parseValue.simps)
  moreover have "valString fe (SliceValue (intSliceType n) [None]) = Panic"
    by (simp add: maxContainerItemsToPrint_def)
  ultimately show ?thesis using string by simp
qed

theorem garbage_headers_panic_witness:
  "parseValue 3 \<lparr>reader = (\<lambda>a n. Fail (ErrMsg ''EIO'')), vpTypeAt = (\<lambda>_. IntType 8), mapRuntimeType = None\<rparr>
     (intSliceType 7) (sliceHeader 16 2 2) 1 = Panic"
  using garbage_headers_panic
    [of "\<lparr>reader = (\<lambda>a n. Fail (ErrMsg ''EIO'')), vpTypeAt = (\<lambda>_. IntType 8), mapRuntimeType = None\<rparr>" 7 1
      "-1" 2 1 16 "ErrMsg ''EIO''" 0 "[]" 2]
  by (simp add: numeral_3_eq_3 del: parseValue.simps)

text \<open>
  C40: the depth limit does not bound the parser. It counts structs only, so a pointer variable
  of a type declared as a pointer to itself that points to itself is followed for ever.
\<close>

theorem self_pointer_is_followed_for_ever:
  assumes "vpTypeAt b n = PtrType 8 (Ref n)" and "a \<noteq> 0" and "reader b a 8 = Ok (PutUint64 a)"
  shows "parseValue fuel b (PtrType 8 (Ref n)) (PutUint64 a) depth = OutOfFuel"
proof (induction fuel)
  case 0
  then show ?case by simp
next
  case (Suc fuel)
  then show ?case
    using assms by (simp add: parseStep_def parsePtr_def bufferSize_def readOr_def Let_def)
qed

theorem self_pointer_is_followed_for_ever_witness:
  "parseValue 50 \<lparr>reader = (\<lambda>a n. Ok (PutUint64 64)), vpTypeAt = (\<lambda>_. PtrType 8 (Ref 3)), mapRuntimeType = None\<rparr>
     (PtrType 8 (Ref 3)) (PutUint64 64) 1 = OutOfFuel"
  by (rule self_pointer_is_followed_for_ever) simp_all

text \<open>
  A map of the tracee whose keys are structs stops the tracer. The parsed entries are kept
  in a Go map keyed by the parsed values, and a parsed struct holds a map of its fields, so it
  cannot be a key: the first occupied slot of a bucket panics.
\<close>

theorem struct_keys_panic:
  assumes "h \<noteq> 0" and "ks \<noteq> []" and "vs \<noteq> []" and "hd ks = StructValue kt fvs abbr"
    and "map_of bucket ''tophash'' = Some (ArrayValue t0 (Scalar ht (Uint8Value h) # hs))"
    and "map_of bucket ''keys'' = Some (ArrayValue t1 ks)"
    and "map_of bucket ''values'' = Some (ArrayValue t2 vs)" and "addr \<noteq> 0"
  shows "parseBucket (Suc fuel) pv ptrType addr (Some (StructValue bt bucket False)) depth = Panic"
  using assms by (cases ks; cases vs) (simp_all add: pointedBy_def fieldOf_def mapPut_def)

theorem struct_keys_panic_witness:
  "parseBucket 1 (\<lambda>_ _ _. Panic) (PtrType 8 (Ref 0)) 64 (Some (StructValue VoidType
     [(''tophash'', ArrayValue VoidType [Scalar (UintType 1) (Uint8Value 5)]),
      (''keys'', ArrayValue VoidType [StructValue VoidType [] False]),
      (''values'', ArrayValue VoidType [Scalar (IntType 1) (Int8Value 1)])] False)) 1 = Panic"
  using struct_keys_panic
    [of 5 "[StructValue VoidType [] False]" "[Scalar (IntType 1) (Int8Value 1)]" VoidType "[]" False
      "[(''tophash'', ArrayValue VoidType [Scalar (UintType 1) (Uint8Value 5)]),
      (''keys'', ArrayValue VoidType [StructValue VoidType [] False]),
      (''values'', ArrayValue VoidType [Scalar (IntType 1) (Int8Value 1)])]"
      VoidType "UintType 1" "[]" VoidType VoidType 64 0 "\<lambda>_ _ _. Panic" "PtrType 8 (Ref 0)" VoidType 1]
  by simp

end
