(* ===== verification/DebugApi.thy ===== *)
theory DebugApi
  imports Prelude
begin

text \<open>
  debugapi/client.go: the interface through which the tracer controls the tracee, its events
  and registers. The interface is a record of operations over the client's own state \<open>'c\<close>:
  debugapi/client_linux.go and debugapi/client_darwin.go implement it on the operating system.
  ReadMemory and ReadRegisters only observe: they fill a buffer of the caller with what a
  stopped thread shows.
\<close>

datatype EventType = EventTypeTrapped | EventTypeCoreDump | EventTypeExited | EventTypeTerminated

text \<open>
  An event with its data: the trapped threads, the exit status or the signal number, as the
  table in the type's comment says.
\<close>

datatype Event =
    Trapped "int list"
  | CoreDump
  | Exited int
  | Terminated int

fun eventType :: "Event \<Rightarrow> EventType" where
  "eventType (Trapped _) = EventTypeTrapped"
| "eventType CoreDump = EventTypeCoreDump"
| "eventType (Exited _) = EventTypeExited"
| "eventType (Terminated _) = EventTypeTerminated"

definition IsExitEvent :: "EventType \<Rightarrow> bool" where
  "IsExitEvent event =
     (event = EventTypeCoreDump \<or> event = EventTypeExited \<or> event = EventTypeTerminated)"

record Registers =
  Rip :: u64
  Rsp :: u64
  Rcx :: u64

record 'c client =
  DetachProcess :: "('c, unit) prog"
  ReadMemory :: "u64 \<Rightarrow> nat \<Rightarrow> 'c \<Rightarrow> u8 list outcome"
  WriteMemory :: "u64 \<Rightarrow> u8 list \<Rightarrow> ('c, unit) prog"
  ReadRegisters :: "int \<Rightarrow> 'c \<Rightarrow> Registers outcome"
  WriteRegisters :: "int \<Rightarrow> Registers \<Rightarrow> ('c, unit) prog"
  ReadTLS :: "int \<Rightarrow> 32 word \<Rightarrow> ('c, u64) prog"
  ContinueAndWait :: "('c, Event) prog"
  StepAndWait :: "int \<Rightarrow> ('c, Event) prog"

lemma IsExitEvent_iff: "IsExitEvent (eventType e) \<longleftrightarrow> (\<forall>ids. e \<noteq> Trapped ids)"
  by (cases e) (simp_all add: IsExitEvent_def)

section \<open>The program text of the tracee\<close>

text \<open>
  What the tracer relies on of a client: a read fills the buffer it is given; and, for the
  addresses of the program text, it shows the bytes there and a successful write of one byte puts it there and nowhere else; a failed
  one-byte write changes nothing; registers are not memory; and running or stepping the tracee,
  or detaching from it, does not write the program's own text, which the operating system maps
  read-only for it. Memory outside the text may change at any time.
\<close>

locale tracee_text =
  fixes cl :: "'c client" and memory :: "'c \<Rightarrow> u64 \<Rightarrow> u8" and code :: "u64 set"
  assumes read_length: "ReadMemory cl a n c = Ok bs \<Longrightarrow> length bs = n"
    and read_text:
      "ReadMemory cl a n c = Ok bs \<Longrightarrow> (\<forall>i < n. a + of_nat i \<in> code) \<Longrightarrow> bs = bytesAt (memory c) a n"
    and write_text:
      "WriteMemory cl a [b] c = (Ok (), c') \<Longrightarrow> x \<in> code \<Longrightarrow>
         memory c' x = (if x = a then b else memory c x)"
    and write_fail:
      "WriteMemory cl a [b] c = (r, c') \<Longrightarrow> r \<noteq> Ok () \<Longrightarrow> x \<in> code \<Longrightarrow> memory c' x = memory c x"
    and regs_text: "x \<in> code \<Longrightarrow> memory (snd (WriteRegisters cl t regs c)) x = memory c x"
    and tls_text: "x \<in> code \<Longrightarrow> memory (snd (ReadTLS cl t off c)) x = memory c x"
    and step_text: "x \<in> code \<Longrightarrow> memory (snd (StepAndWait cl t c)) x = memory c x"
    and continue_text: "x \<in> code \<Longrightarrow> memory (snd (ContinueAndWait cl c)) x = memory c x"
    and detach_text: "x \<in> code \<Longrightarrow> memory (snd (DetachProcess cl c)) x = memory c x"
begin

lemma read_byte: "ReadMemory cl a 1 c = Ok bs \<Longrightarrow> \<exists>b. bs = [b]"
  using read_length [of a 1 c bs] by (cases bs) auto

lemma read_one: "ReadMemory cl a 1 c = Ok bs \<Longrightarrow> a \<in> code \<Longrightarrow> bs = [memory c a]"
  using read_text [of a 1 c bs] by (simp add: bytesAt_def)

end

end
