(* ===== verification/LinuxClient.thy ===== *)
theory LinuxClient
  imports DebugApi GoStrings
begin

text \<open>
  debugapi/client_linux.go: the client on ptrace. The system calls of the kernel are the record
  \<open>'k ptrace\<close> over the kernel's state \<open>'k\<close>; the raw client's own state are the ids it keeps. The
  proxy that sends every request to one locked go routine and waits for its end is modelled in
  LinuxProxy, which shows that a method of the proxy is the method of the raw client.
\<close>

section \<open>The kernel\<close>

text \<open>
  The wait statuses that wait4 reports without the option for continued children; a stop has
  its signal, and whether its trap cause is a clone.
\<close>

datatype waitStatus =
    WStopped int bool
  | WExited int
  | WCoreDump
  | WSignaled int

definition SIGTRAP :: int where "SIGTRAP = 5"
definition SIGSTOP :: int where "SIGSTOP = 19"

record ptraceRegs =
  pRip :: u64
  pRsp :: u64
  pRcx :: u64
  pFs_base :: u64

record 'k ptrace =
  PtraceAttach :: "int \<Rightarrow> ('k, unit) prog"
  PtraceSetOptions :: "int \<Rightarrow> ('k, unit) prog"
  PtraceDetach :: "int \<Rightarrow> ('k, unit) prog"
  PtracePeekData :: "int \<Rightarrow> u64 \<Rightarrow> nat \<Rightarrow> 'k \<Rightarrow> u8 list outcome"
  PtracePokeData :: "int \<Rightarrow> u64 \<Rightarrow> u8 list \<Rightarrow> ('k, nat) prog"
  PtraceGetRegs :: "int \<Rightarrow> 'k \<Rightarrow> ptraceRegs outcome"
  PtraceSetRegs :: "int \<Rightarrow> ptraceRegs \<Rightarrow> ('k, unit) prog"
  PtraceCont :: "int \<Rightarrow> int \<Rightarrow> ('k, unit) prog"
  PtraceSingleStep :: "int \<Rightarrow> ('k, unit) prog"
  PtraceGetEventMsg :: "int \<Rightarrow> 'k \<Rightarrow> int outcome"
  Wait4 :: "int \<Rightarrow> ('k, int \<times> waitStatus) prog"
  Kill :: "int \<Rightarrow> ('k, unit) prog"
  taskDir :: "int \<Rightarrow> 'k \<Rightarrow> string list outcome"

section \<open>The raw client\<close>

record 'k rawClient =
  kernel :: 'k
  tracingProcessID :: int
  tracingThreadIDs :: "int list"
  trappedThreadIDs :: "int list"
  killOnDetach :: bool

definition sys :: "('k, 'a) prog \<Rightarrow> ('k rawClient, 'a) prog" where
  "sys = zoomM kernel (\<lambda>k c. c\<lparr>kernel := k\<rparr>)"

definition ignoreErr :: "('s, unit) prog \<Rightarrow> ('s, unit) prog" where
  "ignoreErr m = catchM m (\<lambda>e. returnM ())"

definition waitAndInitialize :: "'k ptrace \<Rightarrow> int \<Rightarrow> ('k rawClient, unit) prog" where
  "waitAndInitialize os tid =
     bindM (sys (Wait4 os tid)) (\<lambda>(_, status). case status of
         WStopped sig clone \<Rightarrow>
           (if sig \<noteq> SIGTRAP \<and> sig \<noteq> SIGSTOP then failM (ErrMsg ''unexpected signal'')
            else seqM (ignoreErr (sys (PtraceSetOptions os tid)))
              (modifyM (\<lambda>c. c\<lparr>tracingThreadIDs := tracingThreadIDs c @ [tid],
                              trappedThreadIDs := trappedThreadIDs c @ [tid]\<rparr>)))
       | _ \<Rightarrow> failM (ErrMsg ''process is not stopped''))"

text \<open>exec.Cmd.Start of the launched program is the argument \<open>start\<close>: it gives the process id.\<close>

definition LaunchProcess :: "'k ptrace \<Rightarrow> ('k, int) prog \<Rightarrow> ('k rawClient, unit) prog" where
  "LaunchProcess os start =
     bindM (sys start) (\<lambda>pid.
     seqM (modifyM (\<lambda>c. c\<lparr>killOnDetach := True, tracingProcessID := pid\<rparr>))
       (waitAndInitialize os pid))"

text \<open>A name in the task directory that is no number is logged, and its value 0 is kept.\<close>

definition threadGroupMembers :: "'k ptrace \<Rightarrow> int \<Rightarrow> 'k rawClient \<Rightarrow> int list outcome" where
  "threadGroupMembers os pid c = bindO (taskDir os pid (kernel c)) (\<lambda>names. Ok (map Atoi names))"

definition AttachProcess :: "'k ptrace \<Rightarrow> int \<Rightarrow> ('k rawClient, unit) prog" where
  "AttachProcess os pid =
     bindM (readM (threadGroupMembers os pid)) (\<lambda>members.
     seqM (forM members (\<lambda>member. sys (PtraceAttach os member)))
    (seqM (modifyM (\<lambda>c. c\<lparr>killOnDetach := False, tracingProcessID := pid\<rparr>))
       (forM members (waitAndInitialize os))))"

fun reapLoop :: "nat \<Rightarrow> 'k ptrace \<Rightarrow> ('k rawClient, unit) prog" where
  "reapLoop 0 os = outOfFuelM"
| "reapLoop (Suc fuel) os =
     bindM (getsM tracingProcessID) (\<lambda>pid.
     bindM (sys (Wait4 os (-1))) (\<lambda>(wpid, _). if wpid = pid then returnM () else reapLoop fuel os))"

definition killProcess :: "nat \<Rightarrow> 'k ptrace \<Rightarrow> ('k rawClient, unit) prog" where
  "killProcess fuel os =
     bindM (getsM tracingProcessID) (\<lambda>pid. seqM (ignoreErr (sys (Kill os pid))) (reapLoop fuel os))"

definition rawDetachProcess :: "nat \<Rightarrow> 'k ptrace \<Rightarrow> ('k rawClient, unit) prog" where
  "rawDetachProcess fuel os =
     bindM (getsM tracingThreadIDs) (\<lambda>tids.
     seqM (forM tids (\<lambda>tid. ignoreErr (sys (PtraceDetach os tid))))
    (bindM (getsM killOnDetach) (\<lambda>kill. if kill then killProcess fuel os else returnM ())))"

text \<open>Memory is read and written through the first trapped thread; a short count is an error.\<close>

definition rawReadMemory :: "'k ptrace \<Rightarrow> u64 \<Rightarrow> nat \<Rightarrow> 'k rawClient \<Rightarrow> u8 list outcome" where
  "rawReadMemory os a n c = (case trappedThreadIDs c of
       [] \<Rightarrow> Fail (ErrMsg ''failed to read memory: currently no trapped threads'')
     | tid # _ \<Rightarrow> bindO (PtracePeekData os tid a n (kernel c)) (\<lambda>bs.
         if length bs \<noteq> n then Fail (ErrMsg ''the number of data read is invalid'') else Ok bs))"

definition rawWriteMemory :: "'k ptrace \<Rightarrow> u64 \<Rightarrow> u8 list \<Rightarrow> ('k rawClient, unit) prog" where
  "rawWriteMemory os a bs =
     bindM (getsM trappedThreadIDs) (\<lambda>tids. case tids of
         [] \<Rightarrow> failM (ErrMsg ''failed to write memory: currently no trapped threads'')
       | tid # _ \<Rightarrow> bindM (sys (PtracePokeData os tid a bs)) (\<lambda>n.
           if n \<noteq> length bs then failM (ErrMsg ''the number of data written is invalid'') else returnM ()))"

definition rawReadRegisters :: "'k ptrace \<Rightarrow> int \<Rightarrow> 'k rawClient \<Rightarrow> Registers outcome" where
  "rawReadRegisters os tid c =
     bindO (PtraceGetRegs os tid (kernel c)) (\<lambda>raw. Ok \<lparr>Rip = pRip raw, Rsp = pRsp raw, Rcx = pRcx raw\<rparr>)"

definition rawWriteRegisters :: "'k ptrace \<Rightarrow> int \<Rightarrow> Registers \<Rightarrow> ('k rawClient, unit) prog" where
  "rawWriteRegisters os tid regs =
     bindM (readM (\<lambda>c. PtraceGetRegs os tid (kernel c))) (\<lambda>raw.
       sys (PtraceSetRegs os tid (raw\<lparr>pRip := Rip regs, pRsp := Rsp regs, pRcx := Rcx regs\<rparr>)))"

definition rawReadTLS :: "'k ptrace \<Rightarrow> int \<Rightarrow> 32 word \<Rightarrow> ('k rawClient, u64) prog" where
  "rawReadTLS os tid off = readM (\<lambda>c.
     bindO (PtraceGetRegs os tid (kernel c)) (\<lambda>raw.
     bindO (rawReadMemory os (pFs_base raw + of_int (sint off)) 8 c) Uint64))"

section \<open>Running\<close>

definition continueClone :: "'k ptrace \<Rightarrow> int \<Rightarrow> ('k rawClient, int) prog" where
  "continueClone os parentThreadID =
     bindM (readM (\<lambda>c. PtraceGetEventMsg os parentThreadID (kernel c))) (\<lambda>clonedThreadID.
     seqM (modifyM (\<lambda>c. c\<lparr>tracingThreadIDs := tracingThreadIDs c @ [clonedThreadID]\<rparr>))
    (seqM (bindM (sys (Wait4 os clonedThreadID)) (\<lambda>_. returnM ()))
    (seqM (sys (PtraceCont os clonedThreadID 0)) (returnM clonedThreadID))))"

text \<open>continueAndWait and handleWaitStatus call each other for every stop that is no event.\<close>

fun continueAndWait :: "nat \<Rightarrow> 'k ptrace \<Rightarrow> int \<Rightarrow> ('k rawClient, Event) prog"
  and handleWaitStatus :: "nat \<Rightarrow> 'k ptrace \<Rightarrow> waitStatus \<Rightarrow> int \<Rightarrow> ('k rawClient, Event) prog"
where
  "continueAndWait 0 os sig = outOfFuelM"
| "continueAndWait (Suc fuel) os sig =
     bindM (getsM trappedThreadIDs) (\<lambda>tids.
     seqM (forM tids (\<lambda>tid. sys (PtraceCont os tid sig)))
    (seqM (modifyM (\<lambda>c. c\<lparr>trappedThreadIDs := []\<rparr>))
    (bindM (sys (Wait4 os (-1))) (\<lambda>(waitedThreadID, status).
       handleWaitStatus fuel os status waitedThreadID))))"
| "handleWaitStatus 0 os status tid = outOfFuelM"
| "handleWaitStatus (Suc fuel) os status tid = (case status of
       WStopped sig clone \<Rightarrow>
         seqM (modifyM (\<lambda>c. c\<lparr>trappedThreadIDs := trappedThreadIDs c @ [tid]\<rparr>))
           (if sig = SIGTRAP then
              (if clone then bindM (continueClone os tid) (\<lambda>_. continueAndWait fuel os 0)
               else returnM (Trapped [tid]))
            else continueAndWait fuel os sig)
     | WExited n \<Rightarrow> returnM (Exited n)
     | WCoreDump \<Rightarrow> returnM CoreDump
     | WSignaled sig \<Rightarrow> returnM (Terminated sig))"

text \<open>
  The loop of StepAndWait ranges over the list of trapped threads while it cuts entries out of
  it: the range keeps the old length \<open>n\<close> and the array \<open>arr\<close>, into which the cut moves the
  later entries, and the list is the first \<open>len\<close> entries of the array.
\<close>

fun untrapLoop :: "int \<Rightarrow> nat list \<Rightarrow> int list \<Rightarrow> nat \<Rightarrow> int list outcome" where
  "untrapLoop tid [] arr len = Ok (take len arr)"
| "untrapLoop tid (i # is) arr len =
     (if arr ! i = tid then
        (if len < i + 1 then Panic
         else untrapLoop tid is
           (take i arr @ drop (i + 1) (take len arr) @ drop (len - 1) arr) (len - 1))
      else untrapLoop tid is arr len)"

definition untrap :: "int \<Rightarrow> int list \<Rightarrow> int list outcome" where
  "untrap tid tids = untrapLoop tid [0..<length tids] tids (length tids)"

definition rawStepAndWait :: "nat \<Rightarrow> 'k ptrace \<Rightarrow> int \<Rightarrow> ('k rawClient, Event) prog" where
  "rawStepAndWait fuel os tid =
     seqM (sys (PtraceSingleStep os tid))
    (bindM (readM (\<lambda>c. untrap tid (trappedThreadIDs c))) (\<lambda>tids.
     seqM (modifyM (\<lambda>c. c\<lparr>trappedThreadIDs := tids\<rparr>))
    (bindM (sys (Wait4 os tid)) (\<lambda>(waitedThreadID, status).
       handleWaitStatus fuel os status waitedThreadID))))"

definition linuxClient :: "nat \<Rightarrow> 'k ptrace \<Rightarrow> 'k rawClient client" where
  "linuxClient fuel os =
     \<lparr>DetachProcess = rawDetachProcess fuel os, ReadMemory = rawReadMemory os,
      WriteMemory = rawWriteMemory os, ReadRegisters = rawReadRegisters os,
      WriteRegisters = rawWriteRegisters os, ReadTLS = rawReadTLS os,
      ContinueAndWait = continueAndWait fuel os 0, StepAndWait = rawStepAndWait fuel os\<rparr>"

section \<open>The client provides the interface to the program text\<close>

text \<open>
  What ptrace documents of the text of the tracee: peeking shows the bytes and poking a byte
  sets it; no other request, and no run of the tracee, changes a byte of the text.
\<close>

definition keepsText :: "('k \<Rightarrow> u64 \<Rightarrow> u8) \<Rightarrow> u64 set \<Rightarrow> 'k \<Rightarrow> 'k \<Rightarrow> bool" where
  "keepsText memory code k k' \<longleftrightarrow> (\<forall>x\<in>code. memory k' x = memory k x)"

interpretation ktext: frame "keepsText memory code" for memory code
  by unfold_locales (auto simp: keepsText_def)

definition ptraceText :: "'k ptrace \<Rightarrow> ('k \<Rightarrow> u64 \<Rightarrow> u8) \<Rightarrow> u64 set \<Rightarrow> bool" where
  "ptraceText os memory code \<longleftrightarrow>
     (\<forall>tid a n k bs. PtracePeekData os tid a n k = Ok bs \<longrightarrow> (\<forall>i<length bs. a + of_nat i \<in> code) \<longrightarrow>
        bs = bytesAt (memory k) a (length bs)) \<and>
     (\<forall>tid a b k k' x. PtracePokeData os tid a [b] k = (Ok 1, k') \<longrightarrow> x \<in> code \<longrightarrow>
        memory k' x = (if x = a then b else memory k x)) \<and>
     (\<forall>tid a b k r k'. PtracePokeData os tid a [b] k = (r, k') \<longrightarrow> r \<noteq> Ok 1 \<longrightarrow> keepsText memory code k k') \<and>
     (\<forall>tid regs. keeps (keepsText memory code) (PtraceSetRegs os tid regs)) \<and>
     (\<forall>tid sig. keeps (keepsText memory code) (PtraceCont os tid sig)) \<and>
     (\<forall>tid. keeps (keepsText memory code) (PtraceSingleStep os tid)) \<and>
     (\<forall>tid. keeps (keepsText memory code) (Wait4 os tid)) \<and>
     (\<forall>tid. keeps (keepsText memory code) (PtraceDetach os tid)) \<and>
     (\<forall>pid. keeps (keepsText memory code) (Kill os pid))"

text \<open>The same relation on the states of the raw client.\<close>

definition clientKeepsText :: "('k \<Rightarrow> u64 \<Rightarrow> u8) \<Rightarrow> u64 set \<Rightarrow> 'k rawClient \<Rightarrow> 'k rawClient \<Rightarrow> bool" where
  "clientKeepsText memory code c c' \<longleftrightarrow> keepsText memory code (kernel c) (kernel c')"

interpretation ctext: frame "clientKeepsText memory code" for memory code
  by unfold_locales (auto simp: clientKeepsText_def intro: ktext.refl ktext.trans)

lemma sys_frame: "keeps (keepsText memory code) m \<Longrightarrow> keeps (clientKeepsText memory code) (sys m)"
  by (auto simp: keeps_def clientKeepsText_def sys_def zoomM_def split: prod.splits)
    (metis snd_conv)

lemma ids_frame:
  "keeps (clientKeepsText memory code) (modifyM (\<lambda>c. c\<lparr>trappedThreadIDs := f c\<rparr>))"
  "keeps (clientKeepsText memory code) (modifyM (\<lambda>c. c\<lparr>tracingThreadIDs := f c\<rparr>))"
  by (simp_all add: keeps_def clientKeepsText_def ktext.refl)

lemma ignoreErr_frame: "keeps (clientKeepsText memory code) m \<Longrightarrow> keeps (clientKeepsText memory code) (ignoreErr m)"
  unfolding ignoreErr_def by (intro ctext.catch_frame ctext.return_frame)

lemma continueClone_frame:
  assumes "ptraceText os memory code"
  shows "keeps (clientKeepsText memory code) (continueClone os tid)"
  unfolding continueClone_def using assms
  by (intro frame_intros ids_frame sys_frame) (auto simp: ptraceText_def)

lemma running_frame:
  assumes os: "ptraceText os memory code"
  shows "keeps (clientKeepsText memory code) (continueAndWait fuel os sig)"
    and "keeps (clientKeepsText memory code) (handleWaitStatus fuel os status tid)"
  using os
proof (induction fuel os sig and fuel os status tid rule: continueAndWait_handleWaitStatus.induct)
  case (1 os sig)
  show ?case unfolding continueAndWait.simps by (rule ctext.outOfFuel_frame)
next
  case (2 fuel os sig)
  then show ?case
    unfolding continueAndWait.simps
    by (intro frame_intros ids_frame sys_frame) (auto simp: ptraceText_def)
next
  case (3 os status tid)
  show ?case unfolding handleWaitStatus.simps by (rule ctext.outOfFuel_frame)
next
  case (4 fuel os status tid)
  then show ?case
  proof (cases status)
    case (WStopped sig clone)
    with 4 show ?thesis
      unfolding handleWaitStatus.simps WStopped waitStatus.case
      by (intro frame_intros ids_frame continueClone_frame) auto
  qed (simp_all only: handleWaitStatus.simps waitStatus.case ctext.return_frame)
qed

lemma reapLoop_frame:
  assumes "ptraceText os memory code"
  shows "keeps (clientKeepsText memory code) (reapLoop fuel os)"
proof (induction fuel)
  case 0
  show ?case unfolding reapLoop.simps by (rule ctext.outOfFuel_frame)
next
  case (Suc fuel)
  then show ?case
    unfolding reapLoop.simps using assms
    by (intro frame_intros sys_frame) (auto simp: ptraceText_def)
qed

lemma rawDetachProcess_frame:
  assumes "ptraceText os memory code"
  shows "keeps (clientKeepsText memory code) (rawDetachProcess fuel os)"
  unfolding rawDetachProcess_def killProcess_def using assms
  by (intro frame_intros sys_frame ignoreErr_frame reapLoop_frame) (auto simp: ptraceText_def)

lemma rawStepAndWait_frame:
  assumes "ptraceText os memory code"
  shows "keeps (clientKeepsText memory code) (rawStepAndWait fuel os tid)"
  unfolding rawStepAndWait_def using assms
  by (intro frame_intros sys_frame ids_frame running_frame) (auto simp: ptraceText_def)

lemma rawWriteRegisters_frame:
  assumes "ptraceText os memory code"
  shows "keeps (clientKeepsText memory code) (rawWriteRegisters os tid regs)"
  unfolding rawWriteRegisters_def using assms
  by (intro frame_intros sys_frame) (auto simp: ptraceText_def)

lemma rawWriteMemory_byte:
  assumes os: "ptraceText os memory code" and run: "rawWriteMemory os a [b] c = (r, c')" and x: "x \<in> code"
  shows "memory (kernel c') x = (if r = Ok () \<and> x = a then b else memory (kernel c) x)"
proof (cases "trappedThreadIDs c")
  case Nil
  with run show ?thesis by (auto simp: rawWriteMemory_def)
next
  case (Cons tid tids)
  obtain r' k' where poke: "PtracePokeData os tid a [b] (kernel c) = (r', k')"
    by (cases "PtracePokeData os tid a [b] (kernel c)")
  have "memory k' x = (if r' = Ok 1 \<and> x = a then b else memory (kernel c) x)"
    using os poke x unfolding ptraceText_def keepsText_def by (cases "r' = Ok 1") auto
  moreover have "kernel c' = k'" and "r = Ok () \<longleftrightarrow> r' = Ok 1"
    using run Cons poke
    by (auto simp: rawWriteMemory_def bindM_def sys_def zoomM_def getsM_def split: outcome.splits if_splits)
  ultimately show ?thesis by simp
qed

lemma linuxClient_text:
  assumes "ptraceText os memory code"
  shows "tracee_text (linuxClient fuel os) (\<lambda>c. memory (kernel c)) code"
proof
  fix a n c bs
  assume "ReadMemory (linuxClient fuel os) a n c = Ok bs"
  then show "length bs = n"
    by (auto simp: linuxClient_def rawReadMemory_def bindO_Ok split: list.splits if_splits)
next
  fix a n c bs
  assume "ReadMemory (linuxClient fuel os) a n c = Ok bs" and "\<forall>i<n. a + of_nat i \<in> code"
  then show "bs = bytesAt (memory (kernel c)) a n"
    using assms unfolding ptraceText_def
    by (fastforce simp: linuxClient_def rawReadMemory_def bindO_Ok split: list.splits if_splits)
next
  fix a b c c' x
  assume "WriteMemory (linuxClient fuel os) a [b] c = (Ok (), c')" and "x \<in> code"
  then show "memory (kernel c') x = (if x = a then b else memory (kernel c) x)"
    using rawWriteMemory_byte [OF assms, of a b c "Ok ()" c' x] by (simp add: linuxClient_def)
next
  fix a b c r c' x
  assume "WriteMemory (linuxClient fuel os) a [b] c = (r, c')" and "r \<noteq> Ok ()" and "x \<in> code"
  then show "memory (kernel c') x = memory (kernel c) x"
    using rawWriteMemory_byte [OF assms, of a b c r c' x] by (simp add: linuxClient_def)
next
  fix x t regs c assume "x \<in> code"
  then show "memory (kernel (snd (WriteRegisters (linuxClient fuel os) t regs c))) x = memory (kernel c) x"
    using rawWriteRegisters_frame [OF assms]
    by (simp add: linuxClient_def keeps_def clientKeepsText_def keepsText_def)
next
  fix x t off c assume "x \<in> code"
  then show "memory (kernel (snd (ReadTLS (linuxClient fuel os) t off c))) x = memory (kernel c) x"
    by (simp add: linuxClient_def rawReadTLS_def)
next
  fix x t c assume "x \<in> code"
  then show "memory (kernel (snd (StepAndWait (linuxClient fuel os) t c))) x = memory (kernel c) x"
    using rawStepAndWait_frame [OF assms]
    by (simp add: linuxClient_def keeps_def clientKeepsText_def keepsText_def)
next
  fix x c assume "x \<in> code"
  then show "memory (kernel (snd (ContinueAndWait (linuxClient fuel os) c))) x = memory (kernel c) x"
    using running_frame(1) [OF assms]
    by (simp add: linuxClient_def keeps_def clientKeepsText_def keepsText_def)
next
  fix x c assume "x \<in> code"
  then show "memory (kernel (snd (DetachProcess (linuxClient fuel os) c))) x = memory (kernel c) x"
    using rawDetachProcess_frame [OF assms]
    by (simp add: linuxClient_def keeps_def clientKeepsText_def keepsText_def)
qed

text \<open>
  A machine with one thread for the witnesses and the interpretation: a flat memory, registers,
  and a script of what the next waits report.
\<close>

record machine =
  simMem :: "u64 \<Rightarrow> u8"
  simRegs :: ptraceRegs
  simScript :: "waitStatus list"

fun pokeBytes :: "u64 \<Rightarrow> u8 list \<Rightarrow> (u64 \<Rightarrow> u8) \<Rightarrow> u64 \<Rightarrow> u8" where
  "pokeBytes a [] mem = mem"
| "pokeBytes a (b # bs) mem = pokeBytes (a + 1) bs (mem(a := b))"

definition simOS :: "machine ptrace" where
  "simOS =
     \<lparr>PtraceAttach = (\<lambda>tid. returnM ()), PtraceSetOptions = (\<lambda>tid. returnM ()),
      PtraceDetach = (\<lambda>tid. returnM ()),
      PtracePeekData = (\<lambda>tid a n k. Ok (bytesAt (simMem k) a n)),
      PtracePokeData = (\<lambda>tid a bs k. (Ok (length bs), k\<lparr>simMem := pokeBytes a bs (simMem k)\<rparr>)),
      PtraceGetRegs = (\<lambda>tid k. Ok (simRegs k)),
      PtraceSetRegs = (\<lambda>tid regs. modifyM (\<lambda>k. k\<lparr>simRegs := regs\<rparr>)),
      PtraceCont = (\<lambda>tid sig. returnM ()), PtraceSingleStep = (\<lambda>tid. returnM ()),
      PtraceGetEventMsg = (\<lambda>tid k. Ok 2),
      Wait4 = (\<lambda>tid k. case simScript k of
          [] \<Rightarrow> (Ok (1, WExited 0), k)
        | st # sts \<Rightarrow> (Ok (1, st), k\<lparr>simScript := sts\<rparr>)),
      Kill = (\<lambda>pid. returnM ()), taskDir = (\<lambda>pid k. Ok [''1''])\<rparr>"

lemma simOS_text: "ptraceText simOS simMem code"
  by (auto simp: ptraceText_def simOS_def keeps_def keepsText_def split: list.splits)

interpretation sim: tracee_text "linuxClient fuel simOS" "\<lambda>c. simMem (kernel c)" code for fuel code
  by (rule linuxClient_text [OF simOS_text])

section \<open>Trapped threads\<close>

lemma waiting_traps:
  "continueAndWait fuel os sig c = (Ok (Trapped ids), c') \<Longrightarrow> trappedThreadIDs c' = ids \<and> length ids = 1"
  "handleWaitStatus fuel os status tid c = (Ok (Trapped ids), c') \<Longrightarrow> trappedThreadIDs c = [] \<Longrightarrow>
     trappedThreadIDs c' = ids \<and> length ids = 1"
proof (induction fuel os sig and fuel os status tid arbitrary: c and c rule: continueAndWait_handleWaitStatus.induct)
  case (2 fuel os sig)
  then obtain c1 tid st c2 where "sys (Wait4 os (-1)) (c1\<lparr>trappedThreadIDs := []\<rparr>) = (Ok (tid, st), c2)"
    and run: "handleWaitStatus fuel os st tid c2 = (Ok (Trapped ids), c')"
    by (auto simp: bindM_Ok seqM_Ok)
  then have "trappedThreadIDs c2 = []" by (auto simp: sys_def zoomM_Ok)
  with "2.IH" run show ?case by blast
next
  case (4 fuel os status tid)
  then show ?case by (cases status) (auto simp: bindM_Ok seqM_Ok split: if_splits)
qed simp_all

text \<open>
  C34: a trap that ContinueAndWait reports names one thread, and exactly that thread is trapped
  then, whatever clones, signals and stops came before it: the memory the handler of the trap
  reads and writes goes through the thread that trapped.
\<close>

theorem continue_reports_the_trapped_thread:
  assumes "ContinueAndWait (linuxClient fuel os) c = (Ok (Trapped ids), c')"
  shows "trappedThreadIDs c' = ids \<and> length ids = 1"
  using assms waiting_traps(1) by (simp add: linuxClient_def)

definition startedMachine :: "waitStatus list \<Rightarrow> machine rawClient" where
  "startedMachine script =
     \<lparr>kernel = \<lparr>simMem = (\<lambda>a. ucast a), simRegs = \<lparr>pRip = 0x11, pRsp = 0x100, pRcx = 0, pFs_base = 0\<rparr>,
        simScript = script\<rparr>,
      tracingProcessID = 1, tracingThreadIDs = [1], trappedThreadIDs = [1], killOnDetach = False\<rparr>"

theorem continue_reports_the_trapped_thread_witness:
  "\<exists>c'. ContinueAndWait (linuxClient 9 simOS)
          (startedMachine [WStopped 5 True, WStopped 19 False, WStopped 5 False, WStopped 5 False])
        = (Ok (Trapped [1]), c') \<and> trappedThreadIDs c' = [1]"
proof -
  have nine: "(9::nat) = Suc (Suc (Suc (Suc (Suc (Suc (Suc (Suc (Suc 0))))))))" by simp
  have "\<exists>c'. ContinueAndWait (linuxClient 9 simOS)
          (startedMachine [WStopped 5 True, WStopped 19 False, WStopped 5 False, WStopped 5 False])
        = (Ok (Trapped [1]), c')"
    by (simp add: nine linuxClient_def startedMachine_def bindM_def seqM_def sys_def zoomM_def simOS_def
        SIGTRAP_def continueClone_def del: One_nat_def)
  then show ?thesis using continue_reports_the_trapped_thread by blast
qed

lemma untrapLoop_absent:
  "\<forall>i\<in>set is. arr ! i \<noteq> tid \<Longrightarrow> untrapLoop tid is arr len = Ok (take len arr)"
  by (induction "is") auto

lemma untrapLoop_before:
  "\<forall>i\<in>set is. arr ! i \<noteq> tid \<Longrightarrow> untrapLoop tid (is @ js) arr len = untrapLoop tid js arr len"
  by (induction "is") auto

lemma untrap_distinct:
  assumes "distinct tids"
  shows "untrap tid tids = Ok (remove1 tid tids)"
proof (cases "tid \<in> set tids")
  case False
  then have "\<forall>i\<in>set [0..<length tids]. tids ! i \<noteq> tid" by (auto simp: in_set_conv_nth)
  with False show ?thesis by (simp add: untrap_def untrapLoop_absent remove1_idem)
next
  case True
  then obtain as bs where split: "tids = as @ tid # bs" by (auto dest: split_list)
  with assms have not: "tid \<notin> set as" "tid \<notin> set bs" by auto
  let ?n = "length as"
  define arr where "arr = as @ bs @ drop (length tids - 1) tids"
  have last: "drop (length tids - 1) tids = [last (tid # bs)]"
    unfolding split by (cases bs rule: rev_cases) auto
  have "[0..<length tids] = [0..<?n] @ ?n # [Suc ?n..<length tids]"
  proof -
    have "[0..<?n + Suc (length bs)] = [0..<?n] @ [?n..<?n + Suc (length bs)]"
      by (rule upt_add_eq_append) simp
    then show ?thesis by (simp add: split upt_conv_Cons del: upt_Suc)
  qed
  moreover have "\<forall>i\<in>set [0..<?n]. tids ! i \<noteq> tid"
    using not(1) by (auto simp: split nth_append in_set_conv_nth)
  ultimately have "untrap tid tids = untrapLoop tid (?n # [Suc ?n..<length tids]) tids (length tids)"
    by (simp only: untrap_def untrapLoop_before)
  also have "\<dots> = untrapLoop tid [Suc ?n..<length tids] arr (length tids - 1)"
    by (simp add: split arr_def)
  also have "\<dots> = Ok (take (length tids - 1) arr)"
  proof (rule untrapLoop_absent, rule ballI)
    fix i assume "i \<in> set [Suc ?n..<length tids]"
    then have "arr ! i \<in> set bs"
      using last by (auto simp: arr_def split nth_append nth_Cons' last_conv_nth)
    with not(2) show "arr ! i \<noteq> tid" by auto
  qed
  also have "take (length tids - 1) arr = remove1 tid tids"
    using not by (simp add: arr_def split remove1_append)
  finally show ?thesis .
qed

text \<open>
  before a single step the stepped thread is taken out of the trapped threads while the list
  is being ranged over. That is the removal it is meant to be, as long as no thread is listed
  twice; a thread that is the last two entries makes the range run past the end and panic.
\<close>

theorem untrap_removes_the_stepped_thread:
  "(distinct tids \<longrightarrow> untrap tid tids = Ok (remove1 tid tids))
    \<and> (tid \<notin> set tids' \<longrightarrow> untrap tid (tids' @ [tid, tid]) = Panic)"
proof (intro conjI impI)
  assume "distinct tids" then show "untrap tid tids = Ok (remove1 tid tids)" by (rule untrap_distinct)
next
  assume not: "tid \<notin> set tids'"
  let ?n = "length tids'"
  have "[0..<length (tids' @ [tid, tid])] = [0..<?n] @ [?n, Suc ?n]" by simp
  moreover have "\<forall>i\<in>set [0..<?n]. (tids' @ [tid, tid]) ! i \<noteq> tid"
    using not by (auto simp: nth_append in_set_conv_nth)
  ultimately show "untrap tid (tids' @ [tid, tid]) = Panic"
    unfolding untrap_def by (simp only: untrapLoop_before) (simp add: nth_append)
qed

theorem untrap_removes_the_stepped_thread_witness:
  "untrap 4 [3, 4, 5] = Ok [3, 5] \<and> untrap 4 [3, 4, 4] = Panic"
  using untrap_removes_the_stepped_thread [of "[3, 4, 5]" 4 "[3]"] by simp

end
