(* ===== verification/Breakpoints.thy ===== *)
theory Breakpoints
  imports Prelude
begin

text \<open>
  tracer/breakpoints.go: the logical breakpoints of the tracer. One address has at most one
  physical breakpoint in the tracee; the map \<open>currBreakpoints\<close> says for which go routines it
  counts as hit. The two closures the Go struct is built with (\<open>doSet\<close> and \<open>doClear\<close>, in this
  program the methods SetBreakpoint and ClearBreakpoint of the tracee process) never change
  after NewBreakpoints and are the argument \<open>ph\<close> here; the state of a method is the map
  together with the state \<open>'p\<close> those closures write.
\<close>

section \<open>The conditional breakpoint of one address\<close>

record conditionalBreakpoint =
  addr :: u64
  associateAll :: bool
  associations :: "int list"

definition cbHit :: "conditionalBreakpoint \<Rightarrow> int \<Rightarrow> bool" where
  "cbHit b goRoutineID =
     (if associateAll b then True else list_ex (\<lambda>a. a = goRoutineID) (associations b))"

definition NoAssociation :: "conditionalBreakpoint \<Rightarrow> bool" where
  "NoAssociation b = (\<not> associateAll b \<and> length (associations b) = 0)"

definition Associate :: "int \<Rightarrow> conditionalBreakpoint \<Rightarrow> conditionalBreakpoint" where
  "Associate goRoutineID b =
     (if associateAll b then b else b\<lparr>associations := associations b @ [goRoutineID]\<rparr>)"

text \<open>The loop of Disassociate: the index of the first association with the go routine.\<close>

fun findAssociation :: "int \<Rightarrow> int list \<Rightarrow> nat \<Rightarrow> nat option" where
  "findAssociation goRoutineID [] i = None"
| "findAssociation goRoutineID (a # as) i =
     (if a = goRoutineID then Some i else findAssociation goRoutineID as (Suc i))"

definition Disassociate :: "int \<Rightarrow> conditionalBreakpoint \<Rightarrow> bool \<times> conditionalBreakpoint" where
  "Disassociate goRoutineID b =
     (if associateAll b then (False, b)
      else case findAssociation goRoutineID (associations b) 0 of
             None \<Rightarrow> (False, b)
           | Some i \<Rightarrow>
               (True, b\<lparr>associations := take i (associations b) @ drop (i + 1) (associations b)\<rparr>))"

lemma findAssociation_None:
  "findAssociation g as i = None \<longleftrightarrow> g \<notin> set as"
  by (induction as arbitrary: i) auto

lemma findAssociation_remove1:
  "findAssociation g as k = Some j \<Longrightarrow>
     \<exists>i. j = k + i \<and> i < length as \<and> take i as @ drop (i + 1) as = remove1 g as"
proof (induction as arbitrary: k)
  case Nil
  then show ?case by simp
next
  case (Cons a as)
  show ?case
  proof (cases "a = g")
    case True
    with Cons.prems show ?thesis by (intro exI [of _ 0]) simp
  next
    case False
    with Cons.prems have "findAssociation g as (Suc k) = Some j" by simp
    then obtain i where "j = Suc k + i" "i < length as"
        "take i as @ drop (i + 1) as = remove1 g as"
      using Cons.IH by blast
    with False show ?thesis by (intro exI [of _ "Suc i"]) simp
  qed
qed

lemma Disassociate_eq:
  "Disassociate g b =
     (if associateAll b \<or> g \<notin> set (associations b) then (False, b)
      else (True, b\<lparr>associations := remove1 g (associations b)\<rparr>))"
proof (cases "findAssociation g (associations b) 0")
  case None
  then have "g \<notin> set (associations b)" by (simp add: findAssociation_None)
  with None show ?thesis by (simp add: Disassociate_def)
next
  case (Some i)
  then have "g \<in> set (associations b)" using findAssociation_None by (metis option.distinct(1))
  moreover from Some have "take i (associations b) @ drop (i + 1) (associations b)
      = remove1 g (associations b)"
    using findAssociation_remove1 [of g "associations b" 0 i] by auto
  ultimately show ?thesis using Some by (simp add: Disassociate_def)
qed

text \<open>The loop \<open>for bp.Disassociate(goRoutineID) {}\<close> of ClearAllByGoRoutineID.\<close>

function disassociateLoop :: "int \<Rightarrow> conditionalBreakpoint \<Rightarrow> conditionalBreakpoint" where
  "disassociateLoop goRoutineID b =
     (case Disassociate goRoutineID b of
        (True, b') \<Rightarrow> disassociateLoop goRoutineID b'
      | (False, b') \<Rightarrow> b')"
  by pat_completeness auto
termination
  by (relation "measure (\<lambda>(g, b). length (associations b))")
     (auto simp: Disassociate_eq length_remove1 dest: length_pos_if_in_set split: if_splits)

declare disassociateLoop.simps [simp del]

lemma filter_remove1_same: "filter (\<lambda>a. a \<noteq> g) (remove1 g as) = filter (\<lambda>a. a \<noteq> g) as"
  by (induction as) auto

lemma filter_all_id: "g \<notin> set as \<Longrightarrow> filter (\<lambda>a. a \<noteq> g) as = as"
  by (induction as) auto

lemma disassociateLoop_eq:
  "disassociateLoop g b =
     (if associateAll b then b
      else b\<lparr>associations := filter (\<lambda>a. a \<noteq> g) (associations b)\<rparr>)"
proof (induction g b rule: disassociateLoop.induct)
  case (1 g b)
  show ?case
  proof (cases "associateAll b \<or> g \<notin> set (associations b)")
    case True
    then show ?thesis
      by (auto simp: disassociateLoop.simps [of g b] Disassociate_eq filter_all_id)
  next
    case False
    then have D: "Disassociate g b = (True, b\<lparr>associations := remove1 g (associations b)\<rparr>)"
      by (simp add: Disassociate_eq)
    from "1" [OF D [symmetric]] False D show ?thesis
      by (simp add: disassociateLoop.simps [of g b] filter_remove1_same)
  qed
qed

section \<open>The breakpoints of the tracer\<close>

type_synonym bps = "u64 \<Rightarrow> conditionalBreakpoint option"

record 'p physical =
  doSet :: "u64 \<Rightarrow> ('p, unit) prog"
  doClear :: "u64 \<Rightarrow> ('p, unit) prog"

definition NewBreakpoints :: bps where
  "NewBreakpoints = Map.empty"

definition Hit :: "bps \<Rightarrow> u64 \<Rightarrow> int \<Rightarrow> bool" where
  "Hit m a goRoutineID = (case m a of None \<Rightarrow> False | Some bp \<Rightarrow> cbHit bp goRoutineID)"

definition Exist :: "bps \<Rightarrow> u64 \<Rightarrow> bool" where
  "Exist m a = (case m a of None \<Rightarrow> False | Some _ \<Rightarrow> True)"

definition putBp :: "u64 \<Rightarrow> conditionalBreakpoint \<Rightarrow> (bps \<times> 'p, unit) prog" where
  "putBp a bp = modifyM (\<lambda>(m, p). (m(a \<mapsto> bp), p))"

definition deleteBp :: "u64 \<Rightarrow> (bps \<times> 'p, unit) prog" where
  "deleteBp a = modifyM (\<lambda>(m, p). (m(a := None), p))"

definition onPhysical :: "('p, unit) prog \<Rightarrow> (bps \<times> 'p, unit) prog" where
  "onPhysical f = zoomM snd (\<lambda>p s. (fst s, p)) f"

definition Clear :: "'p physical \<Rightarrow> u64 \<Rightarrow> (bps \<times> 'p, unit) prog" where
  "Clear ph a = bindM (getsM (\<lambda>s. fst s a)) (\<lambda>e. case e of
       None \<Rightarrow> returnM ()
     | Some _ \<Rightarrow> seqM (onPhysical (doClear ph a)) (deleteBp a))"

definition ClearConditional :: "'p physical \<Rightarrow> u64 \<Rightarrow> int \<Rightarrow> (bps \<times> 'p, unit) prog" where
  "ClearConditional ph a goRoutineID = bindM (getsM (\<lambda>s. fst s a)) (\<lambda>e. case e of
       None \<Rightarrow> returnM ()
     | Some bp \<Rightarrow>
         (let bp' = snd (Disassociate goRoutineID bp) in
          seqM (putBp a bp')
            (if \<not> NoAssociation bp' then returnM () else Clear ph a)))"

text \<open>
  Go leaves the order in which a map is ranged over unspecified: it is the list \<open>order\<close>, an
  enumeration of the addresses in the map. The loop body deletes at most the address it is at.
\<close>

fun clearAllLoop :: "'p physical \<Rightarrow> int \<Rightarrow> u64 list \<Rightarrow> (bps \<times> 'p, unit) prog" where
  "clearAllLoop ph goRoutineID [] = returnM ()"
| "clearAllLoop ph goRoutineID (a # order) =
     seqM
       (bindM (getsM (\<lambda>s. fst s a)) (\<lambda>e. case e of
          None \<Rightarrow> returnM ()
        | Some bp \<Rightarrow>
            (let bp' = disassociateLoop goRoutineID bp in
             seqM (putBp a bp')
               (if \<not> NoAssociation bp' then returnM () else Clear ph a))))
       (clearAllLoop ph goRoutineID order)"

definition ClearAllByGoRoutineID ::
    "'p physical \<Rightarrow> (u64 set \<Rightarrow> u64 list) \<Rightarrow> int \<Rightarrow> (bps \<times> 'p, unit) prog" where
  "ClearAllByGoRoutineID ph mapOrder goRoutineID =
     bindM (getsM (\<lambda>s. dom (fst s))) (\<lambda>keys. clearAllLoop ph goRoutineID (mapOrder keys))"

definition Set :: "'p physical \<Rightarrow> u64 \<Rightarrow> (bps \<times> 'p, unit) prog" where
  "Set ph a = bindM (getsM (\<lambda>s. fst s a)) (\<lambda>e.
     seqM (case e of None \<Rightarrow> onPhysical (doSet ph a) | Some _ \<Rightarrow> returnM ())
       (putBp a \<lparr>addr = a, associateAll = True, associations = []\<rparr>))"

definition SetConditional :: "'p physical \<Rightarrow> u64 \<Rightarrow> int \<Rightarrow> (bps \<times> 'p, unit) prog" where
  "SetConditional ph a goRoutineID = bindM (getsM (\<lambda>s. fst s a)) (\<lambda>e. case e of
       Some bp \<Rightarrow>
         (if \<not> NoAssociation bp then putBp a (Associate goRoutineID bp) else returnM ())
     | None \<Rightarrow>
         seqM (onPhysical (doSet ph a))
           (putBp a (Associate goRoutineID \<lparr>addr = a, associateAll = False, associations = []\<rparr>)))"

section \<open>What the map says: claims\<close>

text \<open>
  The abstract view of a map of breakpoints: how many claims a go routine has on an address,
  or \<open>None\<close> where every go routine is considered as hit. Associating a go routine twice
  counts twice, which is what a recursive function needs.
\<close>

definition claimsOf :: "conditionalBreakpoint option \<Rightarrow> int \<Rightarrow> nat option" where
  "claimsOf e g = (case e of
       None \<Rightarrow> Some 0
     | Some bp \<Rightarrow> if associateAll bp then None else Some (count_list (associations bp) g))"

definition claims :: "bps \<Rightarrow> int \<Rightarrow> u64 \<Rightarrow> nat option" where
  "claims m g a = claimsOf (m a) g"

text \<open>
  No breakpoint is dead, that is, in the map with no go routine to hit it: the operations keep
  it as long as the physical clear never fails.
\<close>

definition live :: "bps \<Rightarrow> bool" where
  "live m \<longleftrightarrow> (\<forall>a bp. m a = Some bp \<longrightarrow> \<not> NoAssociation bp)"

text \<open>The abstract operations, one address at a time.\<close>

definition claimOne :: "int \<Rightarrow> u64 \<Rightarrow> (int \<Rightarrow> u64 \<Rightarrow> nat option) \<Rightarrow> int \<Rightarrow> u64 \<Rightarrow> nat option" where
  "claimOne g a C = C(g := (C g)(a := map_option Suc (C g a)))"

definition releaseOne :: "int \<Rightarrow> u64 \<Rightarrow> (int \<Rightarrow> u64 \<Rightarrow> nat option) \<Rightarrow> int \<Rightarrow> u64 \<Rightarrow> nat option" where
  "releaseOne g a C = C(g := (C g)(a := map_option (\<lambda>n. n - 1) (C g a)))"

definition releaseAll :: "int \<Rightarrow> (int \<Rightarrow> u64 \<Rightarrow> nat option) \<Rightarrow> int \<Rightarrow> u64 \<Rightarrow> nat option" where
  "releaseAll g C = C(g := (\<lambda>a. map_option (\<lambda>_. 0) (C g a)))"

definition claimAlways :: "u64 \<Rightarrow> (int \<Rightarrow> u64 \<Rightarrow> nat option) \<Rightarrow> int \<Rightarrow> u64 \<Rightarrow> nat option" where
  "claimAlways a C = (\<lambda>g. (C g)(a := None))"

lemma claims_empty [simp]: "claims NewBreakpoints g a = Some 0"
  by (simp add: claims_def claimsOf_def NewBreakpoints_def)

lemma live_empty [simp]: "live NewBreakpoints"
  by (simp add: live_def NewBreakpoints_def)

lemma claimsOf_simps [simp]:
  "claimsOf None g = Some 0"
  "claimsOf (Some \<lparr>addr = a, associateAll = False, associations = []\<rparr>) g = Some 0"
  "claimsOf (Some \<lparr>addr = a, associateAll = True, associations = as\<rparr>) g = None"
  by (simp_all add: claimsOf_def)

lemma cbHit_iff: "cbHit bp g \<longleftrightarrow> claimsOf (Some bp) g \<noteq> Some 0"
  by (auto simp: cbHit_def claimsOf_def list_ex_iff count_list_0_iff)

lemma Hit_iff_claims: "Hit m a g \<longleftrightarrow> claims m g a \<noteq> Some 0"
  by (auto simp: Hit_def claims_def cbHit_iff claimsOf_def split: option.splits)

lemma NoAssociation_iff: "NoAssociation bp \<longleftrightarrow> (\<forall>g. claimsOf (Some bp) g = Some 0)"
proof (cases "associateAll bp")
  case True
  then show ?thesis by (simp add: NoAssociation_def claimsOf_def)
next
  case False
  then show ?thesis
    by (cases "associations bp") (auto simp: NoAssociation_def claimsOf_def)
qed

lemma NoAssociation_None_claims: "NoAssociation bp \<Longrightarrow> claimsOf (Some bp) = claimsOf None"
  by (auto simp: NoAssociation_iff claimsOf_def fun_eq_iff)

lemma claimsOf_Associate:
  "claimsOf (Some (Associate g bp)) =
     (claimsOf (Some bp))(g := map_option Suc (claimsOf (Some bp) g))"
  by (auto simp: claimsOf_def Associate_def count_list_append fun_eq_iff)

lemma count_list_remove1: "count_list (remove1 g as) h = (count_list as h) - (if h = g then 1 else 0)"
proof (cases "g \<in> set as")
  case True
  then have "count_list (remove1 g as) h = count (mset as - {#g#}) h"
    by (simp add: count_mset [symmetric])
  then show ?thesis by (simp add: count_mset)
next
  case False
  then show ?thesis by (auto simp: remove1_idem count_notin)
qed

lemma claimsOf_Disassociate:
  "claimsOf (Some (snd (Disassociate g bp))) =
     (claimsOf (Some bp))(g := map_option (\<lambda>n. n - 1) (claimsOf (Some bp) g))"
  by (auto simp: claimsOf_def Disassociate_eq count_list_remove1 fun_eq_iff count_notin)

lemma count_list_filter_neq: "count_list (filter (\<lambda>a. a \<noteq> g) as) h = (if h = g then 0 else count_list as h)"
  by (induction as) auto

lemma claimsOf_disassociateLoop:
  "claimsOf (Some (disassociateLoop g bp)) =
     (claimsOf (Some bp))(g := map_option (\<lambda>_. 0) (claimsOf (Some bp) g))"
  by (auto simp: claimsOf_def disassociateLoop_eq count_list_filter_neq fun_eq_iff)

lemma Associate_live: "\<not> NoAssociation bp \<Longrightarrow> \<not> NoAssociation (Associate g bp)"
  by (simp add: NoAssociation_def Associate_def)

lemma Always_live: "\<not> NoAssociation \<lparr>addr = a, associateAll = True, associations = as\<rparr>"
  by (simp add: NoAssociation_def)

lemma Associate_new_live: "\<not> NoAssociation (Associate g \<lparr>addr = a, associateAll = False, associations = []\<rparr>)"
  by (simp add: NoAssociation_def Associate_def)

section \<open>Functional behaviour: every operation on the claims\<close>

lemma onPhysical_run: "onPhysical f (m, p) = (case f p of (r, p') \<Rightarrow> (r, (m, p')))"
  by (simp add: onPhysical_def zoomM_def)

lemma onPhysical_map: "fst (snd (onPhysical f s)) = fst s"
  by (cases s) (simp add: onPhysical_run split: prod.splits)

lemma claims_delete: "m a = None \<or> m a = Some bp \<and> NoAssociation bp \<Longrightarrow> claims (m(a := None)) = claims m"
  by (auto simp: claims_def fun_eq_iff NoAssociation_None_claims)

lemma claims_update: "claims (m(a \<mapsto> bp)) g b = (if b = a then claimsOf (Some bp) g else claims m g b)"
  by (simp add: claims_def)

lemma Clear_run:
  "Clear ph a (m, p) =
     (case m a of
        None \<Rightarrow> (Ok (), (m, p))
      | Some _ \<Rightarrow> (case doClear ph a p of
            (Ok _, p') \<Rightarrow> (Ok (), (m(a := None), p'))
          | (Fail e, p') \<Rightarrow> (Fail e, (m, p'))
          | (Panic, p') \<Rightarrow> (Panic, (m, p'))
          | (OutOfFuel, p') \<Rightarrow> (OutOfFuel, (m, p'))))"
  by (auto simp: Clear_def bindM_def getsM_def seqM_def onPhysical_run deleteBp_def
      split: option.splits prod.splits outcome.splits)

lemma Clear_Ok: "Clear ph a (m, p) = (Ok (), (m', p')) \<Longrightarrow> m' = m(a := None)"
  by (auto simp: Clear_run fun_upd_idem_iff split: option.splits prod.splits outcome.splits)

lemma SetConditional_run:
  "SetConditional ph a g (m, p) =
     (case m a of
        Some bp \<Rightarrow> (Ok (), (if NoAssociation bp then m else m(a \<mapsto> Associate g bp), p))
      | None \<Rightarrow> (case doSet ph a p of
            (Ok _, p') \<Rightarrow>
              (Ok (), (m(a \<mapsto> Associate g \<lparr>addr = a, associateAll = False, associations = []\<rparr>), p'))
          | (Fail e, p') \<Rightarrow> (Fail e, (m, p'))
          | (Panic, p') \<Rightarrow> (Panic, (m, p'))
          | (OutOfFuel, p') \<Rightarrow> (OutOfFuel, (m, p'))))"
  by (auto simp: SetConditional_def bindM_def getsM_def seqM_def onPhysical_run putBp_def
      split: option.splits prod.splits outcome.splits)

lemma ClearConditional_run:
  "ClearConditional ph a g (m, p) =
     (case m a of
        None \<Rightarrow> (Ok (), (m, p))
      | Some bp \<Rightarrow>
          (if NoAssociation (snd (Disassociate g bp))
           then Clear ph a (m(a \<mapsto> snd (Disassociate g bp)), p)
           else (Ok (), (m(a \<mapsto> snd (Disassociate g bp)), p))))"
  by (auto simp: ClearConditional_def bindM_def getsM_def seqM_def putBp_def Let_def
      split: option.splits)

lemma Set_run:
  "Set ph a (m, p) =
     (case m a of
        Some _ \<Rightarrow> (Ok (), (m(a \<mapsto> \<lparr>addr = a, associateAll = True, associations = []\<rparr>), p))
      | None \<Rightarrow> (case doSet ph a p of
            (Ok _, p') \<Rightarrow> (Ok (), (m(a \<mapsto> \<lparr>addr = a, associateAll = True, associations = []\<rparr>), p'))
          | (Fail e, p') \<Rightarrow> (Fail e, (m, p'))
          | (Panic, p') \<Rightarrow> (Panic, (m, p'))
          | (OutOfFuel, p') \<Rightarrow> (OutOfFuel, (m, p'))))"
  by (auto simp: Set_def bindM_def getsM_def seqM_def onPhysical_run putBp_def
      split: option.splits prod.splits outcome.splits)

lemma SetConditional_claims:
  assumes "live m" and "SetConditional ph a g (m, p) = (Ok (), (m', p'))"
  shows "claims m' = claimOne g a (claims m)"
proof (cases "m a")
  case None
  with assms(2) have "m' = m(a \<mapsto> Associate g \<lparr>addr = a, associateAll = False, associations = []\<rparr>)"
    by (auto simp: SetConditional_run split: prod.splits outcome.splits)
  with None show ?thesis
    by (auto simp: claimOne_def fun_eq_iff claims_def claimsOf_Associate)
next
  case (Some bp)
  with assms have "m' = m(a \<mapsto> Associate g bp)"
    by (auto simp: SetConditional_run live_def split: if_splits)
  with Some show ?thesis
    by (auto simp: claimOne_def fun_eq_iff claims_def claimsOf_Associate)
qed

lemma SetConditional_live:
  "live m \<Longrightarrow> SetConditional ph a g (m, p) = (r, (m', p')) \<Longrightarrow> live m'"
  by (auto simp: SetConditional_run live_def Associate_live Associate_new_live
      split: option.splits prod.splits outcome.splits if_splits)

lemma ClearConditional_Ok:
  assumes "ClearConditional ph a g (m, p) = (Ok (), (m', p'))"
  shows "m' = (case m a of None \<Rightarrow> m
                | Some bp \<Rightarrow> if NoAssociation (snd (Disassociate g bp)) then m(a := None)
                            else m(a \<mapsto> snd (Disassociate g bp)))"
  using assms
  by (auto simp: ClearConditional_run split: option.splits if_splits dest!: Clear_Ok)

lemma ClearConditional_claims:
  assumes "ClearConditional ph a g (m, p) = (Ok (), (m', p'))"
  shows "claims m' = releaseOne g a (claims m)"
proof (cases "m a")
  case None
  with ClearConditional_Ok [OF assms] show ?thesis
    by (auto simp: releaseOne_def fun_eq_iff claims_def claimsOf_def)
next
  case (Some bp)
  define bp' where "bp' = snd (Disassociate g bp)"
  have C: "claimsOf (Some bp') = (claimsOf (Some bp))(g := map_option (\<lambda>n. n - 1) (claimsOf (Some bp) g))"
    by (simp add: bp'_def claimsOf_Disassociate)
  have "claims m' = claims (m(a \<mapsto> bp'))"
    using ClearConditional_Ok [OF assms] Some claims_delete [of "m(a \<mapsto> bp')" a bp']
    by (auto simp: bp'_def [symmetric])
  also have "\<dots> = releaseOne g a (claims m)"
    using Some by (auto simp: releaseOne_def fun_eq_iff claims_def C)
  finally show ?thesis .
qed

lemma ClearConditional_live:
  assumes "live m" and "ClearConditional ph a g (m, p) = (Ok (), (m', p'))"
  shows "live m'"
  using assms(1) ClearConditional_Ok [OF assms(2)]
  by (auto simp: live_def split: option.splits if_splits)

lemma Set_claims:
  assumes "Set ph a (m, p) = (Ok (), (m', p'))"
  shows "claims m' = claimAlways a (claims m)"
proof -
  from assms have "m' = m(a \<mapsto> \<lparr>addr = a, associateAll = True, associations = []\<rparr>)"
    by (auto simp: Set_run split: option.splits prod.splits outcome.splits)
  then show ?thesis by (auto simp: claimAlways_def claims_def fun_eq_iff)
qed

lemma Set_live: "live m \<Longrightarrow> Set ph a (m, p) = (r, (m', p')) \<Longrightarrow> live m'"
  by (auto simp: Set_run live_def Always_live split: option.splits prod.splits outcome.splits if_splits)

subsection \<open>Clearing everything a go routine has\<close>

definition clearAllBody :: "'p physical \<Rightarrow> int \<Rightarrow> u64 \<Rightarrow> (bps \<times> 'p, unit) prog" where
  "clearAllBody ph g a = (\<lambda>(m, p). case m a of
       None \<Rightarrow> (Ok (), (m, p))
     | Some bp \<Rightarrow>
         (if NoAssociation (disassociateLoop g bp)
          then Clear ph a (m(a \<mapsto> disassociateLoop g bp), p)
          else (Ok (), (m(a \<mapsto> disassociateLoop g bp), p))))"

lemma clearAllLoop_eq: "clearAllLoop ph g order = forM order (clearAllBody ph g)"
proof (induction order)
  case Nil
  then show ?case by simp
next
  case (Cons a order)
  have "bindM (getsM (\<lambda>s. fst s a)) (\<lambda>e. case e of
          None \<Rightarrow> returnM ()
        | Some bp \<Rightarrow> (let bp' = disassociateLoop g bp in
             seqM (putBp a bp') (if \<not> NoAssociation bp' then returnM () else Clear ph a)))
      = clearAllBody ph g a"
    by (auto simp: clearAllBody_def fun_eq_iff putBp_def Let_def split: option.splits)
  with Cons.IH show ?case by simp
qed

lemma clearAllBody_Ok:
  assumes "clearAllBody ph g a (m, p) = (Ok (), (m', p'))"
  shows "claims m' = (claims m)(g := (claims m g)(a := map_option (\<lambda>_. 0) (claims m g a)))"
    and "live m \<Longrightarrow> live m'"
    and "dom m' \<subseteq> dom m"
proof -
  consider "m a = None" "m' = m"
    | bp where "m a = Some bp" "NoAssociation (disassociateLoop g bp)" "m' = m(a := None)"
    | bp where "m a = Some bp" "\<not> NoAssociation (disassociateLoop g bp)"
        "m' = m(a \<mapsto> disassociateLoop g bp)"
    using assms by (auto simp: clearAllBody_def split: option.splits if_splits dest!: Clear_Ok)
  note cases = this
  show "dom m' \<subseteq> dom m" and "live m \<Longrightarrow> live m'"
    using cases by (cases; auto simp: live_def split: if_splits)+
  from cases show "claims m' = (claims m)(g := (claims m g)(a := map_option (\<lambda>_. 0) (claims m g a)))"
  proof cases
    case 1
    then show ?thesis by (auto simp: fun_eq_iff claims_def claimsOf_def)
  next
    case (2 bp)
    have "claims m' = claims (m(a \<mapsto> disassociateLoop g bp))"
      using 2 claims_delete [of "m(a \<mapsto> disassociateLoop g bp)" a "disassociateLoop g bp"] by simp
    with 2 show ?thesis
      by (auto simp: fun_eq_iff claims_def claimsOf_disassociateLoop)
  next
    case (3 bp)
    then show ?thesis by (auto simp: fun_eq_iff claims_def claimsOf_disassociateLoop)
  qed
qed

lemma clearAllLoop_Ok:
  assumes "clearAllLoop ph g order (m, p) = (Ok (), (m', p'))"
  shows "claims m' = (claims m)(g := (\<lambda>a. if a \<in> set order then map_option (\<lambda>_. 0) (claims m g a)
                                        else claims m g a))
    \<and> (live m \<longrightarrow> live m')"
  using assms
proof (induction order arbitrary: m p)
  case Nil
  then show ?case by simp
next
  case (Cons a order)
  from Cons.prems obtain m1 p1 where 1: "clearAllBody ph g a (m, p) = (Ok (), (m1, p1))"
    and 2: "clearAllLoop ph g order (m1, p1) = (Ok (), (m', p'))"
    by (auto simp: clearAllLoop_eq seqM_Ok)
  from Cons.IH [OF 2] clearAllBody_Ok [OF 1] show ?case
    by (auto simp: fun_eq_iff option.map_comp comp_def)
qed

lemma ClearAllByGoRoutineID_claims:
  assumes "dom m \<subseteq> set (mapOrder (dom m))"
    and "ClearAllByGoRoutineID ph mapOrder g (m, p) = (Ok (), (m', p'))"
  shows "claims m' = releaseAll g (claims m)" and "live m \<Longrightarrow> live m'"
proof -
  from assms(2) have "clearAllLoop ph g (mapOrder (dom m)) (m, p) = (Ok (), (m', p'))"
    by (simp add: ClearAllByGoRoutineID_def)
  note * = clearAllLoop_Ok [OF this]
  have "claims m g a = Some 0" if "a \<notin> set (mapOrder (dom m))" for a
    using that assms(1) by (cases "m a") (auto simp: claims_def)
  with * show "claims m' = releaseAll g (claims m)"
    by (auto simp: releaseAll_def fun_eq_iff)
  from * show "live m \<Longrightarrow> live m'" by simp
qed

section \<open>The interface to the physical breakpoints\<close>

text \<open>
  What the tracer needs of the closures: a set that succeeds arms the address, a clear that
  succeeds disarms it, and one that fails leaves the armed addresses as they were. Then the
  addresses of the map are the armed addresses, whatever operations run and however they end.
\<close>

definition inSync :: "('p \<Rightarrow> u64 set) \<Rightarrow> bps \<times> 'p \<Rightarrow> bool" where
  "inSync armed s \<longleftrightarrow> dom (fst s) = armed (snd s)"

interpretation sync: frame "\<lambda>s s'. inSync armed s \<longrightarrow> inSync armed s'" for armed
  by unfold_locales auto

locale physical_breakpoints =
  fixes ph :: "'p physical" and armed :: "'p \<Rightarrow> u64 set"
  assumes set_arms: "doSet ph a p = (Ok (), p') \<Longrightarrow> armed p' = insert a (armed p)"
    and set_fails: "doSet ph a p = (r, p') \<Longrightarrow> r \<noteq> Ok () \<Longrightarrow> armed p' = armed p"
    and clear_disarms: "doClear ph a p = (Ok (), p') \<Longrightarrow> armed p' = armed p - {a}"
    and clear_fails: "doClear ph a p = (r, p') \<Longrightarrow> r \<noteq> Ok () \<Longrightarrow> armed p' = armed p"
begin

lemma Clear_sync:
  assumes "inSync armed s"
  shows "inSync armed (snd (Clear ph a s))"
proof -
  obtain m p where s: "s = (m, p)" by (cases s)
  obtain r p' where D: "doClear ph a p = (r, p')" by (cases "doClear ph a p")
  show ?thesis
    using assms clear_disarms [of a p p'] clear_fails [OF D] D
    by (cases r) (auto simp: s Clear_run inSync_def split: option.splits)
qed

lemma SetConditional_sync:
  assumes "inSync armed s"
  shows "inSync armed (snd (SetConditional ph a g s))"
proof -
  obtain m p where s: "s = (m, p)" by (cases s)
  obtain r p' where D: "doSet ph a p = (r, p')" by (cases "doSet ph a p")
  show ?thesis
    using assms set_arms [of a p p'] set_fails [OF D] D
    by (cases r) (auto simp: s SetConditional_run inSync_def split: option.splits)
qed

lemma Set_sync:
  assumes "inSync armed s"
  shows "inSync armed (snd (Set ph a s))"
proof -
  obtain m p where s: "s = (m, p)" by (cases s)
  obtain r p' where D: "doSet ph a p = (r, p')" by (cases "doSet ph a p")
  show ?thesis
    using assms set_arms [of a p p'] set_fails [OF D] D
    by (cases r) (auto simp: s Set_run inSync_def split: option.splits)
qed

lemma ClearConditional_sync:
  assumes "inSync armed s"
  shows "inSync armed (snd (ClearConditional ph a g s))"
proof -
  obtain m p where s: "s = (m, p)" by (cases s)
  have "inSync armed (m(a \<mapsto> bp'), p)" if "m a = Some bp" for bp bp'
    using assms that by (auto simp: s inSync_def)
  then show ?thesis
    using assms Clear_sync
    by (auto simp: s ClearConditional_run split: option.splits)
qed

lemma clearAllBody_sync:
  assumes "inSync armed s"
  shows "inSync armed (snd (clearAllBody ph g a s))"
proof -
  obtain m p where s: "s = (m, p)" by (cases s)
  have "inSync armed (m(a \<mapsto> bp'), p)" if "m a = Some bp" for bp bp'
    using assms that by (auto simp: s inSync_def)
  then show ?thesis
    using assms Clear_sync
    by (auto simp: s clearAllBody_def split: option.splits)
qed

lemma ClearAllByGoRoutineID_sync:
  assumes "inSync armed s"
  shows "inSync armed (snd (ClearAllByGoRoutineID ph mapOrder g s))"
proof -
  have "keeps (\<lambda>s s'. inSync armed s \<longrightarrow> inSync armed s')
      (clearAllLoop ph g (mapOrder (dom (fst s))))"
    unfolding clearAllLoop_eq
    by (rule sync.forM_frame) (simp add: keeps_def clearAllBody_sync)
  then show ?thesis
    using assms by (cases s) (simp add: ClearAllByGoRoutineID_def keeps_def)
qed

text \<open>A hit breakpoint is always armed in the tracee.\<close>

lemma hit_is_armed: "inSync armed (m, p) \<Longrightarrow> Hit m a g \<Longrightarrow> a \<in> armed p"
  by (auto simp: inSync_def Hit_def split: option.splits)

text \<open>With no dead breakpoint, an address is armed exactly when some go routine claims it.\<close>

lemma armed_iff_claimed:
  assumes "inSync armed (m, p)" and "live m"
  shows "a \<in> armed p \<longleftrightarrow> (\<exists>g. claims m g a \<noteq> Some 0)"
proof -
  have "a \<in> dom m \<longleftrightarrow> (\<exists>g. claims m g a \<noteq> Some 0)"
    using assms(2) by (cases "m a") (auto simp: live_def claims_def NoAssociation_iff)
  with assms(1) show ?thesis by (simp add: inSync_def)
qed

end

section \<open>Go routines do not disturb each other\<close>

text \<open>
  Whatever is set or cleared for one go routine, and however that ends, the claims of every
  other go routine stay as they are.
\<close>

definition othersKept :: "int \<Rightarrow> bps \<times> 'p \<Rightarrow> bps \<times> 'p \<Rightarrow> bool" where
  "othersKept g s s' \<longleftrightarrow> (\<forall>h a. h \<noteq> g \<longrightarrow> claims (fst s') h a = claims (fst s) h a)"

interpretation others: frame "othersKept g" for g
  by unfold_locales (auto simp: othersKept_def)

lemma claims_Clear:
  assumes "\<forall>h. h \<noteq> g \<longrightarrow> claims m h a = Some 0"
  shows "othersKept g (m, p) (snd (Clear ph a (m, p)))"
  using assms
  by (auto simp: othersKept_def Clear_run claims_def
      split: option.splits prod.splits outcome.splits)

lemma SetConditional_others: "keeps (othersKept g) (SetConditional ph a g)"
proof (rule keepsI)
  fix s :: "bps \<times> 'a"
  obtain m p where s: "s = (m, p)" by (cases s)
  show "othersKept g s (snd (SetConditional ph a g s))"
    by (auto simp: s othersKept_def SetConditional_run claims_def claimsOf_Associate
        split: option.splits prod.splits outcome.splits)
qed

lemma releasing_others:
  assumes "m a = Some bp"
    and "\<And>h. h \<noteq> g \<Longrightarrow> claimsOf (Some bp') h = claimsOf (Some bp) h"
  shows "othersKept g (m, p)
    (snd (if NoAssociation bp' then Clear ph a (m(a \<mapsto> bp'), p) else (Ok (), (m(a \<mapsto> bp'), p))))"
proof -
  have 1: "othersKept g (m, p) (m(a \<mapsto> bp'), p)"
    using assms by (auto simp: othersKept_def claims_def)
  have "claims (m(a \<mapsto> bp')) h a = Some 0" if "NoAssociation bp'" for h
    using that by (simp add: claims_def NoAssociation_None_claims)
  then have "NoAssociation bp' \<Longrightarrow> othersKept g (m(a \<mapsto> bp'), p) (snd (Clear ph a (m(a \<mapsto> bp'), p)))"
    by (simp add: claims_Clear)
  with 1 show ?thesis by (auto intro: others.trans)
qed

lemma ClearConditional_others: "keeps (othersKept g) (ClearConditional ph a g)"
proof (rule keepsI)
  fix s :: "bps \<times> 'a"
  obtain m p where s: "s = (m, p)" by (cases s)
  show "othersKept g s (snd (ClearConditional ph a g s))"
  proof (cases "m a")
    case None
    then show ?thesis by (simp add: s ClearConditional_run others.refl)
  next
    case (Some bp)
    then show ?thesis
      using releasing_others [of m a bp g "snd (Disassociate g bp)" p ph]
      by (simp add: s ClearConditional_run claimsOf_Disassociate)
  qed
qed

lemma clearAllBody_others: "keeps (othersKept g) (clearAllBody ph g a)"
proof (rule keepsI)
  fix s :: "bps \<times> 'a"
  obtain m p where s: "s = (m, p)" by (cases s)
  show "othersKept g s (snd (clearAllBody ph g a s))"
  proof (cases "m a")
    case None
    then show ?thesis by (simp add: s clearAllBody_def others.refl)
  next
    case (Some bp)
    then show ?thesis
      using releasing_others [of m a bp g "disassociateLoop g bp" p ph]
      by (simp add: s clearAllBody_def claimsOf_disassociateLoop)
  qed
qed

lemma ClearAllByGoRoutineID_others: "keeps (othersKept g) (ClearAllByGoRoutineID ph mapOrder g)"
  unfolding ClearAllByGoRoutineID_def clearAllLoop_eq
  by (intro others.bind_frame others.gets_frame others.forM_frame clearAllBody_others)

section \<open>Properties\<close>

text \<open>The addresses of a map without dead breakpoints are those some go routine claims.\<close>

lemma dom_live: "live m \<Longrightarrow> dom m = {a. \<exists>g. claims m g a \<noteq> Some 0}"
proof (intro set_eqI)
  fix a assume "live m"
  then show "a \<in> dom m \<longleftrightarrow> a \<in> {a. \<exists>g. claims m g a \<noteq> Some 0}"
    by (cases "m a") (auto simp: live_def claims_def NoAssociation_iff)
qed

lemma SetConditional_repeat:
  assumes "live m" and "forM (replicate n g) (SetConditional ph a) (m, p) = (Ok (), (m', p'))"
  shows "claims m' = (claims m)(g := (claims m g)(a := map_option (\<lambda>k. k + n) (claims m g a))) \<and> live m'"
  using assms
proof (induction n arbitrary: m p)
  case 0
  then show ?case by (simp add: fun_upd_idem option.map_ident)
next
  case (Suc n)
  then obtain m1 p1 where 1: "SetConditional ph a g (m, p) = (Ok (), (m1, p1))"
    and 2: "forM (replicate n g) (SetConditional ph a) (m1, p1) = (Ok (), (m', p'))"
    by (auto simp: seqM_Ok)
  from Suc.prems(1) 1 have "live m1" by (rule SetConditional_live)
  from Suc.IH [OF this 2] SetConditional_claims [OF Suc.prems(1) 1]
  show ?case by (auto simp: claimOne_def fun_eq_iff option.map_comp comp_def)
qed

lemma ClearConditional_repeat:
  assumes "live m" and "forM (replicate n g) (ClearConditional ph a) (m, p) = (Ok (), (m', p'))"
  shows "claims m' = (claims m)(g := (claims m g)(a := map_option (\<lambda>k. k - n) (claims m g a))) \<and> live m'"
  using assms
proof (induction n arbitrary: m p)
  case 0
  then show ?case by (simp add: fun_upd_idem option.map_ident)
next
  case (Suc n)
  then obtain m1 p1 where 1: "ClearConditional ph a g (m, p) = (Ok (), (m1, p1))"
    and 2: "forM (replicate n g) (ClearConditional ph a) (m1, p1) = (Ok (), (m', p'))"
    by (auto simp: seqM_Ok)
  from Suc.prems(1) 1 have "live m1" by (rule ClearConditional_live)
  from Suc.IH [OF this 2] ClearConditional_claims [OF 1]
  show ?case by (auto simp: releaseOne_def fun_eq_iff option.map_comp comp_def)
qed

text \<open>A physical layer that is just the set of armed addresses, and never fails.\<close>

definition armedSet :: "(u64 set) physical" where
  "armedSet = \<lparr>doSet = (\<lambda>a. modifyM (insert a)), doClear = (\<lambda>a. modifyM (\<lambda>A. A - {a}))\<rparr>"

text \<open>
  C8: each operation of the breakpoint map refines its abstract operation on claims. As long as
  no breakpoint is dead, a SetConditional that succeeds adds one claim of the go routine on the
  address (none where the breakpoint is unconditional), a ClearConditional takes one away, Set
  makes the address a hit for every go routine, ClearAllByGoRoutineID takes all conditional
  claims of the go routine away and no other, and the map still has no dead breakpoint.
\<close>

theorem breakpoint_operations_refine_claims:
  assumes "live m" and "dom m \<subseteq> set (mapOrder (dom m))"
  shows "(SetConditional ph a g (m, p) = (Ok (), (m1, p1)) \<longrightarrow>
            claims m1 = claimOne g a (claims m) \<and> live m1)
    \<and> (ClearConditional ph a g (m, p) = (Ok (), (m1, p1)) \<longrightarrow>
            claims m1 = releaseOne g a (claims m) \<and> live m1)
    \<and> (Set ph a (m, p) = (Ok (), (m1, p1)) \<longrightarrow>
            claims m1 = claimAlways a (claims m) \<and> live m1)
    \<and> (ClearAllByGoRoutineID ph mapOrder g (m, p) = (Ok (), (m1, p1)) \<longrightarrow>
            claims m1 = releaseAll g (claims m) \<and> live m1)"
  using assms
  by (blast dest: SetConditional_claims SetConditional_live ClearConditional_claims
      ClearConditional_live Set_claims Set_live ClearAllByGoRoutineID_claims)

definition exampleMap :: bps where
  "exampleMap = [7 \<mapsto> \<lparr>addr = 7, associateAll = False, associations = [1, 2, 1]\<rparr>,
                 9 \<mapsto> \<lparr>addr = 9, associateAll = True, associations = []\<rparr>]"

lemma exampleMap_live: "live exampleMap"
  by (auto simp: live_def exampleMap_def NoAssociation_def split: if_splits)

theorem breakpoint_operations_refine_claims_witness:
  "claims (exampleMap(7 \<mapsto> \<lparr>addr = 7, associateAll = False, associations = [1, 2, 1, 2]\<rparr>))
     = claimOne 2 7 (claims exampleMap)"
proof -
  have run: "SetConditional armedSet 7 2 (exampleMap, {7, 9}) = (Ok (),
      (exampleMap(7 \<mapsto> \<lparr>addr = 7, associateAll = False, associations = [1, 2, 1, 2]\<rparr>), {7, 9}))"
    by (simp add: SetConditional_run exampleMap_def NoAssociation_def Associate_def)
  have order: "dom exampleMap \<subseteq> set ((\<lambda>_. [7, 9]) (dom exampleMap))"
    by (simp add: exampleMap_def)
  show ?thesis
    using breakpoint_operations_refine_claims
        [OF exampleMap_live order, of armedSet 7 2 "{7, 9}"
          "exampleMap(7 \<mapsto> \<lparr>addr = 7, associateAll = False, associations = [1, 2, 1, 2]\<rparr>)" "{7, 9}"] run
    by blast
qed

text \<open>
  setting a conditional breakpoint any number of times for a go routine and clearing it as
  many times gives back the claims there were, and the same addresses: recursion on one return
  address neither loses the breakpoint nor leaves one behind.
\<close>

theorem set_clear_roundtrip:
  assumes "live m"
    and "seqM (forM (replicate n g) (SetConditional ph a)) (forM (replicate n g) (ClearConditional ph a))
           (m, p) = (Ok (), (m', p'))"
  shows "claims m' = claims m \<and> dom m' = dom m"
proof -
  from assms(2) obtain m1 p1
    where 1: "forM (replicate n g) (SetConditional ph a) (m, p) = (Ok (), (m1, p1))"
      and 2: "forM (replicate n g) (ClearConditional ph a) (m1, p1) = (Ok (), (m', p'))"
    by (auto simp: seqM_Ok)
  note s = SetConditional_repeat [OF assms(1) 1]
  note c = ClearConditional_repeat [OF conjunct2 [OF s] 2]
  from s c have C: "claims m' = claims m"
    by (auto simp: fun_eq_iff option.map_comp comp_def option.map_ident)
  then show ?thesis using assms(1) c by (simp add: dom_live)
qed

theorem set_clear_roundtrip_witness:
  "\<exists>m'. seqM (forM (replicate 2 5) (SetConditional armedSet 11))
          (forM (replicate 2 5) (ClearConditional armedSet 11)) (exampleMap, {7, 9})
        = (Ok (), (m', {7, 9})) \<and> claims m' = claims exampleMap \<and> dom m' = {7, 9}"
proof -
  have two: "replicate 2 (5::int) = [5, 5]" by (simp add: numeral_2_eq_2)
  have run: "seqM (forM (replicate 2 5) (SetConditional armedSet 11))
      (forM (replicate 2 5) (ClearConditional armedSet 11)) (exampleMap, {7, 9})
      = (Ok (), (exampleMap(11 := None), {7, 9}))"
    by (simp add: two seqM_def bindM_def SetConditional_run ClearConditional_run Clear_run
        armedSet_def exampleMap_def Associate_def NoAssociation_def Disassociate_eq insert_Diff_if)
  from set_clear_roundtrip [OF exampleMap_live run] have
    "claims (exampleMap(11 := None)) = claims exampleMap \<and> dom (exampleMap(11 := None)) = dom exampleMap" .
  with run show ?thesis by (auto simp: exampleMap_def)
qed

text \<open>
  Once ClearAllByGoRoutineID succeeds, the go routine hits a breakpoint only where every go
  routine does, that is, at a trace point set without a condition.
\<close>

theorem cleared_go_routine_hits_only_trace_points:
  assumes "dom m \<subseteq> set (mapOrder (dom m))"
    and "ClearAllByGoRoutineID ph mapOrder g (m, p) = (Ok (), (m', p'))"
    and "Hit m' a g"
  shows "\<forall>h. Hit m' a h"
proof -
  have "claims m' g a = map_option (\<lambda>_. 0) (claims m g a)"
    using ClearAllByGoRoutineID_claims(1) [OF assms(1,2)] by (simp add: releaseAll_def)
  with assms(3) have "claims m' g a = None" by (cases "claims m g a") (auto simp: Hit_iff_claims)
  then have "claims m' h a = None" for h
    by (auto simp: claims_def claimsOf_def split: option.splits if_splits)
  then show ?thesis by (simp add: Hit_iff_claims)
qed

theorem cleared_go_routine_hits_only_trace_points_witness:
  "\<exists>m' A. ClearAllByGoRoutineID armedSet (\<lambda>_. [9, 7]) 1 (exampleMap, {7, 9}) = (Ok (), (m', A))
     \<and> \<not> Hit m' 7 1 \<and> Hit m' 7 2 \<and> Hit m' 9 1 \<and> (\<forall>h. Hit m' 9 h)"
proof -
  define m' :: bps where
    "m' = exampleMap(9 \<mapsto> \<lparr>addr = 9, associateAll = True, associations = []\<rparr>,
                     7 \<mapsto> \<lparr>addr = 7, associateAll = False, associations = [2]\<rparr>)"
  have run: "ClearAllByGoRoutineID armedSet (\<lambda>_. [9, 7]) 1 (exampleMap, {7, 9}) = (Ok (), (m', {7, 9}))"
    by (simp add: ClearAllByGoRoutineID_def clearAllLoop_eq seqM_def bindM_def clearAllBody_def
        exampleMap_def m'_def disassociateLoop_eq NoAssociation_def)
  have order: "dom exampleMap \<subseteq> set ((\<lambda>_. [9, 7]) (dom exampleMap))"
    by (simp add: exampleMap_def)
  have hit: "Hit m' 9 1" by (simp add: Hit_def m'_def cbHit_def)
  show ?thesis
    using run hit cleared_go_routine_hits_only_trace_points [OF order run hit]
    by (auto simp: Hit_def m'_def cbHit_def)
qed

text \<open>
  C37: a breakpoint whose physical clear failed stays in the map with no go routine. From then
  on SetConditional for its address reports success to every go routine and changes nothing, so
  that none of them ever hits it: the guard of SetConditional is meant for breakpoints that Set
  made. What ends this is Set, which makes every go routine hit it, or another clear: Clear,
  ClearConditional and the visit of ClearAllByGoRoutineID to the address all try the physical clear
  again, whatever go routine they are for, and remove the entry when it succeeds.
\<close>

theorem failed_clear_leaves_a_dead_breakpoint:
  assumes "m a = Some \<lparr>addr = a, associateAll = False, associations = [g]\<rparr>"
    and "doClear ph a p = (Fail e, p')"
  shows "\<exists>m1. ClearConditional ph a g (m, p) = (Fail e, (m1, p')) \<and> Exist m1 a
    \<and> (\<forall>h q. SetConditional ph a h (m1, q) = (Ok (), (m1, q)) \<and> \<not> Hit m1 a h)
    \<and> (\<forall>h q. \<exists>m2. Set ph a (m1, q) = (Ok (), (m2, q)) \<and> Hit m2 a h)
    \<and> (\<forall>h q. ClearConditional ph a h (m1, q) = (case doClear ph a q of
          (Ok _, q') \<Rightarrow> (Ok (), (m1(a := None), q'))
        | (Fail e', q') \<Rightarrow> (Fail e', (m1, q'))
        | (Panic, q') \<Rightarrow> (Panic, (m1, q'))
        | (OutOfFuel, q') \<Rightarrow> (OutOfFuel, (m1, q')))
      \<and> Clear ph a (m1, q) = ClearConditional ph a h (m1, q)
      \<and> clearAllLoop ph h [a] (m1, q) = ClearConditional ph a h (m1, q))"
proof -
  let ?dead = "\<lparr>addr = a, associateAll = False, associations = []\<rparr>"
  let ?m1 = "m(a \<mapsto> ?dead)"
  have "ClearConditional ph a g (m, p) = (Fail e, (?m1, p'))"
    using assms by (simp add: ClearConditional_run Disassociate_eq NoAssociation_def Clear_run)
  moreover have "Exist ?m1 a" by (simp add: Exist_def)
  moreover have "SetConditional ph a h (?m1, q) = (Ok (), (?m1, q)) \<and> \<not> Hit ?m1 a h" for h q
    by (simp add: SetConditional_run NoAssociation_def Hit_def cbHit_def)
  moreover have "\<exists>m2. Set ph a (?m1, q) = (Ok (), (m2, q)) \<and> Hit m2 a h" for h q
    by (simp add: Set_def bindM_def seqM_def putBp_def Hit_def cbHit_def)
  moreover have "ClearConditional ph a h (?m1, q) = (case doClear ph a q of
          (Ok _, q') \<Rightarrow> (Ok (), (?m1(a := None), q'))
        | (Fail e', q') \<Rightarrow> (Fail e', (?m1, q'))
        | (Panic, q') \<Rightarrow> (Panic, (?m1, q'))
        | (OutOfFuel, q') \<Rightarrow> (OutOfFuel, (?m1, q')))
      \<and> Clear ph a (?m1, q) = ClearConditional ph a h (?m1, q)
      \<and> clearAllLoop ph h [a] (?m1, q) = ClearConditional ph a h (?m1, q)" for h q
    by (auto simp: ClearConditional_run Disassociate_eq NoAssociation_def Clear_run disassociateLoop_eq bindM_def seqM_def
        putBp_def split: prod.splits outcome.splits)
  ultimately show ?thesis by blast
qed

theorem failed_clear_leaves_a_dead_breakpoint_witness:
  "\<exists>m1. ClearConditional \<lparr>doSet = (\<lambda>_. returnM ()), doClear = (\<lambda>_. failM (ErrMsg ''EIO''))\<rparr> 7 3
      ([7 \<mapsto> \<lparr>addr = 7, associateAll = False, associations = [3]\<rparr>], ()) = (Fail (ErrMsg ''EIO''), (m1, ()))
    \<and> SetConditional \<lparr>doSet = (\<lambda>_. returnM ()), doClear = (\<lambda>_. failM (ErrMsg ''EIO''))\<rparr> 7 3 (m1, ())
      = (Ok (), (m1, ())) \<and> \<not> Hit m1 7 3"
proof -
  let ?ph = "\<lparr>doSet = (\<lambda>_. returnM ()), doClear = (\<lambda>_. failM (ErrMsg ''EIO''))\<rparr> :: unit physical"
  have 1: "[7 \<mapsto> \<lparr>addr = 7, associateAll = False, associations = [3]\<rparr>] (7::u64)
      = Some \<lparr>addr = (7::u64), associateAll = False, associations = [3::int]\<rparr>" by simp
  have 2: "doClear ?ph 7 () = (Fail (ErrMsg ''EIO''), ())" by simp
  show ?thesis using failed_clear_leaves_a_dead_breakpoint
        [of "[7 \<mapsto> \<lparr>addr = 7, associateAll = False, associations = [3]\<rparr>]" 7 3 ?ph "()", OF 1 2] by blast
qed

end
