(* ===== verification/Version.thy ===== *)
theory Version
  imports GoStrings "HOL-Library.Product_Lexorder"
begin

text \<open>
  tracee/version.go: parsing the version string of the tracee's Go runtime and comparing
  versions. The binary reader and the darwin client choose offsets and attributes by it.
\<close>

record GoVersion =
  Raw :: string
  Devel :: bool
  MajorVersion :: int
  MinorVersion :: int
  PatchVersion :: int

definition emptyVersion :: GoVersion where
  "emptyVersion = \<lparr>Raw = [], Devel = False, MajorVersion = 0, MinorVersion = 0, PatchVersion = 0\<rparr>"

definition ParseGoVersion :: "string \<Rightarrow> GoVersion" where
  "ParseGoVersion raw =
     (let goVersion = emptyVersion\<lparr>Raw := raw\<rparr> in
      if HasPrefix raw ''devel'' then goVersion\<lparr>Devel := True\<rparr>
      else if \<not> HasPrefix raw ''go'' then goVersion
      else
        let version = splitOn (CHR ''.'') (TrimPrefix raw ''go'');
            v1 = (if length version > 0 then goVersion\<lparr>MajorVersion := Atoi (version ! 0)\<rparr> else goVersion);
            v2 = (if length version > 1 then v1\<lparr>MinorVersion := Atoi (version ! 1)\<rparr> else v1)
        in if length version > 2 then v2\<lparr>PatchVersion := Atoi (version ! 2)\<rparr> else v2)"

definition LaterThan :: "GoVersion \<Rightarrow> GoVersion \<Rightarrow> bool" where
  "LaterThan v target =
     (if Devel v then True
      else if MajorVersion v > MajorVersion target then True
      else if MajorVersion v < MajorVersion target then False
      else if MinorVersion v > MinorVersion target then True
      else if MinorVersion v < MinorVersion target then False
      else PatchVersion v \<ge> PatchVersion target)"

text \<open>The version string of a release: two numbers, and a third one unless it is zero.\<close>

fun releaseString :: "nat \<times> nat \<times> nat \<Rightarrow> string" where
  "releaseString (major, minor, patch) =
     ''go'' @ dec_nat major @ ''.'' @ dec_nat minor @
     (if patch = 0 then [] else ''.'' @ dec_nat patch)"

definition versionKey :: "GoVersion \<Rightarrow> int \<times> int \<times> int" where
  "versionKey v = (MajorVersion v, MinorVersion v, PatchVersion v)"

lemma dec_nat_no_dot: "CHR ''.'' \<notin> set (dec_nat n)"
  using digits_avoid [OF dec_nat_digits sign_not_digit(3)] .

lemma split_release:
  "splitOn (CHR ''.'') (dec_nat a @ ''.'' @ dec_nat b) = [dec_nat a, dec_nat b]"
  "splitOn (CHR ''.'') (dec_nat a @ ''.'' @ dec_nat b @ ''.'' @ dec_nat c) = [dec_nat a, dec_nat b, dec_nat c]"
  by (simp_all add: splitOn_append splitOn_word dec_nat_no_dot)

lemma HasPrefix_go: "HasPrefix (''go'' @ s) ''go''" "\<not> HasPrefix (''go'' @ s) ''devel''"
  by (simp_all add: HasPrefix_def)

lemma parse_release:
  assumes "major < 2 ^ 63" and "minor < 2 ^ 63" and "patch < 2 ^ 63"
  shows "versionKey (ParseGoVersion (releaseString (major, minor, patch)))
      = (int major, int minor, int patch)
    \<and> \<not> Devel (ParseGoVersion (releaseString (major, minor, patch)))"
proof (cases "patch = 0")
  case True
  then show ?thesis
    using assms
    by (simp add: ParseGoVersion_def HasPrefix_go [simplified] TrimPrefix_append [of "''go''", simplified]
        split_release [simplified] versionKey_def Atoi_dec_nat emptyVersion_def Let_def)
next
  case False
  then show ?thesis
    using assms
    by (simp add: ParseGoVersion_def HasPrefix_go [simplified] TrimPrefix_append [of "''go''", simplified]
        split_release [simplified] versionKey_def Atoi_dec_nat emptyVersion_def Let_def)
qed

lemma LaterThan_release:
  "\<not> Devel v \<Longrightarrow> LaterThan v target \<longleftrightarrow> versionKey target \<le> versionKey v"
  by (auto simp: LaterThan_def versionKey_def less_eq_prod_def less_prod_def)

text \<open>
  of two release strings, the first parses to a version LaterThan the second exactly when
  its numbers are lexicographically greater or equal (each number below 2 to the 63, the range
  of the code's int): parsing loses nothing that the comparison needs, and a missing third
  number counts as zero.
\<close>

theorem releases_compare_by_their_numbers:
  assumes "a1 < 2 ^ 63" "a2 < 2 ^ 63" "a3 < 2 ^ 63" "b1 < 2 ^ 63" "b2 < 2 ^ 63" "b3 < 2 ^ 63"
  shows "LaterThan (ParseGoVersion (releaseString (a1, a2, a3))) (ParseGoVersion (releaseString (b1, b2, b3)))
    \<longleftrightarrow> b1 < a1 \<or> b1 = a1 \<and> (b2 < a2 \<or> b2 = a2 \<and> b3 \<le> a3)"
  using parse_release [OF assms(1-3)] parse_release [OF assms(4-6)]
  by (auto simp: LaterThan_release less_eq_prod_def less_prod_def)

theorem releases_compare_by_their_numbers_witness:
  "LaterThan (ParseGoVersion (releaseString (1, 11, 4))) (ParseGoVersion (releaseString (1, 11, 0)))
    \<and> \<not> LaterThan (ParseGoVersion (releaseString (1, 9, 4))) (ParseGoVersion (releaseString (1, 11, 0)))"
  using releases_compare_by_their_numbers [of 1 11 4 1 11 0]
    releases_compare_by_their_numbers [of 1 9 4 1 11 0] by simp

text \<open>
  the version string of a pre-release keeps no minor version: the part behind the dot is
  not a number, Atoi fails and its zero is used, so go1.12rc1 compares as older than go1.11.
\<close>

theorem prerelease_is_parsed_as_minor_zero:
  "versionKey (ParseGoVersion ''go1.12rc1'') = (1, 0, 0)
     \<and> \<not> LaterThan (ParseGoVersion ''go1.12rc1'') (ParseGoVersion ''go1.11'')"
  by (simp add: ParseGoVersion_def HasPrefix_def TrimPrefix_def Atoi_def isDigit_def decVal_def
      digitVal_def versionKey_def emptyVersion_def LaterThan_def Let_def)

end
