(* ===== verification/Process.thy ===== *)
theory Process
  imports Params Value LinuxClient Breakpoints Version
begin

text \<open>
  tracee/process.go: the tracee process. Its state is the state of the debug api client, the
  map of the physical breakpoints with the bytes they replaced, and how often the binary was
  closed; what newProcess fixes once (the client, the binary, the module data and, for code
  outside the repository, the decoder of instructions) is the record \<open>'c procEnv\<close>.
\<close>

section \<open>State and environment\<close>

definition breakpointInsts :: "u8 list" where
  "breakpointInsts = [0xcc]"

record breakpoint =
  bpAddr :: u64
  orgInsts :: "u8 list"

datatype opcode = CALL | LCALL | OtherOp

record Inst =
  Op :: opcode
  Len :: nat

record 'c Process =
  clientState :: 'c
  procBreakpoints :: "u64 \<Rightarrow> breakpoint option"
  closeCount :: nat

record 'c procEnv =
  debugapiClient :: "'c client"
  Binary :: BinaryFile
  GoVer :: GoVersion
  moduleDataList :: "moduleData list"
  x86Decode :: "u8 list \<Rightarrow> Inst \<times> error option"
  bpOrder :: "u64 set \<Rightarrow> u64 list"
  onDarwin :: bool
  formatter :: fmtEnv

definition onClient :: "('c, 'a) prog \<Rightarrow> ('c Process, 'a) prog" where
  "onClient = zoomM clientState (\<lambda>c p. p\<lparr>clientState := c\<rparr>)"

definition readMem :: "'c procEnv \<Rightarrow> u64 \<Rightarrow> nat \<Rightarrow> 'c Process \<Rightarrow> u8 list outcome" where
  "readMem env a n p = ReadMemory (debugapiClient env) a n (clientState p)"

definition writeMem :: "'c procEnv \<Rightarrow> u64 \<Rightarrow> u8 list \<Rightarrow> ('c Process, unit) prog" where
  "writeMem env a bs = onClient (WriteMemory (debugapiClient env) a bs)"

section \<open>Setting up and letting go\<close>

text \<open>The list of module data follows the next pointers of the tracee's memory: with fuel.\<close>

fun parseModuleDataList :: "nat \<Rightarrow> (nat \<Rightarrow> dtype) \<Rightarrow> dtype \<Rightarrow> memoryReader \<Rightarrow> u64 \<Rightarrow> moduleData list outcome" where
  "parseModuleDataList 0 types mdType rd a = OutOfFuel"
| "parseModuleDataList (Suc fuel) types mdType rd a =
     (if a = 0 then Ok []
      else bindO (newModuleData types a mdType) (\<lambda>md.
           bindO (mdNext md rd) (\<lambda>next.
           bindO (parseModuleDataList fuel types mdType rd next) (\<lambda>mds. Ok (md # mds)))))"

text \<open>The fields of \<open>env\<close> that newProcess does not set come from the build and the libraries.\<close>

definition newProcess ::
    "nat \<Rightarrow> 'c procEnv \<Rightarrow> (GoVersion \<Rightarrow> BinaryFile outcome) \<Rightarrow> string \<Rightarrow> u64 \<Rightarrow> 'c \<Rightarrow> ('c procEnv \<times> 'c Process) outcome" where
  "newProcess fuel env openBinaryFile compiledGoVersion firstModuleDataAddr c =
     (let v = ParseGoVersion compiledGoVersion in
      bindO (openBinaryFile v) (\<lambda>bin.
      bindO (parseModuleDataList fuel (typeAt bin) (moduleDataType bin)
               (\<lambda>a n. ReadMemory (debugapiClient env) a n c) firstModuleDataAddr) (\<lambda>mds.
        Ok (env\<lparr>Binary := bin, GoVer := v, moduleDataList := mds\<rparr>,
            \<lparr>clientState = c, procBreakpoints = Map.empty, closeCount = 0\<rparr>))))"

definition closeBinary :: "'c procEnv \<Rightarrow> ('c Process, unit) prog" where
  "closeBinary env = bindM (getsM closeCount) (\<lambda>n.
     seqM (modifyM (\<lambda>p. p\<lparr>closeCount := n + 1\<rparr>)) (readM (\<lambda>_. bfClose (Binary env) n)))"

section \<open>Breakpoints\<close>

definition SetBreakpoint :: "'c procEnv \<Rightarrow> u64 \<Rightarrow> ('c Process, unit) prog" where
  "SetBreakpoint env a = bindM (getsM (\<lambda>p. procBreakpoints p a)) (\<lambda>e. case e of
       Some _ \<Rightarrow> returnM ()
     | None \<Rightarrow>
         bindM (readM (readMem env a (length breakpointInsts))) (\<lambda>originalInsts.
         seqM (writeMem env a breakpointInsts)
           (modifyM (\<lambda>p. p\<lparr>procBreakpoints := (procBreakpoints p)
               (a \<mapsto> \<lparr>bpAddr = a, orgInsts = originalInsts\<rparr>)\<rparr>))))"

definition ClearBreakpoint :: "'c procEnv \<Rightarrow> u64 \<Rightarrow> ('c Process, unit) prog" where
  "ClearBreakpoint env a = bindM (getsM (\<lambda>p. procBreakpoints p a)) (\<lambda>e. case e of
       None \<Rightarrow> returnM ()
     | Some bp \<Rightarrow>
         seqM (writeMem env a (orgInsts bp))
           (modifyM (\<lambda>p. p\<lparr>procBreakpoints := (procBreakpoints p)(a := None)\<rparr>)))"

definition ExistBreakpoint :: "u64 \<Rightarrow> 'c Process \<Rightarrow> bool" where
  "ExistBreakpoint a p = (case procBreakpoints p a of None \<Rightarrow> False | Some _ \<Rightarrow> True)"

text \<open>The range over the map in an order Go leaves open; errors are only logged.\<close>

definition clearLogged :: "'c procEnv \<Rightarrow> u64 \<Rightarrow> ('c Process, unit) prog" where
  "clearLogged env a = catchM (ClearBreakpoint env a) (\<lambda>e. returnM ())"

definition Detach :: "'c procEnv \<Rightarrow> ('c Process, unit) prog" where
  "Detach env = bindM (getsM (\<lambda>p. dom (procBreakpoints p))) (\<lambda>addrs.
     seqM (forM (bpOrder env addrs) (clearLogged env))
       (seqM (onClient (DetachProcess (debugapiClient env))) (closeBinary env)))"

section \<open>Running and stepping\<close>

text \<open>
  The exit events close the binary, and the result of that is the error that is returned. The
  event of a failed call is the zero event, which is not an exit event.
\<close>

definition closeOnExit :: "'c procEnv \<Rightarrow> Event \<Rightarrow> ('c Process, Event) prog" where
  "closeOnExit env event =
     (if IsExitEvent (eventType event) then seqM (closeBinary env) (returnM event) else returnM event)"

definition procContinueAndWait :: "'c procEnv \<Rightarrow> ('c Process, Event) prog" where
  "procContinueAndWait env = bindM (onClient (ContinueAndWait (debugapiClient env))) (closeOnExit env)"

definition setPC :: "'c procEnv \<Rightarrow> int \<Rightarrow> u64 \<Rightarrow> ('c Process, unit) prog" where
  "setPC env threadID a =
     bindM (readM (\<lambda>p. ReadRegisters (debugapiClient env) threadID (clientState p))) (\<lambda>regs.
       onClient (WriteRegisters (debugapiClient env) threadID (regs\<lparr>Rip := a\<rparr>)))"

definition stepAndWait :: "'c procEnv \<Rightarrow> int \<Rightarrow> ('c Process, Event) prog" where
  "stepAndWait env threadID = bindM (onClient (StepAndWait (debugapiClient env) threadID)) (closeOnExit env)"

text \<open>
  SingleStep and singleStepUnspecifiedThreads call each other: with fuel. The second is the
  loop in the error branch, in which threads other than the stepped one are stepped first.
\<close>

fun SingleStep :: "nat \<Rightarrow> 'c procEnv \<Rightarrow> int \<Rightarrow> u64 \<Rightarrow> ('c Process, unit) prog" where
  "SingleStep 0 env threadID trappedAddr = outOfFuelM"
| "SingleStep (Suc fuel) env threadID trappedAddr =
     seqM (setPC env threadID trappedAddr)
    (bindM (getsM (\<lambda>p. procBreakpoints p trappedAddr)) (\<lambda>bp.
     seqM (case bp of None \<Rightarrow> returnM () | Some b \<Rightarrow> writeMem env trappedAddr (orgInsts b))
    (branchM (stepAndWait env threadID)
       (\<lambda>_. case bp of None \<Rightarrow> returnM () | Some _ \<Rightarrow> writeMem env trappedAddr breakpointInsts)
       (\<lambda>err. case err of
          UnspecifiedThreadError threadIDs \<Rightarrow>
            seqM (forM threadIDs (\<lambda>unspecifiedThread.
                    if unspecifiedThread = threadID then returnM ()
                    else bindM (readM (\<lambda>p. ReadRegisters (debugapiClient env) unspecifiedThread (clientState p)))
                      (\<lambda>regs. SingleStep fuel env unspecifiedThread (Rip regs - 1))))
              (SingleStep fuel env threadID trappedAddr)
        | _ \<Rightarrow> failM err))))"

section \<open>Functions, arguments and instructions\<close>

definition procReader :: "'c procEnv \<Rightarrow> 'c Process \<Rightarrow> memoryReader" where
  "procReader env p = (\<lambda>a n. readMem env a n p)"

definition procFindFunction :: "nat \<Rightarrow> 'c procEnv \<Rightarrow> u64 \<Rightarrow> 'c Process \<Rightarrow> Function outcome" where
  "procFindFunction fuel env pc p = FindFunction fuel (Binary env) (moduleDataList env) (procReader env p) pc"

text \<open>
  mapRuntimeType looks for the module whose types contain the address; when there is none the
  module is nil and reading its start panics.
\<close>

fun findTypeModule :: "moduleData list \<Rightarrow> memoryReader \<Rightarrow> u64 \<Rightarrow> moduleData option outcome" where
  "findTypeModule [] rd a = Ok None"
| "findTypeModule (md # mds) rd a =
     bindO (mdTypes md rd) (\<lambda>lo.
       if lo \<le> a then
         bindO (etypes md rd) (\<lambda>hi. if a < hi then Ok (Some md) else findTypeModule mds rd a)
       else findTypeModule mds rd a)"

definition procMapRuntimeType :: "'c procEnv \<Rightarrow> 'c Process \<Rightarrow> u64 \<Rightarrow> dtype outcome" where
  "procMapRuntimeType env p runtimeTypeAddr =
     bindO (findTypeModule (moduleDataList env) (procReader env p) runtimeTypeAddr) (\<lambda>m. case m of
         None \<Rightarrow> Panic
       | Some md \<Rightarrow> bindO (mdTypes md (procReader env p)) (\<lambda>lo.
           findDwarfTypeByAddr (Binary env) (runtimeTypeAddr - lo)))"

definition procParser :: "'c procEnv \<Rightarrow> 'c Process \<Rightarrow> valueParser" where
  "procParser env p = \<lparr>reader = procReader env p, vpTypeAt = typeAt (Binary env),
     mapRuntimeType = Some (procMapRuntimeType env p)\<rparr>"

text \<open>
  An argument is a closure over its parameter and the address of the argument area: the value is
  read and parsed when the argument is printed.
\<close>

record Argument =
  argName :: string
  argTyp :: dtype
  argAddr :: u64
  argExists :: bool

record StackFrame =
  frameFunction :: Function
  InputArguments :: "Argument list"
  OutputArguments :: "Argument list"
  ReturnAddress :: u64

definition argumentOf :: "u64 \<Rightarrow> Parameter \<Rightarrow> Argument" where
  "argumentOf addrBeginningOfArgs param =
     \<lparr>argName = pName param, argTyp = Typ param,
      argAddr = addrBeginningOfArgs + of_int (Offset param), argExists = Exists param\<rparr>"

definition currentArgs :: "Parameter list \<Rightarrow> u64 \<Rightarrow> Argument list \<times> Argument list" where
  "currentArgs params addrBeginningOfArgs =
     (map (argumentOf addrBeginningOfArgs) (filter (\<lambda>param. \<not> IsOutput param) params),
      map (argumentOf addrBeginningOfArgs) (filter IsOutput params))"

definition argParseValue :: "nat \<Rightarrow> 'c procEnv \<Rightarrow> Argument \<Rightarrow> int \<Rightarrow> 'c Process \<Rightarrow> val option outcome" where
  "argParseValue fuel env arg depth p =
     (if \<not> argExists arg then Ok None
      else bindO (bufferSize (argTyp arg)) (\<lambda>size.
        case readMem env (argAddr arg) size p of
          Ok buff \<Rightarrow> bindO (parseValue fuel (procParser env p) (argTyp arg) buff depth) (\<lambda>v. Ok (Some v))
        | Fail e \<Rightarrow> Ok None
        | Panic \<Rightarrow> Panic
        | OutOfFuel \<Rightarrow> OutOfFuel))"

definition ParseValue :: "nat \<Rightarrow> 'c procEnv \<Rightarrow> Argument \<Rightarrow> int \<Rightarrow> 'c Process \<Rightarrow> string outcome" where
  "ParseValue fuel env arg depth p =
     bindO (argParseValue fuel env arg depth p) (\<lambda>v.
     bindO (case v of None \<Rightarrow> Ok ''-'' | Some u \<Rightarrow> valString (formatter env) u) (\<lambda>valStr.
       Ok (if argName arg = [] then valStr else argName arg @ '' = '' @ valStr)))"

definition StackFrameAt :: "nat \<Rightarrow> 'c procEnv \<Rightarrow> u64 \<Rightarrow> u64 \<Rightarrow> 'c Process \<Rightarrow> StackFrame outcome" where
  "StackFrameAt fuel env rsp rip p =
     bindO (procFindFunction fuel env rip p) (\<lambda>f.
     bindO (bindO (readMem env rsp 8 p) Uint64) (\<lambda>retAddr.
       let (inputArgs, outputArgs) = currentArgs (Parameters f) (rsp + 8) in
       Ok \<lparr>frameFunction = f, InputArguments = inputArgs, OutputArguments = outputArgs,
           ReturnAddress = retAddr\<rparr>))"

text \<open>
  The original bytes of the breakpoints of the function are copied over what was read. The
  buffer of a function that ends before it starts, or is larger than an allocation may be,
  makes the allocation panic.
\<close>

definition copyAt :: "u8 list \<Rightarrow> nat \<Rightarrow> u8 list \<Rightarrow> u8 list" where
  "copyAt buff off bs = take off buff @ take (length buff - off) bs @ drop (off + length bs) buff"

definition restoreOriginals :: "Function \<Rightarrow> (u64 \<Rightarrow> breakpoint option) \<Rightarrow> u64 list \<Rightarrow> u8 list \<Rightarrow> u8 list" where
  "restoreOriginals f bps order buff =
     fold (\<lambda>a buff. case bps a of
        None \<Rightarrow> buff
      | Some bp \<Rightarrow> if StartAddr f \<le> a \<and> a < EndAddr f
          then copyAt buff (unat (a - StartAddr f)) (orgInsts bp) else buff) order buff"

fun decodeLoop :: "nat \<Rightarrow> (u8 list \<Rightarrow> Inst \<times> error option) \<Rightarrow> nat \<Rightarrow> u8 list \<Rightarrow> Inst list outcome" where
  "decodeLoop 0 decode pos buff = OutOfFuel"
| "decodeLoop (Suc fuel) decode pos buff =
     (if pos < length buff then
        (case decode (drop pos buff) of (inst, err) \<Rightarrow>
           bindO (decodeLoop fuel decode (pos + Len inst) buff) (\<lambda>insts.
             Ok (case err of None \<Rightarrow> inst # insts | Some e \<Rightarrow> insts)))
      else Ok [])"

definition ReadInstructions :: "nat \<Rightarrow> 'c procEnv \<Rightarrow> Function \<Rightarrow> 'c Process \<Rightarrow> Inst list outcome" where
  "ReadInstructions fuel env f p =
     (if EndAddr f = 0 then Fail (ErrMsg ''the end address of the function is unknown'')
      else bindO (makeSize (uint (EndAddr f - StartAddr f))) (\<lambda>n.
           bindO (readMem env (StartAddr f) n p) (\<lambda>buff.
             decodeLoop fuel (x86Decode env) 0
               (restoreOriginals f (procBreakpoints p) (bpOrder env (dom (procBreakpoints p))) buff))))"

section \<open>Go routines and threads\<close>

record PanicHandler =
  UsedStackSizeAtDefer :: u64
  PCAtDefer :: u64

record GoRoutineInfo =
  ID :: int
  UsedStackSize :: u64
  CurrentPC :: u64
  CurrentStackAddr :: u64
  NextDeferFuncAddr :: u64
  Panicking :: bool
  Handler :: "PanicHandler option"

record ThreadInfo =
  threadID :: int
  threadPC :: u64
  threadStackAddr :: u64

text \<open>The offset of the g pointer in the thread-local storage, on Linux and on Darwin.\<close>

definition offsetToG_linux :: "32 word" where
  "offsetToG_linux = -8"

definition offsetToG_darwin :: "GoVersion \<Rightarrow> 32 word" where
  "offsetToG_darwin v =
     (if LaterThan v (emptyVersion\<lparr>MajorVersion := 1, MinorVersion := 11\<rparr>) then 0x30 else 0x8a0)"

definition offsetToG :: "'c procEnv \<Rightarrow> 32 word" where
  "offsetToG env = (if onDarwin env then offsetToG_darwin (GoVer env) else offsetToG_linux)"

fun stripTypedefs :: "dtype \<Rightarrow> dtype" where
  "stripTypedefs (TypedefType name t) = stripTypedefs t"
| "stripTypedefs t = t"

definition findFieldInStruct :: "memoryReader \<Rightarrow> u64 \<Rightarrow> dtype \<Rightarrow> string \<Rightarrow> (dtype \<times> u8 list) outcome" where
  "findFieldInStruct rd structAddr structType name = (case stripTypedefs structType of
       StructType sname n fs \<Rightarrow>
         (case findField fs name of
            None \<Rightarrow> Fail (ErrMsg ''field not found'')
          | Some field \<Rightarrow>
              bindO (bufferSize (fieldType field)) (\<lambda>size.
                case rd (structAddr + of_nat (byteOffset field)) size of
                  Ok buff \<Rightarrow> Ok (fieldType field, buff)
                | Fail e \<Rightarrow> Fail (Wrapped ''failed to read memory'' e)
                | Panic \<Rightarrow> Panic
                | OutOfFuel \<Rightarrow> OutOfFuel))
     | _ \<Rightarrow> Panic)"

definition wordField :: "memoryReader \<Rightarrow> u64 \<Rightarrow> dtype \<Rightarrow> string \<Rightarrow> u64 outcome" where
  "wordField rd structAddr structType name =
     bindO (findFieldInStruct rd structAddr structType name) (\<lambda>(_, rawVal). Uint64 rawVal)"

text \<open>The assertion that the type of the field _defer is a pointer, and the type it points to.\<close>

definition deferTarget :: "BinaryFile \<Rightarrow> dtype \<Rightarrow> dtype outcome" where
  "deferTarget bin t = (case t of
       PtrType n (Ref target) \<Rightarrow> Ok (typeAt bin target)
     | PtrType n VoidRef \<Rightarrow> Ok VoidType
     | PtrType n NilRef \<Rightarrow> Ok (OtherType 0)
     | _ \<Rightarrow> Panic)"

definition findNextDeferFuncAddr :: "BinaryFile \<Rightarrow> memoryReader \<Rightarrow> u64 \<Rightarrow> u64 outcome" where
  "findNextDeferFuncAddr bin rd gAddr =
     bindO (findFieldInStruct rd gAddr (runtimeGType bin) ''_defer'') (\<lambda>(ptrToDeferType, rawVal).
     bindO (Uint64 rawVal) (\<lambda>deferAddr.
       if deferAddr = 0 then Ok 0
       else bindO (deferTarget bin ptrToDeferType) (\<lambda>dType.
            bindO (wordField rd deferAddr dType ''fn'') (\<lambda>ptrToFuncAddr.
              case rd ptrToFuncAddr 8 of
                Ok buff \<Rightarrow> Uint64 buff
              | Fail e \<Rightarrow> Fail (Wrapped ''failed to read memory'' e)
              | Panic \<Rightarrow> Panic
              | OutOfFuel \<Rightarrow> OutOfFuel))))"

text \<open>The walk along the deferred calls to the one that handles the panic: with fuel.\<close>

fun findDefer :: "nat \<Rightarrow> memoryReader \<Rightarrow> dtype \<Rightarrow> u64 \<Rightarrow> u64 \<Rightarrow> u64 outcome" where
  "findDefer 0 rd dType panicAddr deferAddr = OutOfFuel"
| "findDefer (Suc fuel) rd dType panicAddr deferAddr =
     (if deferAddr = 0 then Ok 0
      else bindO (wordField rd deferAddr dType ''_panic'') (\<lambda>panicInDefer.
        if panicInDefer = panicAddr then Ok deferAddr
        else bindO (wordField rd deferAddr dType ''link'') (findDefer fuel rd dType panicAddr)))"

definition findPanicHandler ::
    "nat \<Rightarrow> BinaryFile \<Rightarrow> memoryReader \<Rightarrow> u64 \<Rightarrow> u64 \<Rightarrow> u64 \<Rightarrow> PanicHandler option outcome" where
  "findPanicHandler fuel bin rd gAddr panicAddr stackHi =
     bindO (findFieldInStruct rd gAddr (runtimeGType bin) ''_defer'') (\<lambda>(ptrToDeferType, rawVal).
     bindO (Uint64 rawVal) (\<lambda>firstDefer.
     bindO (deferTarget bin ptrToDeferType) (\<lambda>dType.
     bindO (findDefer fuel rd dType panicAddr firstDefer) (\<lambda>deferAddr.
       if deferAddr = 0 then Ok None
       else bindO (wordField rd deferAddr dType ''sp'') (\<lambda>stackAddress.
            bindO (wordField rd deferAddr dType ''pc'') (\<lambda>pc.
              Ok (Some \<lparr>UsedStackSizeAtDefer = stackHi - stackAddress, PCAtDefer = pc\<rparr>)))))))"

text \<open>What CurrentGoRoutineInfo reads of a stopped thread, once the address of its g is known.\<close>

definition goRoutineInfoAt :: "nat \<Rightarrow> 'c procEnv \<Rightarrow> int \<Rightarrow> u64 \<Rightarrow> 'c Process \<Rightarrow> GoRoutineInfo outcome" where
  "goRoutineInfoAt fuel env tid gAddr p =
     (let rd = procReader env p; bin = Binary env in
      bindO (wordField rd gAddr (runtimeGType bin) ''goid'') (\<lambda>goid.
      bindO (findFieldInStruct rd gAddr (runtimeGType bin) ''stack'') (\<lambda>(stackType, stackRawVal).
      bindO (parseValue fuel (procParser env p) stackType stackRawVal 1) (\<lambda>stackVal.
      bindO (bindO (fieldOf ''hi'' stackVal) asUint64) (\<lambda>stackHi.
      bindO (ReadRegisters (debugapiClient env) tid (clientState p)) (\<lambda>regs.
      bindO (wordField rd gAddr (runtimeGType bin) ''_panic'') (\<lambda>panicAddr.
      bindO (findPanicHandler fuel bin rd gAddr panicAddr stackHi) (\<lambda>panicHandler.
      bindO (findNextDeferFuncAddr bin rd gAddr) (\<lambda>nextDeferFuncAddr.
        Ok \<lparr>ID = sint goid, UsedStackSize = stackHi - Rsp regs, CurrentPC = Rip regs,
            CurrentStackAddr = Rsp regs, NextDeferFuncAddr = nextDeferFuncAddr,
            Panicking = (panicAddr \<noteq> 0), Handler = panicHandler\<rparr>)))))))))"

text \<open>The loop of singleStepUnspecifiedThreads, also the error branch of SingleStep.\<close>

definition singleStepUnspecifiedThreads ::
    "nat \<Rightarrow> 'c procEnv \<Rightarrow> int \<Rightarrow> int list \<Rightarrow> ('c Process, unit) prog" where
  "singleStepUnspecifiedThreads fuel env tid threadIDs =
     forM threadIDs (\<lambda>unspecifiedThread.
       if unspecifiedThread = tid then returnM ()
       else bindM (readM (\<lambda>p. ReadRegisters (debugapiClient env) unspecifiedThread (clientState p)))
         (\<lambda>regs. SingleStep fuel env unspecifiedThread (Rip regs - 1)))"

lemma SingleStep_error_branch:
  "SingleStep (Suc fuel) env tid a =
     seqM (setPC env tid a)
    (bindM (getsM (\<lambda>p. procBreakpoints p a)) (\<lambda>bp.
     seqM (case bp of None \<Rightarrow> returnM () | Some b \<Rightarrow> writeMem env a (orgInsts b))
    (branchM (stepAndWait env tid)
       (\<lambda>_. case bp of None \<Rightarrow> returnM () | Some _ \<Rightarrow> writeMem env a breakpointInsts)
       (\<lambda>err. case err of
          UnspecifiedThreadError threadIDs \<Rightarrow>
            seqM (singleStepUnspecifiedThreads fuel env tid threadIDs) (SingleStep fuel env tid a)
        | _ \<Rightarrow> failM err))))"
  unfolding SingleStep.simps singleStepUnspecifiedThreads_def ..

fun CurrentGoRoutineInfo :: "nat \<Rightarrow> 'c procEnv \<Rightarrow> int \<Rightarrow> ('c Process, GoRoutineInfo) prog" where
  "CurrentGoRoutineInfo 0 env tid = outOfFuelM"
| "CurrentGoRoutineInfo (Suc fuel) env tid =
     branchM (onClient (ReadTLS (debugapiClient env) tid (offsetToG env)))
       (\<lambda>gAddr. readM (goRoutineInfoAt fuel env tid gAddr))
       (\<lambda>err. case err of
          UnspecifiedThreadError threadIDs \<Rightarrow>
            seqM (singleStepUnspecifiedThreads fuel env tid threadIDs) (CurrentGoRoutineInfo fuel env tid)
        | _ \<Rightarrow> failM err)"

definition CurrentThreadInfo :: "'c procEnv \<Rightarrow> int \<Rightarrow> 'c Process \<Rightarrow> ThreadInfo outcome" where
  "CurrentThreadInfo env tid p =
     bindO (ReadRegisters (debugapiClient env) tid (clientState p)) (\<lambda>regs.
       Ok \<lparr>threadID = tid, threadPC = Rip regs, threadStackAddr = Rsp regs\<rparr>)"

section \<open>The process provides the physical breakpoints\<close>

text \<open>
  The closures NewBreakpoints is given: the armed addresses are those of the process's map,
  whatever the client is and however its calls end.
\<close>

definition procPhysical :: "'c procEnv \<Rightarrow> 'c Process physical" where
  "procPhysical env = \<lparr>doSet = SetBreakpoint env, doClear = ClearBreakpoint env\<rparr>"

definition armedAddrs :: "'c Process \<Rightarrow> u64 set" where
  "armedAddrs p = dom (procBreakpoints p)"

lemma onClient_run: "onClient m p = (case m (clientState p) of (r, c) \<Rightarrow> (r, p\<lparr>clientState := c\<rparr>))"
  by (simp add: onClient_def zoomM_def)

lemma SetBreakpoint_run:
  "SetBreakpoint env a p = (case procBreakpoints p a of
       Some _ \<Rightarrow> (Ok (), p)
     | None \<Rightarrow> (case readMem env a 1 p of
           Ok bs \<Rightarrow> (case WriteMemory (debugapiClient env) a [0xcc] (clientState p) of
               (Ok _, c) \<Rightarrow> (Ok (), p\<lparr>clientState := c, procBreakpoints := (procBreakpoints p)
                   (a \<mapsto> \<lparr>bpAddr = a, orgInsts = bs\<rparr>)\<rparr>)
             | (r, c) \<Rightarrow> (r, p\<lparr>clientState := c\<rparr>))
         | Fail e \<Rightarrow> (Fail e, p)
         | Panic \<Rightarrow> (Panic, p)
         | OutOfFuel \<Rightarrow> (OutOfFuel, p)))"
  by (auto simp: SetBreakpoint_def bindM_readM breakpointInsts_def seqM_def bindM_def writeMem_def
      onClient_run split: option.splits outcome.splits prod.splits)

lemma ClearBreakpoint_run:
  "ClearBreakpoint env a p = (case procBreakpoints p a of
       None \<Rightarrow> (Ok (), p)
     | Some bp \<Rightarrow> (case WriteMemory (debugapiClient env) a (orgInsts bp) (clientState p) of
           (Ok _, c) \<Rightarrow> (Ok (), p\<lparr>clientState := c, procBreakpoints := (procBreakpoints p)(a := None)\<rparr>)
         | (r, c) \<Rightarrow> (r, p\<lparr>clientState := c\<rparr>)))"
  by (auto simp: ClearBreakpoint_def seqM_def bindM_def writeMem_def getsM_def onClient_run
      split: option.splits outcome.splits prod.splits)

interpretation proc: physical_breakpoints "procPhysical env" armedAddrs for env
proof
  fix a p p'
  assume "doSet (procPhysical env) a p = (Ok (), p')"
  then show "armedAddrs p' = insert a (armedAddrs p)"
    by (auto simp: procPhysical_def armedAddrs_def SetBreakpoint_run
        split: option.splits outcome.splits prod.splits)
next
  fix a p r p'
  assume "doSet (procPhysical env) a p = (r, p')" and "r \<noteq> Ok ()"
  then show "armedAddrs p' = armedAddrs p"
    by (auto simp: procPhysical_def armedAddrs_def SetBreakpoint_run
        split: option.splits outcome.splits prod.splits)
next
  fix a p p'
  assume "doClear (procPhysical env) a p = (Ok (), p')"
  then show "armedAddrs p' = armedAddrs p - {a}"
    by (auto simp: procPhysical_def armedAddrs_def ClearBreakpoint_run
        split: option.splits outcome.splits prod.splits if_splits)
next
  fix a p r p'
  assume "doClear (procPhysical env) a p = (r, p')" and "r \<noteq> Ok ()"
  then show "armedAddrs p' = armedAddrs p"
    by (auto simp: procPhysical_def armedAddrs_def ClearBreakpoint_run
        split: option.splits outcome.splits prod.splits)
qed

end
