(* ===== verification/Patching.thy ===== *)
theory Patching
  imports Process
begin

text \<open>
  The program text of the tracee under the process's breakpoints. At every moment, and after
  every call however it ends, each byte of the text is the original byte, or the breakpoint
  instruction at an address of the breakpoint map, whose entry holds the original byte
  (\<open>traced\<close>). When the calls succeed, every breakpoint of the map is in place (\<open>patchedAt\<close>).
  The client's part in this is the interface \<open>tracee_text\<close>.
\<close>

section \<open>The invariant\<close>

definition entriesOriginal :: "u64 set \<Rightarrow> (u64 \<Rightarrow> u8) \<Rightarrow> 'c Process \<Rightarrow> bool" where
  "entriesOriginal code orig p \<longleftrightarrow>
     (\<forall>x bp. procBreakpoints p x = Some bp \<longrightarrow>
        length (orgInsts bp) = 1 \<and> (x \<in> code \<longrightarrow> orgInsts bp = [orig x]))"

lemma entriesOriginal_byte:
  assumes "entriesOriginal code orig p" and "procBreakpoints p x = Some bp"
  obtains b where "orgInsts bp = [b]" and "x \<in> code \<Longrightarrow> b = orig x"
  using assms unfolding entriesOriginal_def by (metis One_nat_def length_0_conv length_Suc_conv list.inject)

definition traced :: "('c \<Rightarrow> u64 \<Rightarrow> u8) \<Rightarrow> u64 set \<Rightarrow> (u64 \<Rightarrow> u8) \<Rightarrow> 'c Process \<Rightarrow> bool" where
  "traced memory code orig p \<longleftrightarrow> entriesOriginal code orig p \<and>
     (\<forall>x\<in>code. memory (clientState p) x = orig x \<or>
        procBreakpoints p x \<noteq> None \<and> memory (clientState p) x = 0xcc)"

definition patchedAt :: "('c \<Rightarrow> u64 \<Rightarrow> u8) \<Rightarrow> (u64 \<Rightarrow> u8) \<Rightarrow> 'c Process \<Rightarrow> u64 \<Rightarrow> bool" where
  "patchedAt memory orig p x \<longleftrightarrow>
     memory (clientState p) x = (if procBreakpoints p x = None then orig x else 0xcc)"

definition patched :: "('c \<Rightarrow> u64 \<Rightarrow> u8) \<Rightarrow> u64 set \<Rightarrow> (u64 \<Rightarrow> u8) \<Rightarrow> 'c Process \<Rightarrow> bool" where
  "patched memory code orig p \<longleftrightarrow>
     entriesOriginal code orig p \<and> (\<forall>x\<in>code. patchedAt memory orig p x)"

lemma patched_traced: "patched memory code orig p \<Longrightarrow> traced memory code orig p"
  by (auto simp: patched_def traced_def patchedAt_def split: if_splits)

text \<open>The frame of the calls that leave the map of breakpoints as it is.\<close>

definition stepFrame ::
    "('c \<Rightarrow> u64 \<Rightarrow> u8) \<Rightarrow> u64 set \<Rightarrow> (u64 \<Rightarrow> u8) \<Rightarrow> (u64 \<Rightarrow> breakpoint option) \<Rightarrow> 'c Process \<Rightarrow> 'c Process \<Rightarrow> bool" where
  "stepFrame memory code orig B p p' \<longleftrightarrow>
     (procBreakpoints p = B \<and> traced memory code orig p \<longrightarrow>
      procBreakpoints p' = B \<and> traced memory code orig p')"

interpretation step: frame "stepFrame memory code orig B" for memory code orig B
  by unfold_locales (auto simp: stepFrame_def)

lemma stepFrame_gets:
  fixes f :: "breakpoint option \<Rightarrow> ('c Process, 'b) prog"
  assumes "keeps (stepFrame memory code orig B) (f (B a))"
  shows "keeps (stepFrame memory code orig B) (bindM (getsM (\<lambda>p. procBreakpoints p a)) f)"
proof (rule keepsI)
  fix p :: "'c Process"
  show "stepFrame memory code orig B p (snd (bindM (getsM (\<lambda>p. procBreakpoints p a)) f p))"
    using assms by (cases "procBreakpoints p = B") (simp_all add: keeps_def stepFrame_def)
qed

text \<open>Every client call but a write leaves the text alone.\<close>

definition textKept :: "('c \<Rightarrow> u64 \<Rightarrow> u8) \<Rightarrow> u64 set \<Rightarrow> 'c \<Rightarrow> 'c \<Rightarrow> bool" where
  "textKept memory code c c' \<longleftrightarrow> (\<forall>x\<in>code. memory c' x = memory c x)"

lemma onClient_step:
  fixes m :: "('c, 'a) prog"
  assumes "\<And>c. textKept memory code c (snd (m c))"
  shows "keeps (stepFrame memory code orig B) (onClient m)"
proof (rule keepsI)
  fix p :: "'c Process"
  obtain r c where m: "m (clientState p) = (r, c)" by (cases "m (clientState p)")
  then have "textKept memory code (clientState p) c" using assms [of "clientState p"] by simp
  then show "stepFrame memory code orig B p (snd (onClient m p))"
    by (auto simp: onClient_run m stepFrame_def traced_def entriesOriginal_def textKept_def)
qed

lemma closeBinary_step: "keeps (stepFrame memory code orig B) (closeBinary env)"
  by (rule keepsI) (auto simp: closeBinary_def seqM_def bindM_def stepFrame_def traced_def entriesOriginal_def)

lemma closeOnExit_step: "keeps (stepFrame memory code orig B) (closeOnExit env event)"
  unfolding closeOnExit_def by (intro frame_intros closeBinary_step)

text \<open>The calls that write nothing into the text.\<close>

definition sameText :: "('c \<Rightarrow> u64 \<Rightarrow> u8) \<Rightarrow> u64 set \<Rightarrow> 'c Process \<Rightarrow> 'c Process \<Rightarrow> bool" where
  "sameText memory code p p' \<longleftrightarrow>
     procBreakpoints p' = procBreakpoints p \<and> textKept memory code (clientState p) (clientState p')"

interpretation same: frame "sameText memory code" for memory code
  by unfold_locales (auto simp: sameText_def textKept_def)

lemma onClient_same:
  fixes m :: "('c, 'a) prog"
  assumes "\<And>c. textKept memory code c (snd (m c))"
  shows "keeps (sameText memory code) (onClient m)"
proof (rule keepsI)
  fix p :: "'c Process"
  show "sameText memory code p (snd (onClient m p))"
    using assms [of "clientState p"] by (cases "m (clientState p)") (simp add: onClient_run sameText_def)
qed

lemma closeOnExit_same: "keeps (sameText memory code) (closeOnExit env event)"
  unfolding closeOnExit_def closeBinary_def
  by (intro frame_intros) (auto simp: keeps_def sameText_def textKept_def)

lemma sameText_traced:
  "sameText memory code p p' \<Longrightarrow> traced memory code orig p \<Longrightarrow> traced memory code orig p'"
  by (auto simp: sameText_def textKept_def traced_def entriesOriginal_def)

lemma sameText_patchedAt:
  "sameText memory code p p' \<Longrightarrow> x \<in> code \<Longrightarrow> patchedAt memory orig p' x = patchedAt memory orig p x"
  by (simp add: sameText_def textKept_def patchedAt_def)

lemma sameText_patched:
  "sameText memory code p p' \<Longrightarrow> patched memory code orig p \<Longrightarrow> patched memory code orig p'"
  by (auto simp: patched_def sameText_patchedAt) (auto simp: sameText_def entriesOriginal_def)

context tracee_text
begin

lemma text_calls:
  "textKept memory code c (snd (WriteRegisters cl t regs c))"
  "textKept memory code c (snd (ReadTLS cl t off c))"
  "textKept memory code c (snd (StepAndWait cl t c))"
  "textKept memory code c (snd (ContinueAndWait cl c))"
  "textKept memory code c (snd (DetachProcess cl c))"
  by (simp_all add: textKept_def regs_text tls_text step_text continue_text detach_text)

lemma setPC_step:
  "debugapiClient env = cl \<Longrightarrow> keeps (stepFrame memory code orig B) (setPC env t a)"
  unfolding setPC_def by (intro frame_intros onClient_step) (simp add: text_calls)

lemma stepAndWait_step:
  "debugapiClient env = cl \<Longrightarrow> keeps (stepFrame memory code orig B) (stepAndWait env t)"
  unfolding stepAndWait_def by (intro frame_intros onClient_step closeOnExit_step) (simp add: text_calls)

text \<open>A byte written at a breakpoint, be it the original one or the breakpoint instruction.\<close>

lemma write_step:
  assumes "debugapiClient env = cl" and "a \<in> code \<Longrightarrow> b = orig a \<or> b = 0xcc" and "B a \<noteq> None"
  shows "keeps (stepFrame memory code orig B) (writeMem env a [b])"
proof (rule keepsI)
  fix p :: "'c Process"
  obtain r c where w: "WriteMemory cl a [b] (clientState p) = (r, c)"
    by (cases "WriteMemory cl a [b] (clientState p)")
  have bytes: "memory c x = memory (clientState p) x \<or> x = a \<and> memory c x = b" if "x \<in> code" for x
    using write_text [of a b "clientState p" c x] write_fail [OF w] w that by (cases "r = Ok ()") auto
  have run: "snd (writeMem env a [b] p) = p\<lparr>clientState := c\<rparr>"
    by (simp add: writeMem_def onClient_run assms(1) w)
  show "stepFrame memory code orig B p (snd (writeMem env a [b] p))"
    unfolding run stepFrame_def
  proof (intro impI conjI)
    assume p: "procBreakpoints p = B \<and> traced memory code orig p"
    then show "procBreakpoints (p\<lparr>clientState := c\<rparr>) = B" by simp
    have "memory c x = orig x \<or> B x \<noteq> None \<and> memory c x = 0xcc" if "x \<in> code" for x
      using bytes [OF that] p that assms(2,3) by (auto simp: traced_def)
    with p show "traced memory code orig (p\<lparr>clientState := c\<rparr>)"
      by (simp add: traced_def entriesOriginal_def)
  qed
qed

lemma restore_step:
  assumes env: "debugapiClient env = cl"
  shows "keeps (stepFrame memory code orig B)
    (case B a of None \<Rightarrow> returnM () | Some b \<Rightarrow> writeMem env a (orgInsts b))"
proof (rule keepsI)
  fix p :: "'c Process"
  show "stepFrame memory code orig B p
    (snd ((case B a of None \<Rightarrow> returnM () | Some b \<Rightarrow> writeMem env a (orgInsts b)) p))"
  proof (cases "procBreakpoints p = B \<and> traced memory code orig p")
    case True
    show ?thesis
    proof (cases "B a")
      case None
      then show ?thesis by (simp add: step.refl)
    next
      case (Some b)
      with True obtain b0 where org: "orgInsts b = [b0]" and b0: "a \<in> code \<Longrightarrow> b0 = orig a"
        by (metis traced_def entriesOriginal_byte)
      have "keeps (stepFrame memory code orig B) (writeMem env a [b0])"
        by (rule write_step) (simp_all add: env Some b0)
      with Some org show ?thesis by (simp add: keeps_def)
    qed
  qed (auto simp: stepFrame_def)
qed

lemma SingleStep_step:
  assumes env: "debugapiClient env = cl"
  shows "keeps (stepFrame memory code orig B) (SingleStep fuel env t a)"
proof (induction fuel arbitrary: t a)
  case 0
  show ?case unfolding SingleStep.simps by (rule step.outOfFuel_frame)
next
  case (Suc fuel)
  have rearm: "keeps (stepFrame memory code orig B)
      (case B a of None \<Rightarrow> returnM () | Some _ \<Rightarrow> writeMem env a breakpointInsts)"
    unfolding breakpointInsts_def by (intro frame_intros write_step) (simp_all add: env)
  have others: "keeps (stepFrame memory code orig B) (singleStepUnspecifiedThreads fuel env t ids)" for ids
    unfolding singleStepUnspecifiedThreads_def by (intro frame_intros Suc.IH)
  have handler: "keeps (stepFrame memory code orig B)
      (case err of UnspecifiedThreadError ids \<Rightarrow>
          seqM (singleStepUnspecifiedThreads fuel env t ids) (SingleStep fuel env t a)
        | _ \<Rightarrow> failM err)" for err
    by (cases err) (auto intro: step.fail_frame step.seq_frame others Suc.IH)
  show ?case
    unfolding SingleStep_error_branch
    by (intro step.seq_frame stepFrame_gets step.branch_frame setPC_step restore_step
        stepAndWait_step env rearm handler)
qed

lemma setPC_same: "debugapiClient env = cl \<Longrightarrow> keeps (sameText memory code) (setPC env t a)"
  unfolding setPC_def by (intro frame_intros onClient_same) (simp add: text_calls)

lemma stepAndWait_same: "debugapiClient env = cl \<Longrightarrow> keeps (sameText memory code) (stepAndWait env t)"
  unfolding stepAndWait_def by (intro frame_intros onClient_same closeOnExit_same) (simp add: text_calls)

lemma procContinueAndWait_same:
  "debugapiClient env = cl \<Longrightarrow> keeps (sameText memory code) (procContinueAndWait env)"
  unfolding procContinueAndWait_def
  by (intro frame_intros onClient_same closeOnExit_same) (simp add: text_calls)

text \<open>A write of one byte, and what it does to the places where breakpoints are in order.\<close>

lemma write_byte:
  assumes "WriteMemory cl a [b] c = (r, c')" and "x \<in> code"
  shows "memory c' x = (if r = Ok () \<and> x = a then b else memory c x)"
proof (cases "r = Ok ()")
  case True
  with assms write_text [of a b c c' x] show ?thesis by simp
next
  case False
  with assms write_fail [OF assms(1)] show ?thesis by simp
qed

lemma writeMem_byte:
  assumes "debugapiClient env = cl" and "writeMem env a [b] p = (r, p')"
  shows "procBreakpoints p' = procBreakpoints p"
    and "x \<in> code \<Longrightarrow> memory (clientState p') x = (if r = Ok () \<and> x = a then b else memory (clientState p) x)"
proof -
  obtain c where w: "WriteMemory cl a [b] (clientState p) = (r, c)" and p': "p' = p\<lparr>clientState := c\<rparr>"
    using assms by (auto simp: writeMem_def onClient_run split: prod.splits)
  show "procBreakpoints p' = procBreakpoints p" by (simp add: p')
  show "memory (clientState p') x = (if r = Ok () \<and> x = a then b else memory (clientState p) x)" if "x \<in> code"
    using write_byte [OF w that] by (simp add: p')
qed

lemma SetBreakpoint_patched:
  assumes env: "debugapiClient env = cl" and p: "patched memory code orig p"
    and run: "SetBreakpoint env a p = (r, p')"
  shows "patched memory code orig p'"
proof (cases "procBreakpoints p a")
  case (Some b)
  with run p show ?thesis by (simp add: SetBreakpoint_run)
next
  case None
  show ?thesis
  proof (cases "readMem env a 1 p")
    case (Ok bs)
    then obtain b where bs: "bs = [b]" and b: "a \<in> code \<Longrightarrow> b = orig a"
      using read_byte [of a "clientState p" bs] read_one [of a "clientState p" bs] env p None
      by (auto simp: readMem_def patched_def patchedAt_def)
    obtain r' c where w: "WriteMemory cl a [0xcc] (clientState p) = (r', c)"
      by (cases "WriteMemory cl a [0xcc] (clientState p)")
    have "memory c x = (if r' = Ok () \<and> x = a then 0xcc else memory (clientState p) x)" if "x \<in> code" for x
      using write_byte [OF w that] .
    with run p None Ok bs b w env show ?thesis
      by (cases r') (auto simp: SetBreakpoint_run patched_def patchedAt_def entriesOriginal_def split: if_splits)
  qed (use run p None in \<open>simp_all add: SetBreakpoint_run\<close>)
qed

lemma SetBreakpoint_traced:
  assumes env: "debugapiClient env = cl" and p: "traced memory code orig p"
    and run: "SetBreakpoint env a p = (r, p')"
  shows "traced memory code orig p'"
proof (cases "procBreakpoints p a")
  case (Some b)
  with run p show ?thesis by (simp add: SetBreakpoint_run)
next
  case None
  show ?thesis
  proof (cases "readMem env a 1 p")
    case (Ok bs)
    then obtain b where bs: "bs = [b]" using read_byte [of a "clientState p" bs] env by (auto simp: readMem_def)
    have "a \<in> code \<Longrightarrow> memory (clientState p) a = orig a" using p None by (auto simp: traced_def)
    then have b: "a \<in> code \<Longrightarrow> b = orig a"
      using read_one [of a "clientState p" bs] env Ok bs by (simp add: readMem_def)
    obtain r' c where w: "WriteMemory cl a [0xcc] (clientState p) = (r', c)"
      by (cases "WriteMemory cl a [0xcc] (clientState p)")
    have "memory c x = (if r' = Ok () \<and> x = a then 0xcc else memory (clientState p) x)" if "x \<in> code" for x
      using write_byte [OF w that] .
    with run p None Ok bs b w env show ?thesis
      by (cases r') (auto simp: SetBreakpoint_run traced_def entriesOriginal_def split: if_splits)
  qed (use run p None in \<open>simp_all add: SetBreakpoint_run\<close>)
qed

lemma ClearBreakpoint_patched:
  assumes env: "debugapiClient env = cl" and p: "patched memory code orig p"
    and run: "ClearBreakpoint env a p = (r, p')"
  shows "patched memory code orig p'"
proof (cases "procBreakpoints p a")
  case None
  with run p show ?thesis by (simp add: ClearBreakpoint_run)
next
  case (Some b)
  with p obtain b0 where b: "orgInsts b = [b0]" "a \<in> code \<Longrightarrow> b0 = orig a"
    by (metis patched_def entriesOriginal_byte)
  obtain r' c where w: "WriteMemory cl a [b0] (clientState p) = (r', c)"
    by (cases "WriteMemory cl a [b0] (clientState p)")
  have "memory c x = (if r' = Ok () \<and> x = a then orig a else memory (clientState p) x)" if "x \<in> code" for x
    using write_byte [OF w that] b(2) that by auto
  with run p Some b w env show ?thesis
    by (cases r') (auto simp: ClearBreakpoint_run patched_def patchedAt_def entriesOriginal_def split: if_splits)
qed

lemma ClearBreakpoint_traced:
  assumes env: "debugapiClient env = cl" and p: "traced memory code orig p"
    and run: "ClearBreakpoint env a p = (r, p')"
  shows "traced memory code orig p'"
proof (cases "procBreakpoints p a")
  case None
  with run p show ?thesis by (simp add: ClearBreakpoint_run)
next
  case (Some b)
  with p obtain b0 where b: "orgInsts b = [b0]" "a \<in> code \<Longrightarrow> b0 = orig a"
    by (metis traced_def entriesOriginal_byte)
  obtain r' c where w: "WriteMemory cl a [b0] (clientState p) = (r', c)"
    by (cases "WriteMemory cl a [b0] (clientState p)")
  have "memory c x = (if r' = Ok () \<and> x = a then orig a else memory (clientState p) x)" if "x \<in> code" for x
    using write_byte [OF w that] b(2) that by auto
  with run p Some b w env show ?thesis
    by (cases r') (auto simp: ClearBreakpoint_run traced_def entriesOriginal_def split: if_splits)
qed

text \<open>Stepping the other threads keeps every breakpoint that is in place.\<close>

lemma others_Ok:
  assumes step: "\<And>t a p p'. traced memory code orig p \<Longrightarrow> SingleStep fuel env t a p = (Ok (), p') \<Longrightarrow>
      procBreakpoints p' = procBreakpoints p \<and> traced memory code orig p' \<and>
      (\<forall>x\<in>code. x = a \<or> patchedAt memory orig p x \<longrightarrow> patchedAt memory orig p' x)"
    and q: "traced memory code orig q"
    and run: "singleStepUnspecifiedThreads fuel env t ids q = (Ok (), q')"
  shows "traced memory code orig q' \<and> (\<forall>x\<in>code. patchedAt memory orig q x \<longrightarrow> patchedAt memory orig q' x)"
  using q run unfolding singleStepUnspecifiedThreads_def
proof (induction ids arbitrary: q)
  case Nil
  then show ?case by simp
next
  case (Cons i ids)
  show ?case
  proof (cases "i = t")
    case True
    with Cons show ?thesis by simp
  next
    case False
    with Cons.prems(2) obtain regs :: Registers and q1 where
        one: "SingleStep fuel env i (Rip regs - 1) q = (Ok (), q1)"
      and more: "forM ids (\<lambda>u. if u = t then returnM ()
          else bindM (readM (\<lambda>p. ReadRegisters (debugapiClient env) u (clientState p)))
            (\<lambda>regs. SingleStep fuel env u (Rip regs - 1))) q1 = (Ok (), q')"
      by (auto simp: seqM_Ok bindM_Ok)
    from step [OF Cons.prems(1) one] Cons.IH [OF _ more] show ?thesis by blast
  qed
qed

text \<open>A single step that succeeds: the breakpoint it stepped over is in place again.\<close>

lemma SingleStep_Ok:
  assumes env: "debugapiClient env = cl" and p: "traced memory code orig p"
    and run: "SingleStep fuel env t a p = (Ok (), p')"
  shows "procBreakpoints p' = procBreakpoints p \<and> traced memory code orig p' \<and>
    (\<forall>x\<in>code. x = a \<or> patchedAt memory orig p x \<longrightarrow> patchedAt memory orig p' x)"
  using p run
proof (induction fuel arbitrary: t a p p')
  case 0
  then show ?case by simp
next
  case (Suc fuel)
  let ?B = "procBreakpoints p"
  have frame: "procBreakpoints p' = ?B \<and> traced memory code orig p'"
    using SingleStep_step [OF env, of orig ?B "Suc fuel" t a] Suc.prems keepsD [of _ _ p "Ok ()" p']
    unfolding stepFrame_def by blast
  from Suc.prems(2) obtain p1 p2 where
      s1: "setPC env t a p = (Ok (), p1)"
    and s2: "(case procBreakpoints p1 a of None \<Rightarrow> returnM () | Some b \<Rightarrow> writeMem env a (orgInsts b)) p1
        = (Ok (), p2)"
    and s3: "branchM (stepAndWait env t)
       (\<lambda>_. case procBreakpoints p1 a of None \<Rightarrow> returnM () | Some _ \<Rightarrow> writeMem env a breakpointInsts)
       (\<lambda>err. case err of
          UnspecifiedThreadError threadIDs \<Rightarrow>
            seqM (singleStepUnspecifiedThreads fuel env t threadIDs) (SingleStep fuel env t a)
        | _ \<Rightarrow> failM err) p2 = (Ok (), p')"
    unfolding SingleStep_error_branch by (auto simp: seqM_Ok bindM_Ok simp del: bindM_primitive)
  have same1: "sameText memory code p p1" using setPC_same [OF env] s1 by (rule keepsD)
  then have B1: "procBreakpoints p1 = ?B" and t1: "traced memory code orig p1"
    using sameText_traced [OF same1 Suc.prems(1)] by (simp_all add: sameText_def)
  have org: "\<exists>b0. orgInsts b = [b0]" if "?B a = Some b" for b
    using that Suc.prems(1) by (metis traced_def entriesOriginal_byte)
  have at1: "patchedAt memory orig p1 x = patchedAt memory orig p x" if "x \<in> code" for x
    using sameText_patchedAt [OF same1 that] .
  have *: "procBreakpoints p2 = ?B \<and>
      (\<forall>x\<in>code. x \<noteq> a \<longrightarrow> patchedAt memory orig p2 x = patchedAt memory orig p x)"
  proof (cases "?B a")
    case None
    then have "p2 = p1" using s2 by (simp add: B1)
    then show ?thesis using B1 at1 by simp
  next
    case (Some b)
    with s2 org obtain b0 where w: "writeMem env a [b0] p1 = (Ok (), p2)" by (auto simp: B1)
    show ?thesis using writeMem_byte [OF env w] at1 by (auto simp: B1 patchedAt_def)
  qed
  then have B2: "procBreakpoints p2 = ?B"
    and at2: "x \<in> code \<Longrightarrow> x \<noteq> a \<Longrightarrow> patchedAt memory orig p2 x = patchedAt memory orig p x" for x
    by blast+
  have t2: "traced memory code orig p2"
    using keepsD [OF restore_step [OF env, of orig ?B a]] s2 B1 t1 by (auto simp: stepFrame_def)
  obtain r3 p3 where s4: "stepAndWait env t p2 = (r3, p3)" by (cases "stepAndWait env t p2")
  have same3: "sameText memory code p2 p3" using stepAndWait_same [OF env] s4 by (rule keepsD)
  have B3: "procBreakpoints p3 = ?B" and t3: "traced memory code orig p3"
    using same3 B2 sameText_traced [OF same3 t2] by (simp_all add: sameText_def)
  have at3: "x \<in> code \<Longrightarrow> x \<noteq> a \<Longrightarrow> patchedAt memory orig p x \<Longrightarrow> patchedAt memory orig p3 x" for x
    using at2 sameText_patchedAt [OF same3, of x orig] by simp
  have "\<forall>x\<in>code. x = a \<or> patchedAt memory orig p x \<longrightarrow> patchedAt memory orig p' x"
  proof (cases r3)
    case (Ok ev)
    show ?thesis
    proof (cases "?B a")
      case None
      then have "p' = p3" using s3 s4 Ok by (simp add: branchM_def B1)
      moreover have "patchedAt memory orig p3 a" if "a \<in> code"
        using that None t3 B3 by (auto simp: patchedAt_def traced_def)
      ultimately show ?thesis using at3 by blast
    next
      case (Some b)
      then have w: "writeMem env a [0xcc] p3 = (Ok (), p')"
        using s3 s4 Ok by (simp add: branchM_def B1 breakpointInsts_def)
      show ?thesis
        using at3 writeMem_byte [OF env w] B3 Some by (auto simp: patchedAt_def)
    qed
  next
    case (Fail err)
    with s3 s4 obtain ids p4 where others: "singleStepUnspecifiedThreads fuel env t ids p3 = (Ok (), p4)"
      and rest: "SingleStep fuel env t a p4 = (Ok (), p')"
      by (cases err) (auto simp: branchM_def seqM_Ok)
    have "traced memory code orig p4 \<and> (\<forall>x\<in>code. patchedAt memory orig p3 x \<longrightarrow> patchedAt memory orig p4 x)"
      by (rule others_Ok [OF _ t3 others]) (rule Suc.IH)
    with Suc.IH [OF _ rest] at3 show ?thesis by blast
  qed (use s3 s4 in \<open>simp_all add: branchM_def\<close>)
  with frame show ?case by blast
qed

lemma ClearBreakpoint_logged:
  assumes env: "debugapiClient env = cl" and p: "traced memory code orig p"
    and run: "clearLogged env a p = (r, p')"
  shows "traced memory code orig p'"
proof -
  obtain r1 where "ClearBreakpoint env a p = (r1, p')"
    using run by (cases "ClearBreakpoint env a p"; cases "fst (ClearBreakpoint env a p)")
      (auto simp: clearLogged_def catchM_def)
  then show ?thesis by (rule ClearBreakpoint_traced [OF env p])
qed

lemma clearing_traced:
  assumes env: "debugapiClient env = cl" and p: "traced memory code orig p"
  shows "traced memory code orig (snd (forM order (clearLogged env) p))"
  using p
proof (induction order arbitrary: p)
  case Nil
  then show ?case by simp
next
  case (Cons a order)
  obtain r p1 where one: "clearLogged env a p = (r, p1)"
    by (cases "clearLogged env a p")
  have "traced memory code orig p1" by (rule ClearBreakpoint_logged [OF env Cons.prems one])
  then show ?case using Cons.IH [of p1] one by (cases r) (simp_all add: seqM_def bindM_def)
qed

lemma Detach_traced:
  assumes env: "debugapiClient env = cl" and p: "traced memory code orig p"
  shows "traced memory code orig (snd (Detach env p))"
proof -
  let ?clear = "forM (bpOrder env (dom (procBreakpoints p))) (clearLogged env)"
  let ?rest = "seqM (onClient (DetachProcess (debugapiClient env))) (closeBinary env)"
  obtain r p1 where clear: "?clear p = (r, p1)" by (cases "?clear p")
  have "keeps (sameText memory code) (closeBinary env)"
    unfolding closeBinary_def by (intro frame_intros) (auto simp: keeps_def sameText_def textKept_def)
  then have "keeps (sameText memory code) ?rest"
    by (intro frame_intros onClient_same) (simp_all add: env text_calls)
  then have "sameText memory code p1 (snd (?rest p1))" by (simp add: keeps_def)
  moreover have t1: "traced memory code orig p1"
    using clearing_traced [OF env p, of "bpOrder env (dom (procBreakpoints p))"] clear by simp
  ultimately have "traced memory code orig (snd (?rest p1))" by (rule sameText_traced)
  with t1 show ?thesis by (cases r) (simp_all add: Detach_def seqM_def bindM_def clear)
qed

lemma procContinueAndWait_traced:
  "debugapiClient env = cl \<Longrightarrow> traced memory code orig p \<Longrightarrow>
     traced memory code orig (snd (procContinueAndWait env p))"
  using procContinueAndWait_same [of env] by (auto simp: keeps_def intro: sameText_traced)

end

section \<open>Detaching removes the breakpoints\<close>

text \<open>Where the client's one-byte writes succeed, each listed address is cleared.\<close>

definition writable :: "'c client \<Rightarrow> 'c set \<Rightarrow> bool" where
  "writable cl W \<longleftrightarrow>
     (\<forall>c\<in>W. \<forall>a b. fst (WriteMemory cl a [b] c) = Ok () \<and> snd (WriteMemory cl a [b] c) \<in> W)"

lemma clearing_empties:
  assumes W: "writable (debugapiClient env) W" and c: "clientState p \<in> W" and org: "entriesOriginal code orig p"
  shows "\<exists>p'. forM order (clearLogged env) p = (Ok (), p')
    \<and> procBreakpoints p' = procBreakpoints p |` (- set order)"
  using c org
proof (induction order arbitrary: p)
  case Nil
  then show ?case by (simp add: restrict_map_def fun_eq_iff)
next
  case (Cons a order)
  show ?case
  proof (cases "procBreakpoints p a")
    case None
    then have "clearLogged env a p = (Ok (), p)"
      by (simp add: clearLogged_def catchM_def ClearBreakpoint_run)
    moreover have "procBreakpoints p |` (- insert a A) = procBreakpoints p |` (- A)" for A
      using None by (auto simp: restrict_map_def fun_eq_iff)
    ultimately show ?thesis using Cons.IH [OF Cons.prems] by (auto simp: seqM_def bindM_def)
  next
    case (Some b)
    then obtain b0 where b: "orgInsts b = [b0]" using Cons.prems(2) by (metis entriesOriginal_byte)
    obtain c' where w: "WriteMemory (debugapiClient env) a [b0] (clientState p) = (Ok (), c')" and c': "c' \<in> W"
      using W Cons.prems(1) unfolding writable_def by (metis prod.collapse)
    let ?p = "p\<lparr>clientState := c', procBreakpoints := (procBreakpoints p)(a := None)\<rparr>"
    have one: "clearLogged env a p = (Ok (), ?p)"
      by (simp add: clearLogged_def catchM_def ClearBreakpoint_run Some b w)
    have "entriesOriginal code orig ?p"
      using Cons.prems(2) by (auto simp: entriesOriginal_def split: if_splits)
    moreover have "clientState ?p \<in> W" using c' by simp
    ultimately obtain p' where more: "forM order (clearLogged env) ?p = (Ok (), p')"
      and m: "procBreakpoints p' = procBreakpoints ?p |` (- set order)"
      using Cons.IH [of ?p] by blast
    have "procBreakpoints p' = procBreakpoints p |` (- set (a # order))"
      by (rule ext) (simp add: m restrict_map_def)
    then show ?thesis using one more by (simp add: seqM_def bindM_def)
  qed
qed

lemma Detach_empties:
  assumes "writable (debugapiClient env) W" and "clientState p \<in> W" and "entriesOriginal code orig p"
    and "dom (procBreakpoints p) \<subseteq> set (bpOrder env (dom (procBreakpoints p)))"
  shows "procBreakpoints (snd (Detach env p)) = Map.empty"
proof -
  let ?rest = "seqM (onClient (DetachProcess (debugapiClient env))) (closeBinary env)"
  from clearing_empties [OF assms(1-3)] obtain p1 where
    clear: "forM (bpOrder env (dom (procBreakpoints p))) (clearLogged env) p
      = (Ok (), p1)"
    and p1: "procBreakpoints p1 = procBreakpoints p |` (- set (bpOrder env (dom (procBreakpoints p))))"
    by blast
  have "procBreakpoints p1 = Map.empty"
    unfolding p1 using assms(4) by (auto simp: restrict_map_def fun_eq_iff)
  moreover have "procBreakpoints (snd (?rest p1)) = procBreakpoints p1"
    by (cases "DetachProcess (debugapiClient env) (clientState p1)"; cases "fst (DetachProcess (debugapiClient env) (clientState p1))")
      (auto simp: seqM_def bindM_def onClient_run closeBinary_def)
  ultimately show ?thesis by (simp add: Detach_def seqM_def bindM_def clear)
qed

section \<open>Reading instructions\<close>

lemma copyAt_byte: "off < length buff \<Longrightarrow> copyAt buff off [b] = buff[off := b]"
  by (simp add: copyAt_def upd_conv_take_nth_drop)

lemma restoreOriginals_nth:
  assumes org: "\<And>a b. B a = Some b \<Longrightarrow> StartAddr f \<le> a \<and> a < EndAddr f \<Longrightarrow> orgInsts b = [orig a]"
    and len: "length buff = unat (EndAddr f - StartAddr f)" and se: "StartAddr f \<le> EndAddr f"
    and i: "i < length buff"
  shows "restoreOriginals f B order buff ! i =
    (if StartAddr f + of_nat i \<in> set order \<and> B (StartAddr f + of_nat i) \<noteq> None
     then orig (StartAddr f + of_nat i) else buff ! i)
    \<and> length (restoreOriginals f B order buff) = length buff"
  using len i unfolding restoreOriginals_def
proof (induction order arbitrary: buff)
  case Nil
  then show ?case by simp
next
  case (Cons a order)
  let ?S = "StartAddr f" and ?x = "StartAddr f + of_nat i :: u64"
  define buff' where "buff' = (case B a of None \<Rightarrow> buff
    | Some bp \<Rightarrow> if ?S \<le> a \<and> a < EndAddr f then copyAt buff (unat (a - ?S)) (orgInsts bp) else buff)"
  have x: "?S \<le> ?x" "?x < EndAddr f" "unat (?x - ?S) = i"
    using offset_in_range [OF se] Cons.prems by auto
  have step: "buff' = (if B a \<noteq> None \<and> ?S \<le> a \<and> a < EndAddr f then buff[unat (a - ?S) := orig a] else buff)"
    using org offset_of_member [of ?S a "EndAddr f"] Cons.prems(1)
    by (auto simp: buff'_def copyAt_byte split: option.splits)
  then have len: "length buff' = length buff" by simp
  have "buff' ! i = (if a = ?x \<and> B ?x \<noteq> None then orig ?x else buff ! i)"
  proof (cases "a = ?x")
    case True
    with x Cons.prems show ?thesis by (simp add: step)
  next
    case False
    then have "unat (a - ?S) \<noteq> i" if "?S \<le> a"
      using x(3) by (metis add.commute diff_add_cancel word_unat_eq_iff)
    with False show ?thesis by (auto simp: step)
  qed
  moreover note Cons.IH [of buff'] Cons.prems len
  ultimately show ?case by (auto simp: buff'_def [symmetric])
qed

lemma restored_bytes:
  assumes p: "traced memory code orig p" and se: "StartAddr f \<le> EndAddr f"
    and n: "n = unat (EndAddr f - StartAddr f)"
    and code: "\<forall>x. StartAddr f \<le> x \<and> x < EndAddr f \<longrightarrow> x \<in> code"
    and order: "dom (procBreakpoints p) \<subseteq> set order"
  shows "restoreOriginals f (procBreakpoints p) order (bytesAt (memory (clientState p)) (StartAddr f) n)
    = bytesAt orig (StartAddr f) n"
proof (rule nth_equalityI)
  let ?r = "restoreOriginals f (procBreakpoints p) order (bytesAt (memory (clientState p)) (StartAddr f) n)"
  have org: "procBreakpoints p a = Some b \<Longrightarrow> StartAddr f \<le> a \<and> a < EndAddr f \<Longrightarrow> orgInsts b = [orig a]" for a b
    using p code by (auto simp: traced_def entriesOriginal_def)
  note nth = restoreOriginals_nth [where B = "procBreakpoints p" and order = order, OF org _ se,
      where buff = "bytesAt (memory (clientState p)) (StartAddr f) n"]
  show len: "length ?r = length (bytesAt orig (StartAddr f) n)"
  proof (cases n)
    case 0
    have "length ?r = length (bytesAt (memory (clientState p)) (StartAddr f) n)"
      unfolding restoreOriginals_def 0 by (induction order) (auto simp: bytesAt_def copyAt_def org split: option.splits)
    then show ?thesis by simp
  next
    case (Suc m)
    then show ?thesis using nth [where i = 0] n by simp
  qed
  fix i assume "i < length ?r"
  then have i: "i < n" by (simp add: len)
  let ?x = "StartAddr f + of_nat i :: u64"
  have "?x \<in> code" using code offset_in_range [OF se, of i] i n by blast
  then have "memory (clientState p) ?x = orig ?x \<or> procBreakpoints p ?x \<noteq> None"
    using p by (auto simp: traced_def)
  then show "?r ! i = bytesAt orig (StartAddr f) n ! i"
    using nth [where i = i] i n order by (auto simp: bytesAt_def)
qed

lemma decodeLoop_returns:
  assumes "\<forall>bs. bs \<noteq> [] \<longrightarrow> 0 < Len (fst (decode bs))" and "length buff - pos < fuel"
  shows "\<exists>insts. decodeLoop fuel decode pos buff = Ok insts \<and> length insts \<le> length buff - pos"
  using assms(2)
proof (induction fuel arbitrary: pos)
  case 0
  then show ?case by simp
next
  case (Suc fuel)
  show ?case
  proof (cases "pos < length buff")
    case True
    obtain inst err where d: "decode (drop pos buff) = (inst, err)" by (cases "decode (drop pos buff)")
    with assms(1) True have "0 < Len inst" by (metis drop_eq_Nil fst_conv not_le)
    then have "length buff - (pos + Len inst) < fuel" "length buff - (pos + Len inst) < length buff - pos"
      using Suc.prems True by auto
    with Suc.IH [of "pos + Len inst"] obtain insts where
      "decodeLoop fuel decode (pos + Len inst) buff = Ok insts" "length insts \<le> length buff - (pos + Len inst)"
      by blast
    with True d \<open>0 < Len inst\<close> show ?thesis by (auto split: option.splits)
  qed simp
qed

section \<open>Properties\<close>

definition simEnv :: "machine rawClient procEnv" where
  "simEnv = \<lparr>debugapiClient = linuxClient 9 simOS, Binary = nonDebuggableBinaryFile (\<lambda>n. Ok ()),
     GoVer = emptyVersion, moduleDataList = [],
     x86Decode = (\<lambda>bs. (\<lparr>Op = (if hd bs = 0xe8 then CALL else OtherOp), Len = 1\<rparr>, None)),
     bpOrder = (\<lambda>A. [0x10, 0x12]), onDarwin = False,
     formatter = \<lparr>fmtFloat32 = (\<lambda>_. []), fmtFloat64 = (\<lambda>_. []), fmtComplex64 = (\<lambda>_ _. []),
       fmtComplex128 = (\<lambda>_ _. []), quote = (\<lambda>s. s), typeName = (\<lambda>_. []), rangeOrder = (\<lambda>ss. ss),
       panicText = []\<rparr>\<rparr>"

definition simProcess :: "waitStatus list \<Rightarrow> machine rawClient Process" where
  "simProcess script = \<lparr>clientState = startedMachine script, procBreakpoints = Map.empty, closeCount = 0\<rparr>"

lemma simEnv_client [simp]: "debugapiClient simEnv = linuxClient 9 simOS"
  by (simp add: simEnv_def)

lemma simProcess_patched: "patched (\<lambda>c. simMem (kernel c)) code (\<lambda>a. ucast a) (simProcess script)"
  by (simp add: patched_def patchedAt_def entriesOriginal_def simProcess_def startedMachine_def)

text \<open>
  C6: the calls of the tracee process keep the program text in order. Setting and clearing
  breakpoints and continuing leave exactly the breakpoints of the map in the text, whether they
  succeed or fail; a single step that succeeds does so too, and one that does not leaves at
  most an original instruction where a breakpoint belongs, with the map unchanged.
\<close>

theorem process_calls_keep_the_text:
  assumes "tracee_text (debugapiClient env) memory code" and "patched memory code orig p"
  shows "patched memory code orig (snd (SetBreakpoint env a p)) \<and>
    patched memory code orig (snd (ClearBreakpoint env a p)) \<and>
    patched memory code orig (snd (procContinueAndWait env p)) \<and>
    traced memory code orig (snd (SingleStep fuel env t a p)) \<and>
    procBreakpoints (snd (SingleStep fuel env t a p)) = procBreakpoints p \<and>
    (fst (SingleStep fuel env t a p) = Ok () \<longrightarrow> patched memory code orig (snd (SingleStep fuel env t a p)))"
proof (intro conjI impI)
  note calls = tracee_text.SetBreakpoint_patched [OF assms(1) refl assms(2)]
    tracee_text.ClearBreakpoint_patched [OF assms(1) refl assms(2)]
  show "patched memory code orig (snd (SetBreakpoint env a p))" by (rule calls(1)) (rule prod.collapse [symmetric])
  show "patched memory code orig (snd (ClearBreakpoint env a p))" by (rule calls(2)) (rule prod.collapse [symmetric])
  have "sameText memory code p (snd (procContinueAndWait env p))"
    using tracee_text.procContinueAndWait_same [OF assms(1) refl] by (simp add: keeps_def)
  then show "patched memory code orig (snd (procContinueAndWait env p))"
    using assms(2) by (rule sameText_patched)
  note traced = patched_traced [OF assms(2)]
  have "stepFrame memory code orig (procBreakpoints p) p (snd (SingleStep fuel env t a p))"
    using tracee_text.SingleStep_step [OF assms(1) refl] by (simp add: keeps_def)
  with traced show "traced memory code orig (snd (SingleStep fuel env t a p))"
    and "procBreakpoints (snd (SingleStep fuel env t a p)) = procBreakpoints p"
    by (auto simp: stepFrame_def)
  assume "fst (SingleStep fuel env t a p) = Ok ()"
  then have run: "SingleStep fuel env t a p = (Ok (), snd (SingleStep fuel env t a p))"
    by (metis prod.collapse)
  show "patched memory code orig (snd (SingleStep fuel env t a p))"
    using tracee_text.SingleStep_Ok [OF assms(1) refl traced run] assms(2)
    by (auto simp: patched_def traced_def)
qed

theorem process_calls_keep_the_text_witness:
  "patched (\<lambda>c. simMem (kernel c)) UNIV (\<lambda>a. ucast a) (snd (SetBreakpoint simEnv 0x10 (simProcess [])))
    \<and> simMem (kernel (clientState (snd (SetBreakpoint simEnv 0x10 (simProcess []))))) 0x10 = 0xcc"
proof
  show "patched (\<lambda>c. simMem (kernel c)) UNIV (\<lambda>a. ucast a) (snd (SetBreakpoint simEnv 0x10 (simProcess [])))"
    using process_calls_keep_the_text [where env = simEnv and memory = "\<lambda>c. simMem (kernel c)" and code = UNIV
        and orig = "\<lambda>a. ucast a" and p = "simProcess []" and a = "0x10"]
      sim.tracee_text_axioms simProcess_patched by simp
  show "simMem (kernel (clientState (snd (SetBreakpoint simEnv 0x10 (simProcess []))))) 0x10 = 0xcc"
    by (simp add: SetBreakpoint_run simProcess_def readMem_def simEnv_def linuxClient_def rawReadMemory_def
        rawWriteMemory_def startedMachine_def simOS_def bindM_def sys_def zoomM_def)
qed

text \<open>
  C7: Detach gives the tracee its program back. Whatever fails on the way, every byte of the
  text outside the addresses still in the breakpoint map is the original one; and when the
  client can write and the map is ranged over completely, the map is empty and the whole text
  is the original.
\<close>

theorem detach_restores_the_text:
  assumes "tracee_text (debugapiClient env) memory code" and "traced memory code orig p"
  shows "(\<forall>x\<in>code. procBreakpoints (snd (Detach env p)) x = None \<longrightarrow>
             memory (clientState (snd (Detach env p))) x = orig x) \<and>
    (writable (debugapiClient env) W \<and> clientState p \<in> W \<and>
       dom (procBreakpoints p) \<subseteq> set (bpOrder env (dom (procBreakpoints p))) \<longrightarrow>
     procBreakpoints (snd (Detach env p)) = Map.empty \<and>
     (\<forall>x\<in>code. memory (clientState (snd (Detach env p))) x = orig x))"
proof -
  have "traced memory code orig (snd (Detach env p))"
    using tracee_text.Detach_traced [OF assms(1) refl assms(2)] .
  then have left: "\<forall>x\<in>code. procBreakpoints (snd (Detach env p)) x = None \<longrightarrow>
      memory (clientState (snd (Detach env p))) x = orig x"
    by (auto simp: traced_def)
  have "entriesOriginal code orig p" using assms(2) by (simp add: traced_def)
  with left show ?thesis using Detach_empties [where env = env and W = W and p = p and code = code and orig = orig] by auto
qed

lemma sim_writable: "writable (linuxClient n simOS) {c. trappedThreadIDs c \<noteq> []}"
  by (auto simp: writable_def linuxClient_def rawWriteMemory_def bindM_def sys_def zoomM_def simOS_def
      split: list.splits)

theorem detach_restores_the_text_witness:
  "procBreakpoints (snd (Detach simEnv (snd (SetBreakpoint simEnv 0x10 (simProcess []))))) = Map.empty \<and>
   simMem (kernel (clientState (snd (Detach simEnv (snd (SetBreakpoint simEnv 0x10 (simProcess []))))))) 0x10 = 0x10"
proof -
  let ?p = "snd (SetBreakpoint simEnv 0x10 (simProcess []))"
  have p: "?p = (simProcess [])\<lparr>clientState := (startedMachine [])\<lparr>kernel := (kernel (startedMachine []))
        \<lparr>simMem := (\<lambda>a. ucast a)(0x10 := 0xcc)\<rparr>\<rparr>,
      procBreakpoints := [0x10 \<mapsto> \<lparr>bpAddr = 0x10, orgInsts = [0x10]\<rparr>]\<rparr>"
    by (simp add: SetBreakpoint_run simProcess_def readMem_def simEnv_def linuxClient_def rawReadMemory_def
        rawWriteMemory_def startedMachine_def simOS_def bindM_def sys_def zoomM_def bytesAt_def)
  have t: "traced (\<lambda>c. simMem (kernel c)) UNIV (\<lambda>a. ucast a) ?p"
    unfolding p by (simp add: traced_def entriesOriginal_def simProcess_def startedMachine_def)
  have "clientState ?p \<in> {c. trappedThreadIDs c \<noteq> []}"
    and "dom (procBreakpoints ?p) \<subseteq> set (bpOrder simEnv (dom (procBreakpoints ?p)))"
    unfolding p by (simp_all add: startedMachine_def simEnv_def)
  then show ?thesis
    using detach_restores_the_text [where env = simEnv and memory = "\<lambda>c. simMem (kernel c)" and code = UNIV
        and orig = "\<lambda>a. ucast a" and p = ?p and W = "{c. trappedThreadIDs c \<noteq> []}"] sim.tracee_text_axioms t sim_writable by simp
qed

text \<open>
  The instructions of a function are decoded from its original bytes, whatever breakpoints are
  in its text at the moment; a call instruction under a breakpoint is still found.
\<close>

lemma ReadInstructions_original:
  assumes client: "tracee_text (debugapiClient env) memory code" and p: "traced memory code orig p"
    and range: "StartAddr f \<le> EndAddr f"
    and code: "\<forall>x. StartAddr f \<le> x \<and> x < EndAddr f \<longrightarrow> x \<in> code"
    and order: "dom (procBreakpoints p) \<subseteq> set (bpOrder env (dom (procBreakpoints p)))"
    and run: "ReadInstructions fuel env f p = Ok insts"
  shows "decodeLoop fuel (x86Decode env) 0 (bytesAt orig (StartAddr f) (unat (EndAddr f - StartAddr f))) = Ok insts"
proof -
  let ?n = "unat (EndAddr f - StartAddr f)"
  from run obtain buff where read: "readMem env (StartAddr f) ?n p = Ok buff"
    and decode: "decodeLoop fuel (x86Decode env) 0
      (restoreOriginals f (procBreakpoints p) (bpOrder env (dom (procBreakpoints p))) buff) = Ok insts"
    by (auto simp: ReadInstructions_def bindO_Ok makeSize_def split: if_splits)
  have "\<forall>i<?n. StartAddr f + of_nat i \<in> code"
    using code offset_in_range [OF range] by blast
  then have "buff = bytesAt (memory (clientState p)) (StartAddr f) ?n"
    using tracee_text.read_text [OF client] read by (simp add: readMem_def)
  with decode show ?thesis using restored_bytes [OF p range refl code order] by simp
qed

text \<open>
  the decoding loop returns as long as the decoder never reports a length of zero for bytes
  it is given, with one instruction at most for each byte, when its fuel exceeds the number of
  bytes of the function. An instruction that cannot be decoded is skipped, not an error.
\<close>

theorem decoding_returns:
  assumes "\<forall>bs. bs \<noteq> [] \<longrightarrow> 0 < Len (fst (decode bs))" and "length buff < fuel"
  shows "\<exists>insts. decodeLoop fuel decode 0 buff = Ok insts \<and> length insts \<le> length buff"
  using decodeLoop_returns [of decode buff 0 fuel] assms by simp

theorem decoding_returns_witness:
  "\<exists>insts. decodeLoop 5 (x86Decode simEnv) 0 [0xe8, 1, 2] = Ok insts \<and> length insts \<le> 3"
  using decoding_returns [of "x86Decode simEnv" "[0xe8, 1, 2]" 5] by (simp add: simEnv_def numeral_3_eq_3)

end
