(* ===== verification/TracingPoints.thy ===== *)
theory TracingPoints
  imports Prelude
begin

text \<open>
  tracer/tracingpoints.go: the addresses at which tracing starts and ends, and the list of go
  routines being traced. A go routine that entered the tracing n times leaves it after n
  removals: the list is a multiset of go routines. The debug log lines of Add and Remove
  are not modelled.
\<close>

record tracingPoints =
  startAddressList :: "u64 list"
  endAddressList :: "u64 list"

definition IsStartAddress :: "tracingPoints \<Rightarrow> u64 \<Rightarrow> bool" where
  "IsStartAddress p a = list_ex (\<lambda>startAddr. startAddr = a) (startAddressList p)"

definition IsEndAddress :: "tracingPoints \<Rightarrow> u64 \<Rightarrow> bool" where
  "IsEndAddress p a = list_ex (\<lambda>endAddr. endAddr = a) (endAddressList p)"

type_synonym tracingGoRoutines = "int list"

definition Tracing :: "tracingGoRoutines \<Rightarrow> int \<Rightarrow> bool" where
  "Tracing t goRoutineID = list_ex (\<lambda>existing. existing = goRoutineID) t"

definition Add :: "int \<Rightarrow> tracingGoRoutines \<Rightarrow> tracingGoRoutines" where
  "Add goRoutineID t = t @ [goRoutineID]"

text \<open>The loop of Remove: it cuts the first matching entry out and stops.\<close>

fun removeLoop :: "int \<Rightarrow> tracingGoRoutines \<Rightarrow> nat \<Rightarrow> tracingGoRoutines \<Rightarrow> tracingGoRoutines" where
  "removeLoop goRoutineID t i [] = t"
| "removeLoop goRoutineID t i (existing # rest) =
     (if existing = goRoutineID then take i t @ drop (i + 1) t
      else removeLoop goRoutineID t (Suc i) rest)"

definition Remove :: "int \<Rightarrow> tracingGoRoutines \<Rightarrow> tracingGoRoutines" where
  "Remove goRoutineID t = removeLoop goRoutineID t 0 t"

section \<open>The list is a multiset\<close>

lemma IsStartAddress_iff [simp]: "IsStartAddress p a \<longleftrightarrow> a \<in> set (startAddressList p)"
  by (auto simp: IsStartAddress_def list_ex_iff)

lemma IsEndAddress_iff [simp]: "IsEndAddress p a \<longleftrightarrow> a \<in> set (endAddressList p)"
  by (auto simp: IsEndAddress_def list_ex_iff)

lemma Tracing_iff [simp]: "Tracing t g \<longleftrightarrow> g \<in> set t"
  by (auto simp: Tracing_def list_ex_iff)

lemma set_Add [simp]: "set (Add g t) = insert g (set t)"
  by (simp add: Add_def)

lemma mset_Add: "mset (Add g t) = add_mset g (mset t)"
  by (simp add: Add_def)

lemma removeLoop_eq: "removeLoop g (pre @ t) (length pre) t = pre @ remove1 g t"
proof (induction t arbitrary: pre)
  case Nil
  then show ?case by simp
next
  case (Cons x t)
  from Cons.IH [of "pre @ [x]"] show ?case by simp
qed

lemma Remove_eq: "Remove g t = remove1 g t"
  using removeLoop_eq [of g "[]" t] by (simp add: Remove_def)

lemma mset_Remove: "mset (Remove g t) = mset t - {#g#}"
  by (simp add: Remove_eq)

lemma set_Remove_other: "h \<noteq> g \<Longrightarrow> h \<in> set (Remove g t) \<longleftrightarrow> h \<in> set t"
  by (simp add: Remove_eq)

lemma mset_Add_repeat: "mset ((Add g ^^ n) t) = mset t + replicate_mset n g"
  by (induction n) (auto simp: mset_Add)

lemma mset_Remove_repeat: "mset ((Remove g ^^ n) t) = mset t - replicate_mset n g"
proof (induction n)
  case 0
  then show ?case by simp
next
  case (Suc n)
  then show ?case by (simp add: mset_Remove diff_diff_add_mset)
qed

text \<open>
  a go routine that was not traced and entered the tracing n times is traced until it has
  left n times, and its entering and leaving changes nothing for any other go routine.
\<close>

theorem tracing_counts_entries:
  assumes "\<not> Tracing t g"
  shows "(Tracing ((Remove g ^^ k) ((Add g ^^ n) t)) g \<longleftrightarrow> k < n)
    \<and> (\<forall>h. h \<noteq> g \<longrightarrow> Tracing ((Remove g ^^ k) ((Add g ^^ n) t)) h = Tracing t h)"
proof -
  define t' where "t' = (Remove g ^^ k) ((Add g ^^ n) t)"
  have M: "mset t' = mset t + replicate_mset n g - replicate_mset k g"
    by (simp add: t'_def mset_Remove_repeat mset_Add_repeat)
  have zero: "count (mset t) g = 0" using assms by (simp add: count_eq_zero_iff)
  have C: "count (mset t') h = (if h = g then n - k else count (mset t) h)" for h
    by (simp add: M zero)
  have "h \<in> set t' \<longleftrightarrow> (if h = g then k < n else h \<in> set t)" for h
    using C [of h] by (auto simp: count_mset_gt_0 simp flip: set_mset_mset count_greater_zero_iff
        split: if_splits)
  then show ?thesis by (simp add: t'_def [symmetric])
qed

theorem tracing_counts_entries_witness:
  "\<not> Tracing [4, 5] 3 \<and> Tracing ((Remove 3 ^^ 1) ((Add 3 ^^ 2) [4, 5])) 3
    \<and> \<not> Tracing ((Remove 3 ^^ 2) ((Add 3 ^^ 2) [4, 5])) 3"
proof -
  have n: "\<not> Tracing [4, 5] 3" by simp
  show ?thesis using n tracing_counts_entries [OF n, of 1 2] tracing_counts_entries [OF n, of 2 2] by simp
qed

end
