(* ===== verification/Controller.thy ===== *)
theory Controller
  imports Patching TracingPoints
begin

text \<open>
  tracer/controller.go: the controller that drives the tracee from trap to trap. It keeps, for
  every go routine under trace, the stack of the traced functions it is in (the status store),
  and sets and clears the breakpoints of the call instructions, return addresses and deferred
  functions from which that stack is maintained.

  Pointers to functions are the functions themselves, as nothing writes through them. The slices of calling
  functions are lists: unwinding keeps a prefix of the slice and adding appends to it, which may
  write the array behind the suffix that was unwound, but no reader of that suffix is left then.
  The output is the list of lines written; the results of Fprintf are dropped by the code. The
  field firstModuleDataAddr is never used, and is left out.
\<close>

section \<open>State\<close>

definition chanBufferSize :: nat where
  "chanBufferSize = 64"

datatype breakpointHint = breakpointHintUnknown | breakpointHintCall | breakpointHintDeferredFunc

record callingFunction =
  calledFunction :: Function
  returnAddress :: u64
  usedStackSize :: u64
  callInstBreakpointsSet :: bool

type_synonym goRoutineStatus = "callingFunction list"

definition statusUsedStackSize :: "goRoutineStatus \<Rightarrow> u64" where
  "statusUsedStackSize callingFunctions =
     (if length callingFunctions > 0 then usedStackSize (callingFunctions ! (length callingFunctions - 1))
      else 0)"

record 'c Controller =
  process :: "'c Process"
  statusStore :: "int \<Rightarrow> goRoutineStatus option"
  callInstAddrCache :: "u64 \<Rightarrow> u64 list option"
  breakpointHints :: "u64 \<Rightarrow> breakpointHint option"
  breakpoints :: bps
  tracePoints :: tracingPoints
  goRoutines :: tracingGoRoutines
  traceLevel :: int
  parseLevel :: int
  interruptCh :: nat
  pendingStartTracePoint :: "u64 list"
  pendingEndTracePoint :: "u64 list"
  outputWriter :: "string list"

text \<open>
  What stays the same while the controller runs: the environment of the process, the fuel of its
  loops, the tables of the package unicode, the order in which Go ranges over the breakpoint
  map, and which of two ready channels a select statement takes.
\<close>

record 'c ctlEnv =
  tracee :: "'c procEnv"
  fuelOf :: nat
  upperRune :: "string \<Rightarrow> bool"
  mapOrder :: "u64 set \<Rightarrow> u64 list"
  takesStart :: "u64 list \<Rightarrow> u64 list \<Rightarrow> bool"

text \<open>
  NewController and the first assignment of LaunchTracee and AttachTracee: the process the two
  hand over, and no breakpoints.
\<close>

definition NewController :: "'c Process \<Rightarrow> 'c Controller" where
  "NewController p = \<lparr>process = p, statusStore = Map.empty, callInstAddrCache = Map.empty,
     breakpointHints = Map.empty, breakpoints = NewBreakpoints,
     tracePoints = \<lparr>startAddressList = [], endAddressList = []\<rparr>, goRoutines = [],
     traceLevel = 0, parseLevel = 0, interruptCh = 0, pendingStartTracePoint = [],
     pendingEndTracePoint = [], outputWriter = []\<rparr>"

definition onProcess :: "('c Process, 'a) prog \<Rightarrow> ('c Controller, 'a) prog" where
  "onProcess = zoomM process (\<lambda>p c. c\<lparr>process := p\<rparr>)"

definition onBreakpoints :: "(bps \<times> 'c Process, 'a) prog \<Rightarrow> ('c Controller, 'a) prog" where
  "onBreakpoints = zoomM (\<lambda>c. (breakpoints c, process c)) (\<lambda>(m, p) c. c\<lparr>breakpoints := m, process := p\<rparr>)"

definition observe :: "('c Process \<Rightarrow> 'a outcome) \<Rightarrow> ('c Controller, 'a) prog" where
  "observe f = readM (\<lambda>c. f (process c))"

definition physicalOf :: "'c ctlEnv \<Rightarrow> 'c Process physical" where
  "physicalOf env = procPhysical (tracee env)"

definition statusOf :: "int \<Rightarrow> 'c Controller \<Rightarrow> goRoutineStatus" where
  "statusOf goRoutineID c = (case statusStore c goRoutineID of None \<Rightarrow> [] | Some status \<Rightarrow> status)"

definition hintAt :: "u64 \<Rightarrow> 'c Controller \<Rightarrow> breakpointHint" where
  "hintAt a c = (case breakpointHints c a of None \<Rightarrow> breakpointHintUnknown | Some h \<Rightarrow> h)"

definition putStatus :: "int \<Rightarrow> goRoutineStatus \<Rightarrow> ('c Controller, unit) prog" where
  "putStatus goRoutineID status =
     modifyM (\<lambda>c. c\<lparr>statusStore := (statusStore c)(goRoutineID \<mapsto> status)\<rparr>)"

definition putHint :: "u64 \<Rightarrow> breakpointHint \<Rightarrow> ('c Controller, unit) prog" where
  "putHint a h = modifyM (\<lambda>c. c\<lparr>breakpointHints := (breakpointHints c)(a \<mapsto> h)\<rparr>)"

section \<open>Requests\<close>

text \<open>
  A request is put into a buffered channel, or refused when the buffer is full. Interrupt blocks
  on a full buffer: no state to go on with.
\<close>

definition AddStartTracePoint :: "u64 \<Rightarrow> ('c Controller, unit) prog" where
  "AddStartTracePoint startAddr = (\<lambda>c.
     if length (pendingStartTracePoint c) < chanBufferSize
     then (Ok (), c\<lparr>pendingStartTracePoint := pendingStartTracePoint c @ [startAddr]\<rparr>)
     else (Fail (ErrMsg ''failed to add start trace point''), c))"

definition AddEndTracePoint :: "u64 \<Rightarrow> ('c Controller, unit) prog" where
  "AddEndTracePoint endAddr = (\<lambda>c.
     if length (pendingEndTracePoint c) < chanBufferSize
     then (Ok (), c\<lparr>pendingEndTracePoint := pendingEndTracePoint c @ [endAddr]\<rparr>)
     else (Fail (ErrMsg ''failed to add end trace point''), c))"

definition SetTraceLevel :: "int \<Rightarrow> ('c Controller, unit) prog" where
  "SetTraceLevel level = modifyM (\<lambda>c. c\<lparr>traceLevel := level\<rparr>)"

definition SetParseLevel :: "int \<Rightarrow> ('c Controller, unit) prog" where
  "SetParseLevel level = modifyM (\<lambda>c. c\<lparr>parseLevel := level\<rparr>)"

definition Interrupt :: "'c Controller \<Rightarrow> 'c Controller option" where
  "Interrupt c = (if interruptCh c < chanBufferSize then Some (c\<lparr>interruptCh := interruptCh c + 1\<rparr>) else None)"

section \<open>Call instructions\<close>

fun callAddresses :: "u64 \<Rightarrow> nat \<Rightarrow> Inst list \<Rightarrow> u64 list" where
  "callAddresses start pos [] = []"
| "callAddresses start pos (inst # insts) =
     (if Op inst = CALL \<or> Op inst = LCALL then [start + of_nat pos] else [])
     @ callAddresses start (pos + Len inst) insts"

definition findCallInstAddresses :: "'c ctlEnv \<Rightarrow> Function \<Rightarrow> ('c Controller, u64 list) prog" where
  "findCallInstAddresses env f = bindM (getsM (\<lambda>c. callInstAddrCache c (StartAddr f))) (\<lambda>e. case e of
       Some cache \<Rightarrow> returnM cache
     | None \<Rightarrow>
         bindM (observe (ReadInstructions (fuelOf env) (tracee env) f)) (\<lambda>insts.
         let addresses = callAddresses (StartAddr f) 0 insts in
         seqM (modifyM (\<lambda>c. c\<lparr>callInstAddrCache := (callInstAddrCache c)(StartAddr f \<mapsto> addresses)\<rparr>))
           (returnM addresses)))"

text \<open>The hint is set whether setting the breakpoint succeeded or not.\<close>

definition setHinted :: "'c ctlEnv \<Rightarrow> int \<Rightarrow> u64 \<Rightarrow> ('c Controller, unit) prog" where
  "setHinted env goRoutineID a =
     branchM (onBreakpoints (SetConditional (physicalOf env) a goRoutineID))
       (\<lambda>_. putHint a breakpointHintCall)
       (\<lambda>e. seqM (putHint a breakpointHintCall) (failM e))"

definition alterCallInstBreakpoints :: "'c ctlEnv \<Rightarrow> bool \<Rightarrow> int \<Rightarrow> u64 \<Rightarrow> ('c Controller, unit) prog" where
  "alterCallInstBreakpoints env enable goRoutineID pc =
     bindM (observe (procFindFunction (fuelOf env) (tracee env) pc)) (\<lambda>f.
     bindM (findCallInstAddresses env f) (\<lambda>callInstAddresses.
       forM callInstAddresses (\<lambda>callInstAddr.
         if enable then setHinted env goRoutineID callInstAddr
         else onBreakpoints (ClearConditional (physicalOf env) callInstAddr goRoutineID))))"

definition setCallInstBreakpoints :: "'c ctlEnv \<Rightarrow> int \<Rightarrow> u64 \<Rightarrow> ('c Controller, unit) prog" where
  "setCallInstBreakpoints env = alterCallInstBreakpoints env True"

definition clearCallInstBreakpoints :: "'c ctlEnv \<Rightarrow> int \<Rightarrow> u64 \<Rightarrow> ('c Controller, unit) prog" where
  "clearCallInstBreakpoints env = alterCallInstBreakpoints env False"

section \<open>Entering and leaving a trace\<close>

definition enterTracepoint :: "'c ctlEnv \<Rightarrow> GoRoutineInfo \<Rightarrow> ('c Controller, unit) prog" where
  "enterTracepoint env goRoutineInfo =
     seqM (setCallInstBreakpoints env (ID goRoutineInfo) (CurrentPC goRoutineInfo))
       (modifyM (\<lambda>c. c\<lparr>goRoutines := Add (ID goRoutineInfo) (goRoutines c)\<rparr>))"

definition exitTracepoint :: "'c ctlEnv \<Rightarrow> int \<Rightarrow> ('c Controller, unit) prog" where
  "exitTracepoint env goRoutineID =
     seqM (modifyM (\<lambda>c. c\<lparr>goRoutines := Remove goRoutineID (goRoutines c)\<rparr>))
    (bindM (getsM (\<lambda>c. Tracing (goRoutines c) goRoutineID)) (\<lambda>tracing.
       if \<not> tracing then onBreakpoints (ClearAllByGoRoutineID (physicalOf env) (mapOrder env) goRoutineID)
       else returnM ()))"

definition updateTracingStatus :: "'c ctlEnv \<Rightarrow> GoRoutineInfo \<Rightarrow> u64 \<Rightarrow> ('c Controller, unit) prog" where
  "updateTracingStatus env goRoutineInfo breakpointAddr =
     bindM (getsM tracePoints) (\<lambda>tp.
     seqM (if IsStartAddress tp breakpointAddr then enterTracepoint env goRoutineInfo else returnM ())
       (if IsEndAddress tp breakpointAddr then exitTracepoint env (ID goRoutineInfo) else returnM ()))"

section \<open>The stack of calling functions\<close>

text \<open>The loop of doUnwindFunctions, from the innermost function outwards.\<close>

fun unwindLoop ::
    "'c ctlEnv \<Rightarrow> GoRoutineInfo \<Rightarrow> u64 \<Rightarrow> callingFunction list \<Rightarrow> nat
       \<Rightarrow> ('c Controller, callingFunction list \<times> callingFunction list) prog" where
  "unwindLoop env goRoutineInfo currUsedStackSize callingFuncs 0 = returnM ([], callingFuncs)"
| "unwindLoop env goRoutineInfo currUsedStackSize callingFuncs (Suc i) =
     (let f = callingFuncs ! i; stop = returnM (take (i + 1) callingFuncs, drop (i + 1) callingFuncs) in
      if usedStackSize f < currUsedStackSize then stop
      else bindM (if usedStackSize f = currUsedStackSize
             then bindM (observe (procFindFunction (fuelOf env) (tracee env) (CurrentPC goRoutineInfo)))
                    (\<lambda>currFunction. returnM (Name (calledFunction f) = Name currFunction))
             else returnM False)
        (\<lambda>same. if same then stop
         else seqM (onBreakpoints (ClearConditional (physicalOf env) (returnAddress f) (ID goRoutineInfo)))
             (seqM (if callInstBreakpointsSet f
                    then clearCallInstBreakpoints env (ID goRoutineInfo) (StartAddr (calledFunction f))
                    else returnM ())
               (unwindLoop env goRoutineInfo currUsedStackSize callingFuncs i))))"

definition doUnwindFunctions ::
    "'c ctlEnv \<Rightarrow> GoRoutineInfo \<Rightarrow> u64 \<Rightarrow> ('c Controller, callingFunction list \<times> callingFunction list) prog" where
  "doUnwindFunctions env goRoutineInfo currUsedStackSize =
     bindM (getsM (statusOf (ID goRoutineInfo))) (\<lambda>callingFuncs.
       unwindLoop env goRoutineInfo currUsedStackSize callingFuncs (length callingFuncs))"

definition unwindFunctions ::
    "'c ctlEnv \<Rightarrow> GoRoutineInfo \<Rightarrow> u64 \<Rightarrow> ('c Controller, callingFunction list \<times> callingFunction list) prog" where
  "unwindFunctions env goRoutineInfo currUsedStackSize =
     bindM (doUnwindFunctions env goRoutineInfo currUsedStackSize) (\<lambda>(remainingFuncs, unwindedFuncs).
       seqM (putStatus (ID goRoutineInfo) remainingFuncs) (returnM (remainingFuncs, unwindedFuncs)))"

definition addFunction :: "'c ctlEnv \<Rightarrow> callingFunction \<Rightarrow> int \<Rightarrow> ('c Controller, unit) prog" where
  "addFunction env newFunc goRoutineID =
     bindM (getsM (statusOf goRoutineID)) (\<lambda>status.
     seqM (putStatus goRoutineID (status @ [newFunc]))
    (seqM (onBreakpoints (SetConditional (physicalOf env) (returnAddress newFunc) goRoutineID))
       (if callInstBreakpointsSet newFunc
        then setCallInstBreakpoints env goRoutineID (StartAddr (calledFunction newFunc))
        else returnM ())))"

section \<open>Printing\<close>

definition printableFunc :: "'c ctlEnv \<Rightarrow> Function \<Rightarrow> bool" where
  "printableFunc env f =
     (if HasPrefix (Name f) ''runtime.'' then IsExported (upperRune env) f else True)"

fun parseArgs :: "'c ctlEnv \<Rightarrow> int \<Rightarrow> Argument list \<Rightarrow> 'c Process \<Rightarrow> string list outcome" where
  "parseArgs env level [] p = Ok []"
| "parseArgs env level (arg # args) p =
     bindO (ParseValue (fuelOf env) (tracee env) arg level p) (\<lambda>s.
     bindO (parseArgs env level args p) (\<lambda>ss. Ok (s # ss)))"

definition printLine :: "string \<Rightarrow> ('c Controller, unit) prog" where
  "printLine l = modifyM (\<lambda>c. c\<lparr>outputWriter := outputWriter c @ [l]\<rparr>)"

definition printFunctionInput :: "'c ctlEnv \<Rightarrow> int \<Rightarrow> StackFrame \<Rightarrow> int \<Rightarrow> ('c Controller, unit) prog" where
  "printFunctionInput env goRoutineID stackFrame depth =
     bindM (getsM parseLevel) (\<lambda>level.
     bindM (observe (parseArgs env level (InputArguments stackFrame))) (\<lambda>inputArgs.
     bindM (readM (\<lambda>_. Repeat ''|'' (depth - 1))) (\<lambda>bars.
       printLine (bars @ [CHR 0x5C] @ '' (#'' @ dec02_int goRoutineID @ '') ''
         @ Name (frameFunction stackFrame) @ ''('' @ joinWith '', '' inputArgs @ '') (''
         @ (if length (OutputArguments stackFrame) > 0 then ''...'' else []) @ '')'' @ [CHR 0x0A]))))"

definition printFunctionOutput :: "'c ctlEnv \<Rightarrow> int \<Rightarrow> StackFrame \<Rightarrow> int \<Rightarrow> ('c Controller, unit) prog" where
  "printFunctionOutput env goRoutineID stackFrame depth =
     bindM (getsM parseLevel) (\<lambda>level.
     bindM (observe (parseArgs env level (InputArguments stackFrame))) (\<lambda>inputArgs.
     bindM (observe (parseArgs env level (OutputArguments stackFrame))) (\<lambda>outputArgs.
     bindM (readM (\<lambda>_. Repeat ''|'' (depth - 1))) (\<lambda>bars.
       printLine (bars @ ''/ (#'' @ dec02_int goRoutineID @ '') ''
         @ Name (frameFunction stackFrame) @ ''('' @ joinWith '', '' inputArgs @ '') (''
         @ joinWith '', '' outputArgs @ '')'' @ [CHR 0x0A])))))"

section \<open>Traps\<close>

definition singleStep :: "'c ctlEnv \<Rightarrow> int \<Rightarrow> u64 \<Rightarrow> ('c Controller, unit) prog" where
  "singleStep env tid a = onProcess (SingleStep (fuelOf env) (tracee env) tid a)"

definition goRoutineInfoOf :: "'c ctlEnv \<Rightarrow> int \<Rightarrow> ('c Controller, GoRoutineInfo) prog" where
  "goRoutineInfoOf env tid = onProcess (CurrentGoRoutineInfo (fuelOf env) (tracee env) tid)"

definition currentStackFrame :: "'c ctlEnv \<Rightarrow> GoRoutineInfo \<Rightarrow> ('c Controller, StackFrame) prog" where
  "currentStackFrame env goRoutineInfo =
     observe (StackFrameAt (fuelOf env) (tracee env) (CurrentStackAddr goRoutineInfo) (CurrentPC goRoutineInfo))"

definition prevStackFrame :: "'c ctlEnv \<Rightarrow> GoRoutineInfo \<Rightarrow> u64 \<Rightarrow> ('c Controller, StackFrame) prog" where
  "prevStackFrame env goRoutineInfo rip =
     observe (StackFrameAt (fuelOf env) (tracee env) (CurrentStackAddr goRoutineInfo - 8) rip)"

definition handleTrappedSystemRoutine :: "'c ctlEnv \<Rightarrow> int \<Rightarrow> ('c Controller, unit) prog" where
  "handleTrappedSystemRoutine env tid =
     bindM (observe (CurrentThreadInfo (tracee env) tid)) (\<lambda>threadInfo.
       singleStep env tid (threadPC threadInfo - 1))"

definition handleTrapAtUnrelatedBreakpoint :: "'c ctlEnv \<Rightarrow> int \<Rightarrow> u64 \<Rightarrow> ('c Controller, unit) prog" where
  "handleTrapAtUnrelatedBreakpoint env tid breakpointAddr = singleStep env tid breakpointAddr"

definition handleTrapAtFunctionCall ::
    "'c ctlEnv \<Rightarrow> int \<Rightarrow> u64 \<Rightarrow> GoRoutineInfo \<Rightarrow> ('c Controller, unit) prog" where
  "handleTrapAtFunctionCall env tid breakpointAddr goRoutineInfo =
     bindM (currentStackFrame env goRoutineInfo) (\<lambda>stackFrame.
     bindM (unwindFunctions env goRoutineInfo (UsedStackSize goRoutineInfo)) (\<lambda>(remainingFuncs, _).
     bindM (getsM traceLevel) (\<lambda>level.
       let currStackDepth = int (length remainingFuncs) + 1;
           callingFunc = \<lparr>calledFunction = frameFunction stackFrame, returnAddress = ReturnAddress stackFrame,
             usedStackSize = UsedStackSize goRoutineInfo, callInstBreakpointsSet = (currStackDepth < level)\<rparr>
       in seqM (addFunction env callingFunc (ID goRoutineInfo))
         (seqM (if currStackDepth \<le> level \<and> printableFunc env (frameFunction stackFrame)
                then printFunctionInput env (ID goRoutineInfo) stackFrame currStackDepth else returnM ())
           (singleStep env tid breakpointAddr)))))"

definition handleTrapBeforeFunctionCall :: "'c ctlEnv \<Rightarrow> int \<Rightarrow> GoRoutineInfo \<Rightarrow> ('c Controller, unit) prog" where
  "handleTrapBeforeFunctionCall env tid goRoutineInfo0 =
     seqM (singleStep env tid (CurrentPC goRoutineInfo0 - 1))
    (bindM (goRoutineInfoOf env tid) (\<lambda>goRoutineInfo.
     seqM (updateTracingStatus env goRoutineInfo (CurrentPC goRoutineInfo))
    (bindM (getsM (\<lambda>c. Tracing (goRoutines c) (ID goRoutineInfo))) (\<lambda>tracing.
       if \<not> tracing then handleTrapAtUnrelatedBreakpoint env tid (CurrentPC goRoutineInfo)
       else handleTrapAtFunctionCall env tid (CurrentPC goRoutineInfo) goRoutineInfo))))"

definition handleTrapAtDeferredFuncCall :: "'c ctlEnv \<Rightarrow> int \<Rightarrow> GoRoutineInfo \<Rightarrow> ('c Controller, unit) prog" where
  "handleTrapAtDeferredFuncCall env tid goRoutineInfo =
     seqM (case Handler goRoutineInfo of
             Some handler \<Rightarrow>
               (if Panicking goRoutineInfo
                then bindM (unwindFunctions env goRoutineInfo (UsedStackSizeAtDefer handler)) (\<lambda>_. returnM ())
                else returnM ())
           | None \<Rightarrow> returnM ())
    (seqM (handleTrapAtFunctionCall env tid (CurrentPC goRoutineInfo - 1) goRoutineInfo)
       (onBreakpoints (ClearConditional (physicalOf env) (CurrentPC goRoutineInfo - 1) (ID goRoutineInfo))))"

definition setBreakpointToDeferredFunc :: "'c ctlEnv \<Rightarrow> GoRoutineInfo \<Rightarrow> ('c Controller, unit) prog" where
  "setBreakpointToDeferredFunc env goRoutineInfo =
     (let nextAddr = NextDeferFuncAddr goRoutineInfo in
      if nextAddr = 0 then returnM ()
      else seqM (onBreakpoints (SetConditional (physicalOf env) nextAddr (ID goRoutineInfo)))
             (putHint nextAddr breakpointHintDeferredFunc))"

definition handleTrapAfterFunctionReturn :: "'c ctlEnv \<Rightarrow> GoRoutineInfo \<Rightarrow> ('c Controller, unit) prog" where
  "handleTrapAfterFunctionReturn env goRoutineInfo =
     bindM (unwindFunctions env goRoutineInfo (UsedStackSize goRoutineInfo)) (\<lambda>(remainingFuncs, unwindedFuncs).
     case unwindedFuncs of [] \<Rightarrow> panicM | firstFunc # _ \<Rightarrow>
     bindM (prevStackFrame env goRoutineInfo (StartAddr (calledFunction firstFunc))) (\<lambda>prevFrame.
     bindM (getsM traceLevel) (\<lambda>level.
       let returnedFunc = calledFunction firstFunc; currStackDepth = int (length remainingFuncs) + 1 in
       seqM (if currStackDepth \<le> level \<and> Name (frameFunction prevFrame) = ''runtime.deferproc''
             then setBreakpointToDeferredFunc env goRoutineInfo else returnM ())
         (if currStackDepth \<le> level \<and> printableFunc env returnedFunc
          then printFunctionOutput env (ID goRoutineInfo) prevFrame currStackDepth else returnM ()))))"

text \<open>
  The dispatch on the trap of one thread. A failure to read the go routine is handled like a
  thread without one: the branch of catchM that reads the thread instead.
\<close>

definition dispatch :: "'c ctlEnv \<Rightarrow> int \<Rightarrow> GoRoutineInfo \<Rightarrow> ('c Controller, unit) prog" where
  "dispatch env tid goRoutineInfo =
     (let breakpointAddr = CurrentPC goRoutineInfo - 1 in
      bindM (getsM (\<lambda>c. Hit (breakpoints c) breakpointAddr (ID goRoutineInfo))) (\<lambda>hit.
      if \<not> hit then handleTrapAtUnrelatedBreakpoint env tid breakpointAddr
      else seqM (updateTracingStatus env goRoutineInfo breakpointAddr)
     (bindM (getsM (\<lambda>c. Tracing (goRoutines c) (ID goRoutineInfo))) (\<lambda>tracing.
      if \<not> tracing then handleTrapAtUnrelatedBreakpoint env tid breakpointAddr
      else bindM (getsM (statusOf (ID goRoutineInfo))) (\<lambda>status.
        seqM (if statusUsedStackSize status > UsedStackSize goRoutineInfo
              then handleTrapAfterFunctionReturn env goRoutineInfo else returnM ())
       (bindM (getsM (hintAt breakpointAddr)) (\<lambda>hint. case hint of
          breakpointHintCall \<Rightarrow> handleTrapBeforeFunctionCall env tid goRoutineInfo
        | breakpointHintDeferredFunc \<Rightarrow> handleTrapAtDeferredFuncCall env tid goRoutineInfo
        | breakpointHintUnknown \<Rightarrow> handleTrapAtUnrelatedBreakpoint env tid breakpointAddr)))))))"

definition handleTrapEventOfThread :: "'c ctlEnv \<Rightarrow> int \<Rightarrow> ('c Controller, unit) prog" where
  "handleTrapEventOfThread env tid =
     branchM (goRoutineInfoOf env tid)
       (\<lambda>goRoutineInfo. if ID goRoutineInfo = 0 then handleTrappedSystemRoutine env tid
          else dispatch env tid goRoutineInfo)
       (\<lambda>e. handleTrappedSystemRoutine env tid)"

section \<open>The main loop\<close>

definition addPoint ::
    "'c ctlEnv \<Rightarrow> u64 \<Rightarrow> (tracingPoints \<Rightarrow> bool) \<Rightarrow> (tracingPoints \<Rightarrow> tracingPoints) \<Rightarrow> ('c Controller, unit) prog" where
  "addPoint env a known ext =
     bindM (getsM (\<lambda>c. known (tracePoints c))) (\<lambda>set_already.
       if set_already then returnM ()
       else seqM (onBreakpoints (Set (physicalOf env) a))
              (modifyM (\<lambda>c. c\<lparr>tracePoints := ext (tracePoints c)\<rparr>)))"

definition addStart :: "'c ctlEnv \<Rightarrow> u64 \<Rightarrow> ('c Controller, unit) prog" where
  "addStart env startAddr = addPoint env startAddr (\<lambda>tp. IsStartAddress tp startAddr)
     (\<lambda>tp. tp\<lparr>startAddressList := startAddressList tp @ [startAddr]\<rparr>)"

definition addEnd :: "'c ctlEnv \<Rightarrow> u64 \<Rightarrow> ('c Controller, unit) prog" where
  "addEnd env endAddr = addPoint env endAddr (\<lambda>tp. IsEndAddress tp endAddr)
     (\<lambda>tp. tp\<lparr>endAddressList := endAddressList tp @ [endAddr]\<rparr>)"

text \<open>
  The loop of setPendingTracePoints over what is in the two channels: every round takes one
  request out of one of them, so the number of pending requests bounds it.
\<close>

definition receiveStart :: "('c Controller, unit) prog" where
  "receiveStart = modifyM (\<lambda>c. c\<lparr>pendingStartTracePoint := tl (pendingStartTracePoint c)\<rparr>)"

definition receiveEnd :: "('c Controller, unit) prog" where
  "receiveEnd = modifyM (\<lambda>c. c\<lparr>pendingEndTracePoint := tl (pendingEndTracePoint c)\<rparr>)"

function drainPending :: "'c ctlEnv \<Rightarrow> u64 list \<Rightarrow> u64 list \<Rightarrow> ('c Controller, unit) prog" where
  "drainPending env [] [] = returnM ()"
| "drainPending env (s # ss) [] = seqM receiveStart (seqM (addStart env s) (drainPending env ss []))"
| "drainPending env [] (e # es) = seqM receiveEnd (seqM (addEnd env e) (drainPending env [] es))"
| "drainPending env (s # ss) (e # es) =
     (if takesStart env (s # ss) (e # es)
      then seqM receiveStart (seqM (addStart env s) (drainPending env ss (e # es)))
      else seqM receiveEnd (seqM (addEnd env e) (drainPending env (s # ss) es)))"
  by pat_completeness auto
termination
  by (relation "measure (\<lambda>(env, ss, es). length ss + length es)") auto

definition setPendingTracePoints :: "'c ctlEnv \<Rightarrow> ('c Controller, unit) prog" where
  "setPendingTracePoints env =
     bindM (getsM (\<lambda>c. (pendingStartTracePoint c, pendingEndTracePoint c))) (\<lambda>(ss, es). drainPending env ss es)"

definition receiveInterrupt :: "('c Controller, unit) prog" where
  "receiveInterrupt = modifyM (\<lambda>c. c\<lparr>interruptCh := interruptCh c - 1\<rparr>)"

definition ctlContinueAndWait :: "'c ctlEnv \<Rightarrow> ('c Controller, Event) prog" where
  "ctlContinueAndWait env = bindM (getsM interruptCh) (\<lambda>n.
     if n > 0 then seqM receiveInterrupt (failM ErrInterrupted)
     else seqM (setPendingTracePoints env) (onProcess (procContinueAndWait (tracee env))))"

definition handleTrapEvent :: "'c ctlEnv \<Rightarrow> int list \<Rightarrow> ('c Controller, Event) prog" where
  "handleTrapEvent env threadIDs =
     seqM (forM threadIDs (\<lambda>tid. catchM (handleTrapEventOfThread env tid) (\<lambda>err.
        failM (Wrapped (''failed to handle trap event (thread id: '' @ dec_int tid @ '')'') err))))
       (ctlContinueAndWait env)"

definition mainError :: "error \<Rightarrow> error" where
  "mainError err = (if err = ErrInterrupted then err else Wrapped ''failed to trace'' err)"

fun mainRounds :: "nat \<Rightarrow> 'c ctlEnv \<Rightarrow> Event \<Rightarrow> ('c Controller, unit) prog" where
  "mainRounds 0 env event = outOfFuelM"
| "mainRounds (Suc rounds) env event = (case event of
       Exited status \<Rightarrow> returnM ()
     | CoreDump \<Rightarrow> failM (ErrMsg ''the process exited due to core dump'')
     | Terminated sig \<Rightarrow> failM (ErrMsg (''the process exited due to signal '' @ dec_int sig))
     | Trapped threadIDs \<Rightarrow>
         branchM (handleTrapEvent env threadIDs) (mainRounds rounds env) (\<lambda>err. failM (mainError err)))"

text \<open>The deferred Detach runs whatever MainLoop returns, also when it panics; its error is dropped.\<close>

definition deferred :: "('s, unit) prog \<Rightarrow> ('s, 'a) prog \<Rightarrow> ('s, 'a) prog" where
  "deferred d m = (\<lambda>s. case m s of (r, s') \<Rightarrow> (if r = OutOfFuel then (OutOfFuel, s')
     else case d s' of
         (Panic, s'') \<Rightarrow> (Panic, s'')
       | (OutOfFuel, s'') \<Rightarrow> (OutOfFuel, s'')
       | (Ok _, s'') \<Rightarrow> (r, s'')
       | (Fail _, s'') \<Rightarrow> (r, s'')))"

definition MainLoop :: "nat \<Rightarrow> 'c ctlEnv \<Rightarrow> ('c Controller, unit) prog" where
  "MainLoop rounds env = deferred (onProcess (Detach (tracee env)))
     (branchM (ctlContinueAndWait env) (mainRounds rounds env) (\<lambda>err. failM (mainError err)))"

end
