(* ===== verification/ControllerFrames.thy ===== *)
theory ControllerFrames
  imports Controller
begin

text \<open>
  What every handler of the controller respects, proved once. The locales collect the laws a
  relation on controller states needs: \<open>op_frame\<close> for the operations on the breakpoints of some
  go routines, \<open>trap_frame\<close> for the handlers of one trap once the go routine is known, and
  \<open>main_frame\<close> for all that happens until the main loop ends. A relation that allows any status
  of these go routines to be stored (\<open>status_frame\<close>) is a \<open>trap_frame\<close>.
\<close>

section \<open>Running the parts\<close>

lemma onProcess_run: "onProcess m c = (case m (process c) of (r, p) \<Rightarrow> (r, c\<lparr>process := p\<rparr>))"
  by (simp add: onProcess_def zoomM_def)

lemma onBreakpoints_run:
  "onBreakpoints m c = (case m (breakpoints c, process c) of
      (r, b, p) \<Rightarrow> (r, c\<lparr>breakpoints := b, process := p\<rparr>))"
  by (simp add: onBreakpoints_def zoomM_def split: prod.splits)

lemma keeps_onProcess:
  assumes "keeps Q m" and "\<And>c p. Q (process c) p \<Longrightarrow> R c (c\<lparr>process := p\<rparr>)"
  shows "keeps R (onProcess m)"
  using assms by (auto simp: keeps_def onProcess_run split: prod.splits) (metis snd_conv)

lemma keeps_onBreakpoints:
  assumes "keeps Q m"
    and "\<And>c b p. Q (breakpoints c, process c) (b, p) \<Longrightarrow> R c (c\<lparr>breakpoints := b, process := p\<rparr>)"
  shows "keeps R (onBreakpoints m)"
  using assms by (auto simp: keeps_def onBreakpoints_run split: prod.splits) (metis snd_conv)

lemma keeps_modify: "(\<And>c. R c (f c)) \<Longrightarrow> keeps R (modifyM f)"
  by (simp add: keeps_def)

section \<open>Operations on breakpoints\<close>

text \<open>Steps that only note hints, output and cached addresses.\<close>

definition quietChange :: "'c Controller \<Rightarrow> 'c Controller \<Rightarrow> bool" where
  "quietChange c c' \<longleftrightarrow> process c' = process c \<and> breakpoints c' = breakpoints c \<and>
     statusStore c' = statusStore c \<and> goRoutines c' = goRoutines c \<and> tracePoints c' = tracePoints c \<and>
     interruptCh c' = interruptCh c \<and> pendingStartTracePoint c' = pendingStartTracePoint c \<and>
     pendingEndTracePoint c' = pendingEndTracePoint c"

locale op_frame = frame R for R :: "'c Controller \<Rightarrow> 'c Controller \<Rightarrow> bool" +
  fixes env :: "'c ctlEnv" and allowed :: "int \<Rightarrow> bool"
  assumes step: "keeps R (onProcess (SingleStep (fuelOf env) (tracee env) t a))"
    and set_conditional: "allowed g \<Longrightarrow> keeps R (onBreakpoints (SetConditional (physicalOf env) a g))"
    and clear_conditional: "allowed g \<Longrightarrow> keeps R (onBreakpoints (ClearConditional (physicalOf env) a g))"
    and clear_all: "allowed g \<Longrightarrow>
      keeps R (onBreakpoints (ClearAllByGoRoutineID (physicalOf env) (mapOrder env) g))"
    and enters: "allowed g \<Longrightarrow> R c (c\<lparr>goRoutines := Add g (goRoutines c)\<rparr>)"
    and leaves: "allowed g \<Longrightarrow> R c (c\<lparr>goRoutines := Remove g (goRoutines c)\<rparr>)"
    and quiet: "quietChange c c' \<Longrightarrow> R c c'"
begin

lemma observe_frame: "keeps R (observe f)"
  unfolding observe_def by (rule read_frame)

lemma quiet_frame:
  "keeps R (putHint a h)"
  "keeps R (printLine l)"
  "keeps R (modifyM (\<lambda>c. c\<lparr>callInstAddrCache := F c\<rparr>))"
  unfolding putHint_def printLine_def
  by (rule keeps_modify, rule quiet, simp add: quietChange_def)+

lemma findCallInstAddresses_frame: "keeps R (findCallInstAddresses env f)"
  unfolding findCallInstAddresses_def Let_def by (intro frame_intros quiet_frame observe_frame)

lemma setHinted_frame: "allowed g \<Longrightarrow> keeps R (setHinted env g a)"
  unfolding setHinted_def by (intro frame_intros quiet_frame set_conditional)

lemma alterCallInstBreakpoints_frame: "allowed g \<Longrightarrow> keeps R (alterCallInstBreakpoints env enable g pc)"
  unfolding alterCallInstBreakpoints_def
  by (intro frame_intros observe_frame findCallInstAddresses_frame setHinted_frame clear_conditional)

lemma enterTracepoint_frame: "allowed (ID info) \<Longrightarrow> keeps R (enterTracepoint env info)"
  unfolding enterTracepoint_def setCallInstBreakpoints_def
  by (intro frame_intros alterCallInstBreakpoints_frame keeps_modify enters)

lemma exitTracepoint_frame: "allowed g \<Longrightarrow> keeps R (exitTracepoint env g)"
  unfolding exitTracepoint_def by (intro frame_intros keeps_modify leaves clear_all)

lemma updateTracingStatus_frame: "allowed (ID info) \<Longrightarrow> keeps R (updateTracingStatus env info a)"
  unfolding updateTracingStatus_def by (intro frame_intros enterTracepoint_frame exitTracepoint_frame)

lemma unwindLoop_frame: "allowed (ID info) \<Longrightarrow> keeps R (unwindLoop env info sz fs i)"
proof (induction i)
  case 0
  show ?case unfolding unwindLoop.simps by (rule return_frame)
next
  case (Suc i)
  then show ?case
    unfolding unwindLoop.simps Let_def clearCallInstBreakpoints_def
    by (intro frame_intros observe_frame clear_conditional alterCallInstBreakpoints_frame)
qed

lemma doUnwindFunctions_frame: "allowed (ID info) \<Longrightarrow> keeps R (doUnwindFunctions env info sz)"
  unfolding doUnwindFunctions_def by (intro frame_intros unwindLoop_frame)

lemma singleStep_frame: "keeps R (singleStep env t a)"
  unfolding singleStep_def by (rule step)

lemma handleTrappedSystemRoutine_frame: "keeps R (handleTrappedSystemRoutine env t)"
  unfolding handleTrappedSystemRoutine_def by (intro frame_intros observe_frame singleStep_frame)

lemma handleTrapAtUnrelatedBreakpoint_frame: "keeps R (handleTrapAtUnrelatedBreakpoint env t a)"
  unfolding handleTrapAtUnrelatedBreakpoint_def by (rule singleStep_frame)

lemma setBreakpointToDeferredFunc_frame: "allowed (ID info) \<Longrightarrow> keeps R (setBreakpointToDeferredFunc env info)"
  unfolding setBreakpointToDeferredFunc_def Let_def by (intro frame_intros set_conditional quiet_frame)

lemma printing_frame:
  "keeps R (printFunctionInput env g sf depth)"
  "keeps R (printFunctionOutput env g sf depth)"
  unfolding printFunctionInput_def printFunctionOutput_def by (intro frame_intros observe_frame quiet_frame)+

end

section \<open>Handlers of a trap\<close>

locale trap_frame = op_frame +
  assumes unwinds: "allowed (ID info) \<Longrightarrow> keeps R (unwindFunctions env info sz)"
    and calls: "allowed (ID info) \<Longrightarrow> keeps R (handleTrapAtFunctionCall env t a info)"
begin

lemma handleTrapAtDeferredFuncCall_frame:
  "allowed (ID info) \<Longrightarrow> keeps R (handleTrapAtDeferredFuncCall env t info)"
  unfolding handleTrapAtDeferredFuncCall_def by (intro frame_intros unwinds calls clear_conditional)

lemma handleTrapAfterFunctionReturn_frame:
  "allowed (ID info) \<Longrightarrow> keeps R (handleTrapAfterFunctionReturn env info)"
  unfolding handleTrapAfterFunctionReturn_def Let_def prevStackFrame_def
  by (intro frame_intros unwinds observe_frame setBreakpointToDeferredFunc_frame printing_frame)

end

text \<open>A relation that lets the status of the allowed go routines change at will.\<close>

locale status_frame = op_frame +
  assumes puts: "allowed g \<Longrightarrow> R c (c\<lparr>statusStore := (statusStore c)(g \<mapsto> s)\<rparr>)"
begin

lemma putStatus_frame: "allowed g \<Longrightarrow> keeps R (putStatus g s)"
  unfolding putStatus_def by (intro keeps_modify puts)

lemma unwindFunctions_frame: "allowed (ID info) \<Longrightarrow> keeps R (unwindFunctions env info sz)"
  unfolding unwindFunctions_def by (intro frame_intros doUnwindFunctions_frame putStatus_frame)

lemma addFunction_frame: "allowed g \<Longrightarrow> keeps R (addFunction env f g)"
  unfolding addFunction_def setCallInstBreakpoints_def
  by (intro frame_intros putStatus_frame set_conditional alterCallInstBreakpoints_frame)

lemma handleTrapAtFunctionCall_frame: "allowed (ID info) \<Longrightarrow> keeps R (handleTrapAtFunctionCall env t a info)"
  unfolding handleTrapAtFunctionCall_def Let_def currentStackFrame_def
  by (intro frame_intros observe_frame unwindFunctions_frame addFunction_frame printing_frame singleStep_frame)

end

sublocale status_frame \<subseteq> trap_frame R env allowed
  by unfold_locales (rule unwindFunctions_frame handleTrapAtFunctionCall_frame; assumption)+

section \<open>Events and the main loop\<close>

lemma addPoint_keeps:
  assumes "frame R" and "keeps R (onBreakpoints (Set (physicalOf env) a))"
    and "\<And>c tp. R c (c\<lparr>tracePoints := tp\<rparr>)"
  shows "keeps R (addStart env a)" and "keeps R (addEnd env a)"
  unfolding addStart_def addEnd_def addPoint_def
  by (intro frame.bind_frame [OF assms(1)] frame.gets_frame [OF assms(1)] frame.if_frame [OF assms(1)]
      frame.return_frame [OF assms(1)] frame.seq_frame [OF assms(1)] assms(2) keeps_modify assms(3))+

lemma receives_keep:
  "(\<And>c. R c (c\<lparr>pendingStartTracePoint := tl (pendingStartTracePoint c)\<rparr>)) \<Longrightarrow> keeps R receiveStart"
  "(\<And>c. R c (c\<lparr>pendingEndTracePoint := tl (pendingEndTracePoint c)\<rparr>)) \<Longrightarrow> keeps R receiveEnd"
  "(\<And>c. R c (c\<lparr>interruptCh := interruptCh c - 1\<rparr>)) \<Longrightarrow> keeps R receiveInterrupt"
  by (simp_all add: receiveStart_def receiveEnd_def receiveInterrupt_def keeps_def)

locale event_frame = trap_frame +
  assumes all: "allowed g"
    and info: "keeps R (onProcess (CurrentGoRoutineInfo (fuelOf env) (tracee env) t))"
begin

lemma handleTrapBeforeFunctionCall_frame: "keeps R (handleTrapBeforeFunctionCall env t i)"
  unfolding handleTrapBeforeFunctionCall_def goRoutineInfoOf_def
  by (intro frame_intros singleStep_frame info updateTracingStatus_frame all
      handleTrapAtUnrelatedBreakpoint_frame calls)

lemma dispatch_frame: "keeps R (dispatch env t i)"
proof -
  have "keeps R (case hint of
          breakpointHintCall \<Rightarrow> handleTrapBeforeFunctionCall env t i
        | breakpointHintDeferredFunc \<Rightarrow> handleTrapAtDeferredFuncCall env t i
        | breakpointHintUnknown \<Rightarrow> handleTrapAtUnrelatedBreakpoint env t (CurrentPC i - 1))" for hint
    using all by (cases hint) (auto intro: handleTrapBeforeFunctionCall_frame
        handleTrapAtDeferredFuncCall_frame handleTrapAtUnrelatedBreakpoint_frame)
  then show ?thesis
    unfolding dispatch_def Let_def
    by (intro frame_intros handleTrapAtUnrelatedBreakpoint_frame updateTracingStatus_frame
        handleTrapAfterFunctionReturn_frame all)
qed

lemma handleTrapEventOfThread_frame: "keeps R (handleTrapEventOfThread env t)"
  unfolding handleTrapEventOfThread_def goRoutineInfoOf_def
  by (intro frame_intros info handleTrappedSystemRoutine_frame dispatch_frame)

lemma handling_frame:
  "keeps R (forM ids (\<lambda>tid. catchM (handleTrapEventOfThread env tid) (\<lambda>err. failM (f tid err))))"
  by (intro frame_intros handleTrapEventOfThread_frame)

end

locale main_frame = event_frame +
  assumes continues: "keeps R (onProcess (procContinueAndWait (tracee env)))"
    and adds_start: "keeps R (addStart env a)"
    and adds_end: "keeps R (addEnd env a)"
    and receives: "keeps R receiveStart" "keeps R receiveEnd" "keeps R receiveInterrupt"
begin

lemma drainPending_frame: "keeps R (drainPending env ss es)"
proof (induction "length ss + length es" arbitrary: ss es rule: less_induct)
  case less
  have "keeps R (drainPending env ss' es')" if "length ss' + length es' < length ss + length es" for ss' es'
    by (rule less) (rule that)
  then show ?case
    by (cases ss; cases es; simp only: drainPending.simps;
        intro frame_intros receives adds_start adds_end; simp)
qed

lemma ctlContinueAndWait_frame: "keeps R (ctlContinueAndWait env)"
  unfolding ctlContinueAndWait_def setPendingTracePoints_def
  by (intro frame_intros receives drainPending_frame continues)

lemma handleTrapEvent_frame: "keeps R (handleTrapEvent env ids)"
  unfolding handleTrapEvent_def by (intro seq_frame handling_frame ctlContinueAndWait_frame)

lemma mainRounds_frame: "keeps R (mainRounds n env event)"
proof (induction n arbitrary: event)
  case 0
  show ?case unfolding mainRounds.simps by (rule outOfFuel_frame)
next
  case (Suc n)
  then show ?case
    by (cases event) (auto simp only: mainRounds.simps Event.case
        intro!: return_frame fail_frame branch_frame handleTrapEvent_frame)
qed

lemma main_before_detach_frame:
  "keeps R (branchM (ctlContinueAndWait env) (mainRounds n env) (\<lambda>err. failM (mainError err)))"
  by (intro frame_intros ctlContinueAndWait_frame mainRounds_frame)

end

end
