(* ===== verification/ControllerSync.thy ===== *)
theory ControllerSync
  imports ControllerFrames
begin

text \<open>
  Invariants of the controller: its breakpoint map names exactly the addresses at which the
  process has a breakpoint instruction (\<open>ctlSync\<close>), the program text is the original one under
  these breakpoints (\<open>traced\<close> of the process), and the stack of every go routine is ordered by
  the used stack size (\<open>sortedStacks\<close>). The first and the third hold for every client.
\<close>

section \<open>Running the process leaves its breakpoints\<close>

definition sameMap :: "'c Process \<Rightarrow> 'c Process \<Rightarrow> bool" where
  "sameMap p p' \<longleftrightarrow> procBreakpoints p' = procBreakpoints p"

interpretation smap: frame sameMap
  by unfold_locales (auto simp: sameMap_def)

lemma onClient_map: "keeps sameMap (onClient m)"
  by (auto simp: keeps_def sameMap_def onClient_run split: prod.splits)

lemma closeOnExit_map: "keeps sameMap (closeOnExit env event)"
  unfolding closeOnExit_def closeBinary_def
  by (intro frame_intros) (auto simp: keeps_def sameMap_def)

lemma SingleStep_map: "keeps sameMap (SingleStep fuel env t a)"
proof (induction fuel arbitrary: t a)
  case 0
  show ?case unfolding SingleStep.simps by (rule smap.outOfFuel_frame)
next
  case (Suc fuel)
  have others: "keeps sameMap (singleStepUnspecifiedThreads fuel env t ids)" for ids
    unfolding singleStepUnspecifiedThreads_def by (intro frame_intros Suc.IH)
  have handler: "keeps sameMap
      (case err of UnspecifiedThreadError ids \<Rightarrow>
          seqM (singleStepUnspecifiedThreads fuel env t ids) (SingleStep fuel env t a)
        | _ \<Rightarrow> failM err)" for err
    by (cases err) (auto intro: smap.fail_frame smap.seq_frame others Suc.IH)
  show ?case
    unfolding SingleStep_error_branch setPC_def stepAndWait_def writeMem_def
    by (intro frame_intros onClient_map closeOnExit_map handler)
qed

lemma CurrentGoRoutineInfo_keeps:
  assumes R: "frame Q" and tls: "keeps Q (onClient (ReadTLS (debugapiClient env) t (offsetToG env)))"
    and step: "\<And>fuel t a. keeps Q (SingleStep fuel env t a)"
  shows "keeps Q (CurrentGoRoutineInfo fuel env t)"
proof (induction fuel)
  case 0
  show ?case unfolding CurrentGoRoutineInfo.simps by (rule frame.outOfFuel_frame [OF R])
next
  case (Suc fuel)
  note frames = frame.fail_frame [OF R] frame.seq_frame [OF R] frame.branch_frame [OF R] frame.read_frame [OF R]
  have others: "keeps Q (singleStepUnspecifiedThreads fuel env t ids)" for ids
    unfolding singleStepUnspecifiedThreads_def
    by (intro frame.forM_frame [OF R] frame.if_frame [OF R] frame.return_frame [OF R] frame.bind_frame [OF R]
        frames step)
  have handler: "keeps Q
      (case err of UnspecifiedThreadError ids \<Rightarrow>
          seqM (singleStepUnspecifiedThreads fuel env t ids) (CurrentGoRoutineInfo fuel env t)
        | _ \<Rightarrow> failM err)" for err
    by (cases err) (auto intro: frames others Suc.IH)
  show ?case unfolding CurrentGoRoutineInfo.simps by (intro frames tls handler)
qed

lemma CurrentGoRoutineInfo_map: "keeps sameMap (CurrentGoRoutineInfo fuel env t)"
  by (rule CurrentGoRoutineInfo_keeps [OF smap.frame_axioms onClient_map SingleStep_map])

lemma procContinueAndWait_map: "keeps sameMap (procContinueAndWait env)"
  unfolding procContinueAndWait_def by (intro frame_intros onClient_map closeOnExit_map)

section \<open>The map and the process agree\<close>

definition ctlSync :: "'c Controller \<Rightarrow> bool" where
  "ctlSync c \<longleftrightarrow> inSync armedAddrs (breakpoints c, process c)"

definition syncKept :: "'c Controller \<Rightarrow> 'c Controller \<Rightarrow> bool" where
  "syncKept c c' \<longleftrightarrow> (ctlSync c \<longrightarrow> ctlSync c')"

lemma sync_process: "keeps sameMap m \<Longrightarrow> keeps syncKept (onProcess m)"
  by (erule keeps_onProcess) (simp add: syncKept_def ctlSync_def inSync_def sameMap_def armedAddrs_def)

lemma sync_breakpoints:
  "keeps (\<lambda>s s'. inSync armedAddrs s \<longrightarrow> inSync armedAddrs s') m \<Longrightarrow> keeps syncKept (onBreakpoints m)"
  by (erule keeps_onBreakpoints) (simp add: syncKept_def ctlSync_def)

lemma breakpoints_sync:
  "keeps (\<lambda>s s'. inSync armedAddrs s \<longrightarrow> inSync armedAddrs s') (SetConditional (physicalOf env) a g)"
  "keeps (\<lambda>s s'. inSync armedAddrs s \<longrightarrow> inSync armedAddrs s') (ClearConditional (physicalOf env) a g)"
  "keeps (\<lambda>s s'. inSync armedAddrs s \<longrightarrow> inSync armedAddrs s') (ClearAllByGoRoutineID (physicalOf env) order g)"
  "keeps (\<lambda>s s'. inSync armedAddrs s \<longrightarrow> inSync armedAddrs s') (Set (physicalOf env) a)"
  by (simp_all add: keeps_def physicalOf_def proc.SetConditional_sync proc.ClearConditional_sync
      proc.ClearAllByGoRoutineID_sync proc.Set_sync)

interpretation ctlsync: status_frame syncKept env "\<lambda>_. True" for env
proof unfold_locales
  show "keeps syncKept (onProcess (SingleStep (fuelOf env) (tracee env) t a))" for t a
    by (rule sync_process [OF SingleStep_map])
  show "keeps syncKept (onBreakpoints (SetConditional (physicalOf env) a g))" for a g
    by (rule sync_breakpoints [OF breakpoints_sync(1)])
  show "keeps syncKept (onBreakpoints (ClearConditional (physicalOf env) a g))" for a g
    by (rule sync_breakpoints [OF breakpoints_sync(2)])
  show "keeps syncKept (onBreakpoints (ClearAllByGoRoutineID (physicalOf env) (mapOrder env) g))" for g
    by (rule sync_breakpoints [OF breakpoints_sync(3)])
qed (auto simp: syncKept_def ctlSync_def quietChange_def)

interpretation ctlsync_main: main_frame syncKept env "\<lambda>_. True" for env
proof unfold_locales
  show "keeps syncKept (onProcess (CurrentGoRoutineInfo (fuelOf env) (tracee env) t))" for t
    by (rule sync_process [OF CurrentGoRoutineInfo_map])
  show "keeps syncKept (onProcess (procContinueAndWait (tracee env)))"
    by (rule sync_process [OF procContinueAndWait_map])
  note points = addPoint_keeps [OF ctlsync.frame_axioms sync_breakpoints [OF breakpoints_sync(4)]]
  show "keeps syncKept (addStart env a)" and "keeps syncKept (addEnd env a)" for a
    by (rule points; simp add: syncKept_def ctlSync_def)+
qed (auto intro!: receives_keep simp: syncKept_def ctlSync_def)

lemma NewController_sync: "procBreakpoints p = Map.empty \<Longrightarrow> ctlSync (NewController p)"
  by (simp add: ctlSync_def inSync_def NewController_def NewBreakpoints_def armedAddrs_def)

section \<open>The program text\<close>

text \<open>What the two closures keep of the process, every operation of the breakpoint map keeps.\<close>

lemma breakpoint_operations_keep:
  assumes Q: "frame Q" and set: "\<And>a. keeps Q (doSet ph a)" and clear: "\<And>a. keeps Q (doClear ph a)"
  shows "keeps (\<lambda>s s'. Q (snd s) (snd s')) (SetConditional ph a g)"
    and "keeps (\<lambda>s s'. Q (snd s) (snd s')) (ClearConditional ph a g)"
    and "keeps (\<lambda>s s'. Q (snd s) (snd s')) (Set ph a)"
    and "keeps (\<lambda>s s'. Q (snd s) (snd s')) (ClearAllByGoRoutineID ph order g)"
proof -
  let ?L = "\<lambda>s s'. Q (snd s) (snd s')"
  have L: "frame ?L" using Q unfolding frame_def by blast
  note frames = frame.bind_frame [OF L] frame.seq_frame [OF L] frame.gets_frame [OF L] frame.if_frame
    frame.option_frame frame.return_frame [OF L]
  have ph: "keeps ?L (onPhysical m)" if "keeps Q m" for m
    using that by (auto simp: keeps_def onPhysical_run split: prod.splits) (metis snd_conv)
  have put: "keeps ?L (putBp a b)" "keeps ?L (deleteBp a)" for a b
    using frame.refl [OF Q] by (auto simp: keeps_def putBp_def deleteBp_def)
  have C: "keeps ?L (Clear ph a)" for a
    unfolding Clear_def by (intro frames frame.if_frame [OF L] frame.option_frame [OF L] put ph clear)
  show "keeps ?L (SetConditional ph a g)"
    unfolding SetConditional_def by (intro frames frame.if_frame [OF L] frame.option_frame [OF L] put ph set)
  show "keeps ?L (ClearConditional ph a g)"
    unfolding ClearConditional_def Let_def
    by (intro frames frame.if_frame [OF L] frame.option_frame [OF L] put ph C)
  show "keeps ?L (Set ph a)"
    unfolding Set_def by (intro frames frame.if_frame [OF L] frame.option_frame [OF L] put ph set)
  have "keeps ?L (clearAllLoop ph g as)" for as
  proof (induction as)
    case Nil
    show ?case unfolding clearAllLoop.simps by (rule frame.return_frame [OF L])
  next
    case (Cons a as)
    then show ?case
      unfolding clearAllLoop.simps Let_def
      by (intro frames frame.if_frame [OF L] frame.option_frame [OF L] put C)
  qed
  then show "keeps ?L (ClearAllByGoRoutineID ph order g)"
    unfolding ClearAllByGoRoutineID_def by (intro frames)
qed

definition textKeeps :: "('c \<Rightarrow> u64 \<Rightarrow> u8) \<Rightarrow> u64 set \<Rightarrow> (u64 \<Rightarrow> u8) \<Rightarrow> 'c Process \<Rightarrow> 'c Process \<Rightarrow> bool" where
  "textKeeps memory code orig p p' \<longleftrightarrow> (traced memory code orig p \<longrightarrow> traced memory code orig p')"

interpretation tkeeps: frame "textKeeps memory code orig" for memory code orig
  by unfold_locales (auto simp: textKeeps_def)

definition textInv :: "('c \<Rightarrow> u64 \<Rightarrow> u8) \<Rightarrow> u64 set \<Rightarrow> (u64 \<Rightarrow> u8) \<Rightarrow> 'c Controller \<Rightarrow> 'c Controller \<Rightarrow> bool" where
  "textInv memory code orig c c' \<longleftrightarrow> textKeeps memory code orig (process c) (process c')"

lemma SingleStep_text:
  assumes "tracee_text (debugapiClient env) memory code"
  shows "keeps (textKeeps memory code orig) (SingleStep fuel env t a)"
proof (rule keepsI)
  fix p :: "'a Process"
  have "stepFrame memory code orig (procBreakpoints p) p (snd (SingleStep fuel env t a p))"
    using tracee_text.SingleStep_step [OF assms refl] by (simp add: keeps_def)
  then show "textKeeps memory code orig p (snd (SingleStep fuel env t a p))"
    by (auto simp: stepFrame_def textKeeps_def)
qed

lemma process_text:
  assumes T: "tracee_text (debugapiClient env) memory code"
  shows "keeps (textKeeps memory code orig) (CurrentGoRoutineInfo fuel env t)"
    and "keeps (textKeeps memory code orig) (procContinueAndWait env)"
    and "keeps (textKeeps memory code orig) (SetBreakpoint env a)"
    and "keeps (textKeeps memory code orig) (ClearBreakpoint env a)"
proof -
  have "keeps (sameText memory code) (onClient (ReadTLS (debugapiClient env) t (offsetToG env)))"
    by (rule onClient_same) (rule tracee_text.text_calls(2) [OF T])
  then have "keeps (textKeeps memory code orig) (onClient (ReadTLS (debugapiClient env) t (offsetToG env)))"
    unfolding keeps_def textKeeps_def by (blast intro: sameText_traced)
  then show "keeps (textKeeps memory code orig) (CurrentGoRoutineInfo fuel env t)"
    by (rule CurrentGoRoutineInfo_keeps [OF tkeeps.frame_axioms _ SingleStep_text [OF T]])
  show "keeps (textKeeps memory code orig) (procContinueAndWait env)"
    using tracee_text.procContinueAndWait_traced [OF T refl] by (simp add: keeps_def textKeeps_def)
  show "keeps (textKeeps memory code orig) (SetBreakpoint env a)"
    using tracee_text.SetBreakpoint_traced [OF T refl _ prod.collapse [symmetric]]
    by (simp add: keeps_def textKeeps_def)
  show "keeps (textKeeps memory code orig) (ClearBreakpoint env a)"
    using tracee_text.ClearBreakpoint_traced [OF T refl _ prod.collapse [symmetric]]
    by (simp add: keeps_def textKeeps_def)
qed

lemma text_process: "keeps (textKeeps memory code orig) m \<Longrightarrow> keeps (textInv memory code orig) (onProcess m)"
  by (erule keeps_onProcess) (simp add: textInv_def)

lemma text_breakpoints:
  "keeps (\<lambda>s s'. textKeeps memory code orig (snd s) (snd s')) m \<Longrightarrow>
     keeps (textInv memory code orig) (onBreakpoints m)"
  by (erule keeps_onBreakpoints) (simp add: textInv_def)

lemma text_status_frame:
  assumes T: "tracee_text (debugapiClient (tracee env)) memory code"
  shows "status_frame (textInv memory code orig) env (\<lambda>_. True)"
proof -
  have "keeps (textKeeps memory code orig) (doSet (physicalOf env) a)"
    and "keeps (textKeeps memory code orig) (doClear (physicalOf env) a)" for a
    by (simp_all add: physicalOf_def procPhysical_def process_text [OF T])
  note ops = breakpoint_operations_keep [OF tkeeps.frame_axioms this]
  show ?thesis
    by unfold_locales
      (auto intro!: text_process SingleStep_text [OF T] text_breakpoints ops
        simp: textInv_def tkeeps.refl quietChange_def intro: tkeeps.trans)
qed

lemma text_main_frame:
  assumes T: "tracee_text (debugapiClient (tracee env)) memory code"
  shows "main_frame (textInv memory code orig) env (\<lambda>_. True)"
proof -
  have "keeps (textKeeps memory code orig) (doSet (physicalOf env) a)"
    and "keeps (textKeeps memory code orig) (doClear (physicalOf env) a)" for a
    by (simp_all add: physicalOf_def procPhysical_def process_text [OF T])
  note ops = breakpoint_operations_keep [OF tkeeps.frame_axioms this]
  note status = text_status_frame [OF T, of orig]
  have "keeps (textInv memory code orig) (onBreakpoints (Set (physicalOf env) a))" for a
    by (rule text_breakpoints [OF ops(3)])
  moreover have "frame (textInv memory code orig)"
    using status_frame.axioms(1) [OF status] by (rule op_frame.axioms(1))
  ultimately have points: "keeps (textInv memory code orig) (addStart env a)"
      "keeps (textInv memory code orig) (addEnd env a)" for a
    by (simp_all add: addPoint_keeps textInv_def tkeeps.refl)
  show ?thesis
    using status_frame.unwindFunctions_frame [OF status] status_frame.handleTrapAtFunctionCall_frame [OF status]
      status_frame.axioms(1) [OF status]
    by (intro main_frame.intro event_frame.intro trap_frame.intro trap_frame_axioms.intro
        event_frame_axioms.intro main_frame_axioms.intro)
      (auto intro!: text_process process_text [OF T] points receives_keep simp: textInv_def tkeeps.refl)
qed

end
