(* ===== verification/ControllerStacks.thy ===== *)
theory ControllerStacks
  imports ControllerSync
begin

text \<open>
  The stack the controller keeps for a go routine: how unwinding splits it, that it stays ordered
  by the used stack size, and that a trap of one go routine does not touch what is kept for
  another.
\<close>

section \<open>Unwinding\<close>

text \<open>The operations on breakpoints and the process leave the stacks as they are.\<close>

definition sameStacks :: "'c Controller \<Rightarrow> 'c Controller \<Rightarrow> bool" where
  "sameStacks c c' \<longleftrightarrow> statusStore c' = statusStore c"

lemma onProcess_stacks: "keeps sameStacks (onProcess m)"
  by (auto simp: keeps_def sameStacks_def onProcess_run split: prod.splits)

lemma onBreakpoints_stacks: "keeps sameStacks (onBreakpoints m)"
  by (auto simp: keeps_def sameStacks_def onBreakpoints_run split: prod.splits)

interpretation stacks: op_frame sameStacks env "\<lambda>_. True" for env
  by unfold_locales (auto intro: onProcess_stacks onBreakpoints_stacks simp: sameStacks_def quietChange_def)

text \<open>
  Where the loop stops: at a function with a smaller stack, or one with the same stack and the
  name of the function at the program counter.
\<close>

definition stopsAt :: "'c ctlEnv \<Rightarrow> GoRoutineInfo \<Rightarrow> u64 \<Rightarrow> callingFunction \<Rightarrow> bool" where
  "stopsAt env info sz f \<longleftrightarrow> usedStackSize f < sz \<or>
     (usedStackSize f = sz \<and> (\<exists>p currFunction.
        procFindFunction (fuelOf env) (tracee env) (CurrentPC info) p = Ok currFunction \<and>
        Name (calledFunction f) = Name currFunction))"

text \<open>
  What the loop takes off: a function with a larger stack, or one with the same stack and another
  name than the function at the program counter.
\<close>

definition leaves :: "'c ctlEnv \<Rightarrow> GoRoutineInfo \<Rightarrow> u64 \<Rightarrow> callingFunction \<Rightarrow> bool" where
  "leaves env info sz f \<longleftrightarrow> sz < usedStackSize f \<or>
     (usedStackSize f = sz \<and> (\<exists>p currFunction.
        procFindFunction (fuelOf env) (tracee env) (CurrentPC info) p = Ok currFunction \<and>
        Name (calledFunction f) \<noteq> Name currFunction))"

lemma unwindLoop_Ok:
  assumes "unwindLoop env info sz fs i c = (Ok (remaining, unwinded), c')" and "i \<le> length fs"
  shows "\<exists>j\<le>i. remaining = take j fs \<and> unwinded = drop j fs \<and>
    (j > 0 \<longrightarrow> stopsAt env info sz (fs ! (j - 1))) \<and> (\<forall>k. j \<le> k \<and> k < i \<longrightarrow> leaves env info sz (fs ! k))"
  using assms
proof (induction i arbitrary: c)
  case 0
  then show ?case by auto
next
  case (Suc i)
  let ?f = "fs ! i"
  let ?same = "if usedStackSize ?f = sz
      then bindM (observe (procFindFunction (fuelOf env) (tracee env) (CurrentPC info)))
             (\<lambda>currFunction. returnM (Name (calledFunction ?f) = Name currFunction))
      else returnM False"
  show ?case
  proof (cases "usedStackSize ?f < sz")
    case True
    with Suc.prems have "remaining = take (Suc i) fs \<and> unwinded = drop (Suc i) fs" by simp
    moreover have "stopsAt env info sz (fs ! (Suc i - 1))" using True by (simp add: stopsAt_def)
    ultimately show ?thesis by (intro exI [of _ "Suc i"]) auto
  next
    case False
    with Suc.prems(1) obtain same c1 where S: "?same c = (Ok same, c1)"
      and rest: "(if same then returnM (take (Suc i) fs, drop (Suc i) fs)
         else seqM (onBreakpoints (ClearConditional (physicalOf env) (returnAddress ?f) (ID info)))
             (seqM (if callInstBreakpointsSet ?f
                    then clearCallInstBreakpoints env (ID info) (StartAddr (calledFunction ?f))
                    else returnM ()) (unwindLoop env info sz fs i))) c1 = (Ok (remaining, unwinded), c')"
      by (auto simp: Let_def bindM_Ok simp del: bindM_primitive)
    show ?thesis
    proof (cases same)
      case True
      with S have "stopsAt env info sz ?f"
        by (auto simp: stopsAt_def observe_def bindM_Ok split: if_splits)
      moreover have "remaining = take (Suc i) fs \<and> unwinded = drop (Suc i) fs" using rest True by simp
      ultimately show ?thesis by (intro exI [of _ "Suc i"]) auto
    next
      case no: False
      with S False have gone: "leaves env info sz ?f"
        by (auto simp: leaves_def observe_def bindM_Ok split: if_splits)
      from no rest obtain c2 where "unwindLoop env info sz fs i c2 = (Ok (remaining, unwinded), c')"
        by (auto simp: seqM_Ok simp del: bindM_primitive)
      with Suc.IH Suc.prems(2) obtain j where j: "j \<le> i" "remaining = take j fs \<and> unwinded = drop j fs"
        "j > 0 \<longrightarrow> stopsAt env info sz (fs ! (j - 1))"
        "\<forall>k. j \<le> k \<and> k < i \<longrightarrow> leaves env info sz (fs ! k)" by auto
      moreover from gone j(4) have "\<forall>k. j \<le> k \<and> k < Suc i \<longrightarrow> leaves env info sz (fs ! k)"
        by (metis less_Suc_eq)
      ultimately show ?thesis by (intro exI [of _ j]) auto
    qed
  qed
qed

lemma doUnwindFunctions_stacks:
  "doUnwindFunctions env info sz c = (r, c') \<Longrightarrow> statusStore c' = statusStore c"
  using keepsD [OF stacks.doUnwindFunctions_frame] by (auto simp: sameStacks_def)

lemma unwindFunctions_Ok:
  assumes "unwindFunctions env info sz c = (Ok (remaining, unwinded), c')"
  shows "\<exists>j\<le>length (statusOf (ID info) c). remaining = take j (statusOf (ID info) c) \<and>
      unwinded = drop j (statusOf (ID info) c) \<and>
      (j > 0 \<longrightarrow> stopsAt env info sz (statusOf (ID info) c ! (j - 1))) \<and>
      (\<forall>k. j \<le> k \<and> k < length (statusOf (ID info) c) \<longrightarrow> leaves env info sz (statusOf (ID info) c ! k))"
    and "statusStore c' = (statusStore c)(ID info \<mapsto> remaining)"
proof -
  from assms obtain c1 where 1: "doUnwindFunctions env info sz c = (Ok (remaining, unwinded), c1)"
    and c': "c' = c1\<lparr>statusStore := (statusStore c1)(ID info \<mapsto> remaining)\<rparr>"
    by (auto simp: unwindFunctions_def putStatus_def bindM_Ok split: prod.splits simp del: bindM_primitive)
      (auto simp: seqM_Ok)
  from 1 show "\<exists>j\<le>length (statusOf (ID info) c). remaining = take j (statusOf (ID info) c) \<and>
      unwinded = drop j (statusOf (ID info) c) \<and>
      (j > 0 \<longrightarrow> stopsAt env info sz (statusOf (ID info) c ! (j - 1))) \<and>
      (\<forall>k. j \<le> k \<and> k < length (statusOf (ID info) c) \<longrightarrow> leaves env info sz (statusOf (ID info) c ! k))"
    unfolding doUnwindFunctions_def by (intro unwindLoop_Ok [of _ _ _ _ _ c _ _ c1]) simp_all
  show "statusStore c' = (statusStore c)(ID info \<mapsto> remaining)"
    using doUnwindFunctions_stacks [OF 1] by (simp add: c')
qed

lemma unwindFunctions_not_Ok:
  assumes "unwindFunctions env info sz c = (r, c')" and "\<forall>x. r \<noteq> Ok x"
  shows "statusStore c' = statusStore c"
proof -
  obtain r1 c1 where 1: "doUnwindFunctions env info sz c = (r1, c1)" by (cases "doUnwindFunctions env info sz c")
  have "c' = c1"
    using assms 1 by (cases r1) (auto simp: unwindFunctions_def bindM_def seqM_def putStatus_def split: prod.splits)
  then show ?thesis using doUnwindFunctions_stacks [OF 1] by simp
qed

section \<open>The stacks are ordered\<close>

definition sortedStacks :: "'c Controller \<Rightarrow> bool" where
  "sortedStacks c \<longleftrightarrow> (\<forall>g. sorted (map usedStackSize (statusOf g c)))"

definition sortedKept :: "'c Controller \<Rightarrow> 'c Controller \<Rightarrow> bool" where
  "sortedKept c c' \<longleftrightarrow> (sortedStacks c \<longrightarrow> sortedStacks c')"

lemma sortedKept_same: "statusStore c' = statusStore c \<Longrightarrow> sortedKept c c'"
  by (simp add: sortedKept_def sortedStacks_def statusOf_def)

lemma sortedKept_trans: "sortedKept c c1 \<Longrightarrow> sortedKept c1 c' \<Longrightarrow> sortedKept c c'"
  by (simp add: sortedKept_def)

lemma keeps_sorted: "keeps sameStacks m \<Longrightarrow> keeps sortedKept m"
  by (auto simp: keeps_def sameStacks_def intro: sortedKept_same)

lemma statusOf_update:
  "statusStore c' = (statusStore c)(g \<mapsto> s) \<Longrightarrow> statusOf h c' = (if h = g then s else statusOf h c)"
  by (simp add: statusOf_def)

lemma sorted_prefix:
  "sorted (map usedStackSize fs) \<Longrightarrow> sorted (map usedStackSize (take j fs))"
  by (simp add: take_map [symmetric] sorted_wrt_take)

lemma sorted_snoc_prefix:
  fixes fs :: "callingFunction list"
  assumes "sorted (map usedStackSize fs)" and "j \<le> length fs"
    and "j > 0 \<longrightarrow> usedStackSize (fs ! (j - 1)) \<le> usedStackSize f"
  shows "sorted (map usedStackSize (take j fs @ [f]))"
proof -
  have "usedStackSize x \<le> usedStackSize f" if x: "x \<in> set (take j fs)" for x
  proof -
    obtain k where k: "k < j" "x = fs ! k" using x assms(2) by (auto simp: in_set_conv_nth)
    then have "usedStackSize (fs ! k) \<le> usedStackSize (fs ! (j - 1))"
      using assms(1,2) by (auto simp: sorted_iff_nth_mono)
    with k assms(3) show ?thesis by auto
  qed
  with sorted_prefix [OF assms(1), of j] show ?thesis by (auto simp: sorted_append)
qed

lemma unwindFunctions_sorted: "keeps sortedKept (unwindFunctions env info sz)"
proof (rule keepsI)
  fix c :: "'a Controller"
  obtain r c' where run: "unwindFunctions env info sz c = (r, c')" by (cases "unwindFunctions env info sz c")
  show "sortedKept c (snd (unwindFunctions env info sz c))"
  proof (cases "\<exists>x. r = Ok x")
    case True
    with run obtain remaining unwinded where ok: "unwindFunctions env info sz c = (Ok (remaining, unwinded), c')"
      by auto
    then show ?thesis
      using unwindFunctions_Ok [OF ok] statusOf_update [of c' c "ID info" remaining]
      by (auto simp: sortedKept_def sortedStacks_def sorted_prefix)
  next
    case False
    with unwindFunctions_not_Ok [OF run] run show ?thesis by (simp add: sortedKept_same)
  qed
qed

interpretation sorted_ops: op_frame sortedKept env "\<lambda>_. True" for env
  by unfold_locales
    (auto intro: keeps_sorted onProcess_stacks onBreakpoints_stacks sortedKept_same sortedKept_trans
      simp: quietChange_def)

lemma addFunction_sorted:
  assumes "statusOf g c \<noteq> [] \<longrightarrow> usedStackSize (last (statusOf g c)) \<le> usedStackSize f"
  shows "sortedKept c (snd (addFunction env f g c))"
proof -
  let ?fs = "statusOf g c"
  define c1 where "c1 = c\<lparr>statusStore := (statusStore c)(g \<mapsto> ?fs @ [f])\<rparr>"
  let ?rest = "seqM (onBreakpoints (SetConditional (physicalOf env) (returnAddress f) g))
       (if callInstBreakpointsSet f then setCallInstBreakpoints env g (StartAddr (calledFunction f)) else returnM ())"
  have run: "addFunction env f g c = ?rest c1"
    by (simp add: addFunction_def putStatus_def c1_def)
  have "sortedKept c c1"
  proof -
    have "sorted (map usedStackSize (?fs @ [f]))" if "sortedStacks c"
      using sorted_snoc_prefix [of ?fs "length ?fs" f] that assms
      by (auto simp: sortedStacks_def last_conv_nth)
    then show ?thesis
      using statusOf_update [of c1 c g "?fs @ [f]"] by (auto simp: sortedKept_def sortedStacks_def c1_def)
  qed
  moreover have "keeps sortedKept ?rest"
    unfolding setCallInstBreakpoints_def
    by (intro frame_intros sorted_ops.alterCallInstBreakpoints_frame sorted_ops.set_conditional TrueI)
  ultimately show ?thesis using run by (auto simp: keeps_def intro: sortedKept_trans)
qed

lemma stopsAt_le: "stopsAt env info sz f \<Longrightarrow> usedStackSize f \<le> sz"
  by (auto simp: stopsAt_def)

lemma unwound_top:
  assumes "unwindFunctions env info sz c = (Ok (remaining, unwinded), c')"
  shows "statusOf (ID info) c' = remaining" and "remaining \<noteq> [] \<Longrightarrow> usedStackSize (last remaining) \<le> sz"
proof -
  from unwindFunctions_Ok(2) [OF assms] show "statusOf (ID info) c' = remaining" by (simp add: statusOf_def)
  from unwindFunctions_Ok(1) [OF assms] obtain j where
    "j \<le> length (statusOf (ID info) c)" "remaining = take j (statusOf (ID info) c)"
    "j > 0 \<longrightarrow> stopsAt env info sz (statusOf (ID info) c ! (j - 1))" by blast
  then show "remaining \<noteq> [] \<Longrightarrow> usedStackSize (last remaining) \<le> sz"
    using stopsAt_le by (cases "j = 0") (auto simp: last_conv_nth min_def)
qed

lemma handleTrapAtFunctionCall_sorted: "keeps sortedKept (handleTrapAtFunctionCall env t a info)"
proof (rule keepsI)
  fix c :: "'a Controller"
  note at = sorted_ops.bind_frame_at
  have cont: "sortedKept c1 (snd (seqM (addFunction env f (ID info)) (seqM m (singleStep env t a)) c1))"
    if "statusOf (ID info) c1 \<noteq> [] \<longrightarrow> usedStackSize (last (statusOf (ID info) c1)) \<le> usedStackSize f"
      and m: "keeps sortedKept m" for c1 f m
    unfolding seqM_def
  proof (rule at)
    show "sortedKept c1 (snd (addFunction env f (ID info) c1))" by (rule addFunction_sorted) (rule that)
    have "keeps sortedKept (bindM m (\<lambda>_. singleStep env t a))"
      by (intro frame_intros m sorted_ops.singleStep_frame)
    then show "sortedKept s' (snd (bindM m (\<lambda>_. singleStep env t a) s'))" for s'
      by (simp add: keeps_def)
  qed
  show "sortedKept c (snd (handleTrapAtFunctionCall env t a info c))"
    unfolding handleTrapAtFunctionCall_def Let_def
  proof (rule at, goal_cases)
    case 1
    then show ?case by (simp add: currentStackFrame_def observe_def sortedKept_same)
  next
    case (2 sf c0)
    show ?case
    proof (rule at, goal_cases)
      case 1
      show ?case by (rule keepsD [OF unwindFunctions_sorted prod.collapse [symmetric]])
    next
      case (2 ru c1)
      obtain remaining unwinded where "ru = (remaining, unwinded)" by (cases ru)
      with 2 have top: "statusOf (ID info) c1 = remaining"
          "remaining \<noteq> [] \<Longrightarrow> usedStackSize (last remaining) \<le> UsedStackSize info"
        using unwound_top [of env info "UsedStackSize info" c0 remaining unwinded c1] by auto
      show ?case
        unfolding \<open>ru = (remaining, unwinded)\<close> prod.case bindM_primitive
        by (rule cont) (use top in \<open>auto intro!: frame_intros sorted_ops.printing_frame\<close>)
    qed
  qed
qed

interpretation sorted_traps: trap_frame sortedKept env "\<lambda>_. True" for env
  by unfold_locales (rule unwindFunctions_sorted handleTrapAtFunctionCall_sorted)+

interpretation sorted_main: main_frame sortedKept env "\<lambda>_. True" for env
proof unfold_locales
  note points = addPoint_keeps [OF sorted_ops.frame_axioms keeps_sorted [OF onBreakpoints_stacks]]
  show "keeps sortedKept (addStart env a)" and "keeps sortedKept (addEnd env a)" for a
    by (rule points; simp add: sortedKept_same)+
qed (auto intro!: keeps_sorted onProcess_stacks receives_keep sortedKept_same)

lemma NewController_sorted: "sortedStacks (NewController p)"
  by (simp add: sortedStacks_def statusOf_def NewController_def)

section \<open>Go routines do not disturb each other\<close>

definition othersUntouched :: "int \<Rightarrow> 'c Controller \<Rightarrow> 'c Controller \<Rightarrow> bool" where
  "othersUntouched g c c' \<longleftrightarrow> tracePoints c' = tracePoints c \<and> (\<forall>h. h \<noteq> g \<longrightarrow>
     statusOf h c' = statusOf h c \<and> count_list (goRoutines c') h = count_list (goRoutines c) h \<and>
     claims (breakpoints c') h = claims (breakpoints c) h)"

lemma isolated_process: "keeps (othersUntouched g) (onProcess m)"
  by (auto simp: keeps_def othersUntouched_def statusOf_def onProcess_run split: prod.splits)

lemma isolated_breakpoints: "keeps (othersKept g) m \<Longrightarrow> keeps (othersUntouched g) (onBreakpoints m)"
  by (erule keeps_onBreakpoints) (auto simp: othersUntouched_def othersKept_def statusOf_def fun_eq_iff)

interpretation isolated: status_frame "othersUntouched g" env "\<lambda>h. h = g" for g env
proof unfold_locales
  show "keeps (othersUntouched g) (onProcess (SingleStep (fuelOf env) (tracee env) t a))" for t a
    by (rule isolated_process)
qed (auto intro!: isolated_breakpoints SetConditional_others ClearConditional_others
       ClearAllByGoRoutineID_others
     simp: quietChange_def othersUntouched_def statusOf_def Add_def Remove_eq count_list_append count_list_remove1)

end
