(* ===== verification/ControllerRuns.thy ===== *)
theory ControllerRuns
  imports ControllerStacks
begin

text \<open>
  Runs of the controller: the main loop in small steps, with the requests of other go routines
  interleaved, and the invariants of every reachable state.
\<close>

section \<open>Trace points stay set\<close>

definition unconditional :: "bps \<Rightarrow> u64 \<Rightarrow> bool" where
  "unconditional m a = (case m a of None \<Rightarrow> False | Some bp \<Rightarrow> associateAll bp)"

definition alwaysKept :: "bps \<times> 'p \<Rightarrow> bps \<times> 'p \<Rightarrow> bool" where
  "alwaysKept s s' \<longleftrightarrow> (\<forall>a. unconditional (fst s) a \<longrightarrow> unconditional (fst s') a)"

interpretation always: frame alwaysKept
  by unfold_locales (auto simp: alwaysKept_def)

lemma unconditional_update:
  "unconditional (m(a \<mapsto> bp)) b = (if b = a then associateAll bp else unconditional m b)"
  "unconditional (m(a := None)) b = (b \<noteq> a \<and> unconditional m b)"
  by (simp_all add: unconditional_def)

lemma always_run:
  "alwaysKept (m, p) (m', p') \<longleftrightarrow> (\<forall>a. unconditional m a \<longrightarrow> unconditional m' a)"
  by (simp add: alwaysKept_def)

lemma dead_conditional: "NoAssociation bp \<Longrightarrow> \<not> associateAll bp"
  by (simp add: NoAssociation_def)

lemma Clear_always: "\<not> unconditional m a \<Longrightarrow> alwaysKept (m, p) (snd (Clear ph a (m, p)))"
  by (auto simp: Clear_run always_run unconditional_update split: option.splits prod.splits outcome.splits)

lemma SetConditional_always: "keeps alwaysKept (SetConditional ph a g)"
proof (rule keepsI)
  fix s :: "bps \<times> 'a"
  obtain m p where s: "s = (m, p)" by (cases s)
  show "alwaysKept s (snd (SetConditional ph a g s))"
    by (auto simp: s SetConditional_run always_run unconditional_def Associate_def
        split: option.splits prod.splits outcome.splits)
qed

lemma Set_always: "keeps alwaysKept (Set ph a)"
proof (rule keepsI)
  fix s :: "bps \<times> 'a"
  obtain m p where s: "s = (m, p)" by (cases s)
  show "alwaysKept s (snd (Set ph a s))"
    by (auto simp: s Set_run always_run unconditional_update split: option.splits prod.splits outcome.splits)
qed

text \<open>A release that keeps unconditional breakpoints, and clears a conditional one that is dead.\<close>

lemma releasing_always:
  assumes "m a = Some bp" and "associateAll bp' = associateAll bp"
  shows "alwaysKept (m, p)
    (snd (if NoAssociation bp' then Clear ph a (m(a \<mapsto> bp'), p) else (Ok (), (m(a \<mapsto> bp'), p))))"
proof -
  have 1: "alwaysKept (m, p) (m(a \<mapsto> bp'), p)"
    using assms by (auto simp: always_run unconditional_update) (simp add: unconditional_def)
  have "\<not> unconditional (m(a \<mapsto> bp')) a" if "NoAssociation bp'"
    using dead_conditional [OF that] by (simp add: unconditional_update)
  then have "NoAssociation bp' \<Longrightarrow> alwaysKept (m(a \<mapsto> bp'), p) (snd (Clear ph a (m(a \<mapsto> bp'), p)))"
    by (simp add: Clear_always)
  with 1 show ?thesis by (auto intro: always.trans)
qed

lemma ClearConditional_always: "keeps alwaysKept (ClearConditional ph a g)"
proof (rule keepsI)
  fix s :: "bps \<times> 'a"
  obtain m p where s: "s = (m, p)" by (cases s)
  show "alwaysKept s (snd (ClearConditional ph a g s))"
  proof (cases "m a")
    case None
    then show ?thesis by (simp add: s ClearConditional_run always.refl)
  next
    case (Some bp)
    then show ?thesis
      using releasing_always [of m a bp "snd (Disassociate g bp)" p ph]
      by (simp add: s ClearConditional_run Disassociate_eq)
  qed
qed

lemma clearAllBody_always: "keeps alwaysKept (clearAllBody ph g a)"
proof (rule keepsI)
  fix s :: "bps \<times> 'a"
  obtain m p where s: "s = (m, p)" by (cases s)
  show "alwaysKept s (snd (clearAllBody ph g a s))"
  proof (cases "m a")
    case None
    then show ?thesis by (simp add: s clearAllBody_def always.refl)
  next
    case (Some bp)
    then show ?thesis
      using releasing_always [of m a bp "disassociateLoop g bp" p ph]
      by (simp add: s clearAllBody_def disassociateLoop_eq)
  qed
qed

lemma ClearAllByGoRoutineID_always: "keeps alwaysKept (ClearAllByGoRoutineID ph order g)"
  unfolding ClearAllByGoRoutineID_def clearAllLoop_eq
  by (intro always.bind_frame always.gets_frame always.forM_frame clearAllBody_always)

section \<open>The tidy state\<close>

text \<open>
  No trace point is listed twice, each has an unconditional breakpoint, and no channel holds
  more than its buffer.
\<close>

definition tidy :: "'c Controller \<Rightarrow> bool" where
  "tidy c \<longleftrightarrow>
     distinct (startAddressList (tracePoints c)) \<and> distinct (endAddressList (tracePoints c)) \<and>
     (\<forall>a \<in> set (startAddressList (tracePoints c)) \<union> set (endAddressList (tracePoints c)).
        unconditional (breakpoints c) a) \<and>
     interruptCh c \<le> chanBufferSize \<and> length (pendingStartTracePoint c) \<le> chanBufferSize \<and>
     length (pendingEndTracePoint c) \<le> chanBufferSize"

definition tidyKept :: "'c Controller \<Rightarrow> 'c Controller \<Rightarrow> bool" where
  "tidyKept c c' \<longleftrightarrow> (tidy c \<longrightarrow> tidy c')"

lemma tidy_process: "keeps tidyKept (onProcess m)"
  by (auto simp: keeps_def tidyKept_def tidy_def onProcess_run split: prod.splits)

lemma tidy_breakpoints: "keeps alwaysKept m \<Longrightarrow> keeps tidyKept (onBreakpoints m)"
  by (erule keeps_onBreakpoints) (auto simp: tidyKept_def tidy_def alwaysKept_def)

interpretation tidy_status: status_frame tidyKept env "\<lambda>_. True" for env
proof unfold_locales
  show "keeps tidyKept (onProcess (SingleStep (fuelOf env) (tracee env) t a))" for t a
    by (rule tidy_process)
qed (auto intro!: tidy_breakpoints SetConditional_always ClearConditional_always ClearAllByGoRoutineID_always
     simp: tidyKept_def tidy_def quietChange_def)

lemma Set_unconditional: "Set ph a (m, p) = (Ok (), (m', p')) \<Longrightarrow> unconditional m' a"
  by (auto simp: Set_run unconditional_update split: option.splits prod.splits outcome.splits)

lemma addPoint_run:
  "addPoint env a known ext c =
     (if known (tracePoints c) then (Ok (), c)
      else (case Set (physicalOf env) a (breakpoints c, process c) of
          (Ok _, b, p) \<Rightarrow> (Ok (), c\<lparr>breakpoints := b, process := p, tracePoints := ext (tracePoints c)\<rparr>)
        | (r, b, p) \<Rightarrow> (r, c\<lparr>breakpoints := b, process := p\<rparr>)))"
  by (auto simp: addPoint_def onBreakpoints_run seqM_def bindM_def split: prod.splits outcome.splits)

lemma addPoint_tidy:
  assumes ext: "\<And>tp. \<not> known tp \<Longrightarrow> distinct (startAddressList tp) \<and> distinct (endAddressList tp) \<Longrightarrow>
      distinct (startAddressList (ext tp)) \<and> distinct (endAddressList (ext tp)) \<and>
      set (startAddressList (ext tp)) \<union> set (endAddressList (ext tp))
        \<subseteq> insert a (set (startAddressList tp) \<union> set (endAddressList tp))"
  shows "keeps tidyKept (addPoint env a known ext)"
proof (rule keepsI)
  fix c :: "'a Controller"
  obtain r b p where S: "Set (physicalOf env) a (breakpoints c, process c) = (r, b, p)"
    by (cases "Set (physicalOf env) a (breakpoints c, process c)") auto
  have al: "unconditional (breakpoints c) x \<longrightarrow> unconditional b x" for x
    using keepsD [OF Set_always S] by (simp add: alwaysKept_def)
  have a: "unconditional b a" if "r = Ok ()"
    by (rule Set_unconditional [OF S [unfolded that]])
  show "tidyKept c (snd (addPoint env a known ext c))"
    unfolding tidyKept_def
  proof
    assume c: "tidy c"
    show "tidy (snd (addPoint env a known ext c))"
    proof (cases "known (tracePoints c)")
      case True
      with c show ?thesis by (simp add: addPoint_run)
    next
      case False
      with c ext [of "tracePoints c"] a al S show ?thesis
        by (cases r) (auto simp: addPoint_run tidy_def)
    qed
  qed
qed

interpretation tidy_main: main_frame tidyKept env "\<lambda>_. True" for env
proof unfold_locales
  show "keeps tidyKept (addStart env a)" and "keeps tidyKept (addEnd env a)" for a
    unfolding addStart_def addEnd_def by (rule addPoint_tidy; auto)+
qed (auto intro!: tidy_process receives_keep simp: tidyKept_def tidy_def)

section \<open>Steps and reachable states\<close>

text \<open>
  Between two events of the tracee the main loop handles one trap event. Other go routines may
  put requests into the channels at any time; the loop looks at the channels only before it
  resumes the tracee, so requests between its rounds are all there is to interleave. The second
  component is the event the loop has to handle next, none before the tracee first ran.
\<close>

inductive ctlStep :: "'c ctlEnv \<Rightarrow> 'c Controller \<times> Event option \<Rightarrow> 'c Controller \<times> Event option \<Rightarrow> bool"
  for env where
  start: "AddStartTracePoint a c = (r, c') \<Longrightarrow> ctlStep env (c, e) (c', e)"
| end_point: "AddEndTracePoint a c = (r, c') \<Longrightarrow> ctlStep env (c, e) (c', e)"
| interrupt: "Interrupt c = Some c' \<Longrightarrow> ctlStep env (c, e) (c', e)"
| trace_level: "SetTraceLevel level c = (r, c') \<Longrightarrow> ctlStep env (c, e) (c', e)"
| parse_level: "SetParseLevel level c = (r, c') \<Longrightarrow> ctlStep env (c, e) (c', e)"
| first: "ctlContinueAndWait env c = (Ok e, c') \<Longrightarrow> ctlStep env (c, None) (c', Some e)"
| round: "handleTrapEvent env ids c = (Ok e, c') \<Longrightarrow> ctlStep env (c, Some (Trapped ids)) (c', Some e)"

inductive_cases ctlStepE: "ctlStep env (c, e) s'"

inductive reachable :: "'c ctlEnv \<Rightarrow> 'c Process \<Rightarrow> 'c Controller \<times> Event option \<Rightarrow> bool" for env p where
  init: "reachable env p (NewController p, None)"
| step: "reachable env p s \<Longrightarrow> ctlStep env s s' \<Longrightarrow> reachable env p s'"

text \<open>A relation every round respects, and every request, holds along a run.\<close>

lemma step_respects:
  assumes R: "main_frame R env (\<lambda>_. True)"
    and requests: "\<And>a c. R c (snd (AddStartTracePoint a c))" "\<And>a c. R c (snd (AddEndTracePoint a c))"
      "\<And>c c'. Interrupt c = Some c' \<Longrightarrow> R c c'"
      "\<And>l c. R c (snd (SetTraceLevel l c))" "\<And>l c. R c (snd (SetParseLevel l c))"
    and step: "ctlStep env s s'"
  shows "R (fst s) (fst s')"
  using step
proof cases
  case (first c e c')
  then show ?thesis using keepsD [OF main_frame.ctlContinueAndWait_frame [OF R]] by auto
next
  case (round ids c e c')
  then show ?thesis using keepsD [OF main_frame.handleTrapEvent_frame [OF R]] by auto
next
  case (start a c r c' e)
  then show ?thesis using requests(1) [of c a] by simp
next
  case (end_point a c r c' e)
  then show ?thesis using requests(2) [of c a] by simp
next
  case (interrupt c c' e)
  then show ?thesis using requests(3) [of c c'] by simp
next
  case (trace_level l c r c' e)
  then show ?thesis using requests(4) [of c l] by simp
next
  case (parse_level l c r c' e)
  then show ?thesis using requests(5) [of c l] by simp
qed

end
