(* ===== verification/ControllerProps.thy ===== *)
theory ControllerProps
  imports ControllerRuns
begin

text \<open>
  The properties of the controller: what holds in every reachable state, what the main loop
  leaves behind, what a call and its return do to the breakpoints, and how requests reach the
  tracee.
\<close>

section \<open>A simulated tracee\<close>

text \<open>
  A function main.main at 0xe0 whose text holds one call instruction (the byte 0xe8, at the
  address 0xe8), and a function main.f at 0x20, in the memory of the simulated machine.
\<close>

definition simMain :: Function where
  "simMain = \<lparr>Name = ''main.main'', StartAddr = 0xe0, EndAddr = 0xea, Parameters = []\<rparr>"

definition simF :: Function where
  "simF = \<lparr>Name = ''main.f'', StartAddr = 0x20, EndAddr = 0x24, Parameters = []\<rparr>"

definition simBinary :: BinaryFile where
  "simBinary = (nonDebuggableBinaryFile (\<lambda>n. Ok ()))\<lparr>bfFindFunction := (\<lambda>pc.
     if 0xe0 \<le> pc \<and> pc < 0xea then Ok simMain else if 0x20 \<le> pc \<and> pc < 0x24 then Ok simF
     else Fail (ErrMsg ''no function''))\<rparr>"

definition simCtl :: "machine rawClient ctlEnv" where
  "simCtl = \<lparr>tracee = simEnv\<lparr>Binary := simBinary, bpOrder := (\<lambda>A. [0x10, 0x12, 0xe8, 0x40])\<rparr>, fuelOf = 20,
     upperRune = (\<lambda>s. False), mapOrder = (\<lambda>A. [0x10, 0x12, 0xe8, 0x40]), takesStart = (\<lambda>ss es. True)\<rparr>"

lemma simCtl_client [simp]: "debugapiClient (tracee simCtl) = linuxClient 9 simOS"
  by (simp add: simCtl_def)

definition freshCtl :: "waitStatus list \<Rightarrow> machine rawClient Controller" where
  "freshCtl script = NewController (simProcess script)"

section \<open>Every reachable state\<close>

lemma request_respects:
  "syncKept c (snd (AddStartTracePoint a c))" "syncKept c (snd (AddEndTracePoint a c))"
  "Interrupt c = Some c' \<Longrightarrow> syncKept c c'" "syncKept c (snd (SetTraceLevel l c))"
  "syncKept c (snd (SetParseLevel l c))"
  "sortedKept c (snd (AddStartTracePoint a c))" "sortedKept c (snd (AddEndTracePoint a c))"
  "Interrupt c = Some c' \<Longrightarrow> sortedKept c c'" "sortedKept c (snd (SetTraceLevel l c))"
  "sortedKept c (snd (SetParseLevel l c))"
  "tidyKept c (snd (AddStartTracePoint a c))" "tidyKept c (snd (AddEndTracePoint a c))"
  "Interrupt c = Some c' \<Longrightarrow> tidyKept c c'" "tidyKept c (snd (SetTraceLevel l c))"
  "tidyKept c (snd (SetParseLevel l c))"
  by (auto simp: AddStartTracePoint_def AddEndTracePoint_def Interrupt_def SetTraceLevel_def SetParseLevel_def
      syncKept_def ctlSync_def tidyKept_def tidy_def intro: sortedKept_same split: if_splits)

lemma NewController_tidy: "tidy (NewController p)"
  by (simp add: tidy_def NewController_def)

lemma reachable_invariants:
  assumes "reachable env p s" and "procBreakpoints p = Map.empty"
  shows "ctlSync (fst s) \<and> sortedStacks (fst s) \<and> tidy (fst s)"
  using assms(1)
proof induction
  case init
  then show ?case using assms(2) by (simp add: NewController_sync NewController_sorted NewController_tidy)
next
  case (step s s')
  have "syncKept (fst s) (fst s')"
    by (rule step_respects [OF ctlsync_main.main_frame_axioms request_respects(1-5) step.hyps(2)])
  moreover have "sortedKept (fst s) (fst s')"
    by (rule step_respects [OF sorted_main.main_frame_axioms request_respects(6-10) step.hyps(2)])
  moreover have "tidyKept (fst s) (fst s')"
    by (rule step_respects [OF tidy_main.main_frame_axioms request_respects(11-15) step.hyps(2)])
  ultimately show ?case using step.IH by (simp add: syncKept_def sortedKept_def tidyKept_def)
qed

text \<open>
  C2: whatever the tracee does and however requests come in between, in every state the main
  loop reaches the breakpoint map of the controller names exactly the addresses at which the
  process has a breakpoint; the stack kept for a go routine is ordered by the used stack size;
  the channels respect their buffers; and every start or end point, listed once, has a
  breakpoint every go routine hits.
\<close>

theorem reachable_states_are_consistent:
  assumes "procBreakpoints p = Map.empty" and "reachable env p (c, event)"
  shows "dom (breakpoints c) = armedAddrs (process c)
    \<and> (\<forall>g. sorted (map usedStackSize (statusOf g c)))
    \<and> interruptCh c \<le> 64 \<and> length (pendingStartTracePoint c) \<le> 64 \<and> length (pendingEndTracePoint c) \<le> 64
    \<and> distinct (startAddressList (tracePoints c)) \<and> distinct (endAddressList (tracePoints c))
    \<and> (\<forall>a. IsStartAddress (tracePoints c) a \<or> IsEndAddress (tracePoints c) a \<longrightarrow>
         a \<in> armedAddrs (process c) \<and> (\<forall>g. Hit (breakpoints c) a g))"
proof -
  from reachable_invariants [OF assms(2,1)]
  have c: "ctlSync c" "sortedStacks c" "tidy c" by simp_all
  have "Hit (breakpoints c) a g" if "IsStartAddress (tracePoints c) a \<or> IsEndAddress (tracePoints c) a" for a g
    using c(3) that by (auto simp: tidy_def unconditional_def Hit_def cbHit_def split: option.splits)
  moreover from this c(1) have "a \<in> armedAddrs (process c)"
    if "IsStartAddress (tracePoints c) a \<or> IsEndAddress (tracePoints c) a" for a
    using that by (intro proc.hit_is_armed) (auto simp: ctlSync_def)
  ultimately show ?thesis
    using c by (auto simp: ctlSync_def inSync_def sortedStacks_def tidy_def chanBufferSize_def)
qed

definition startedCtl :: "waitStatus list \<Rightarrow> machine rawClient Controller" where
  "startedCtl script = snd (AddStartTracePoint 0x10 (freshCtl script))"

definition tracedCtl :: "machine rawClient Controller" where
  "tracedCtl = (freshCtl [])\<lparr>tracePoints := \<lparr>startAddressList = [0x10], endAddressList = []\<rparr>,
     breakpoints := [0x10 \<mapsto> \<lparr>addr = 0x10, associateAll = True, associations = []\<rparr>],
     process := (simProcess [])\<lparr>clientState := (startedMachine [])\<lparr>kernel := (kernel (startedMachine []))
        \<lparr>simMem := (\<lambda>a. ucast a)(0x10 := 0xcc)\<rparr>\<rparr>,
       procBreakpoints := [0x10 \<mapsto> \<lparr>bpAddr = 0x10, orgInsts = [0x10]\<rparr>]\<rparr>\<rparr>"

lemma first_round:
  "ctlContinueAndWait simCtl (startedCtl [WStopped 5 False]) = (Ok (Trapped [1]), tracedCtl)"
proof -
  have nine: "(9::nat) = Suc (Suc (Suc (Suc (Suc (Suc (Suc (Suc (Suc 0))))))))" by simp
  show ?thesis
    by (simp add: nine startedCtl_def freshCtl_def tracedCtl_def NewController_def simProcess_def startedMachine_def
        AddStartTracePoint_def chanBufferSize_def ctlContinueAndWait_def setPendingTracePoints_def
        receiveStart_def addStart_def addPoint_run Set_run physicalOf_def procPhysical_def SetBreakpoint_run
        simCtl_def simEnv_def readMem_def linuxClient_def rawReadMemory_def rawWriteMemory_def
        onProcess_run procContinueAndWait_def onClient_run closeOnExit_def IsExitEvent_def
        bindM_def seqM_def sys_def zoomM_def simOS_def bytesAt_def SIGTRAP_def NewBreakpoints_def)
qed

theorem reachable_states_are_consistent_witness:
  "reachable simCtl (simProcess [WStopped 5 False]) (tracedCtl, Some (Trapped [1]))
    \<and> 0x10 \<in> armedAddrs (process tracedCtl) \<and> Hit (breakpoints tracedCtl) 0x10 7"
proof -
  let ?p = "simProcess [WStopped 5 False]"
  have "ctlStep simCtl (NewController ?p, None) (startedCtl [WStopped 5 False], None)"
    unfolding startedCtl_def freshCtl_def by (rule ctlStep.start) (rule prod.collapse [symmetric])
  then have "reachable simCtl ?p (startedCtl [WStopped 5 False], None)"
    by (rule reachable.step [OF reachable.init])
  then have r: "reachable simCtl ?p (tracedCtl, Some (Trapped [1]))"
    by (rule reachable.step) (rule ctlStep.first [OF first_round])
  have "procBreakpoints ?p = Map.empty" by (simp add: simProcess_def)
  moreover have "IsStartAddress (tracePoints tracedCtl) 0x10" by (simp add: tracedCtl_def)
  ultimately show ?thesis using reachable_states_are_consistent [OF _ r] r by blast
qed

section \<open>What the main loop leaves behind\<close>

lemma deferred_run:
  "deferred d m s = (case m s of (r, s') \<Rightarrow> if r = OutOfFuel then (OutOfFuel, s')
     else (case fst (d s') of Panic \<Rightarrow> Panic | OutOfFuel \<Rightarrow> OutOfFuel | Ok _ \<Rightarrow> r | Fail _ \<Rightarrow> r, snd (d s')))"
  by (auto simp: deferred_def split: prod.splits outcome.splits)

text \<open>
  C1: however the main loop ends (exit of the tracee, interrupt, error or panic), the last thing
  it does is to detach from a process whose text is under the controller's breakpoints only, and
  then every byte of the program text that is not still in the process's breakpoint map is the
  original one; when the client can write and the map is ranged over completely, the whole text
  is the original. A loop that is cut off before its end leaves the text under its breakpoints.
\<close>

theorem main_loop_gives_the_text_back:
  fixes c :: "'c Controller"
  assumes "tracee_text (debugapiClient (tracee env)) memory code"
    and "traced memory code orig (process c)" and "ctlSync c"
  shows "\<exists>c1 :: 'c Controller. traced memory code orig (process c1) \<and> dom (breakpoints c1) = armedAddrs (process c1) \<and>
    (process (snd (MainLoop n env c)) = process c1 \<and> fst (MainLoop n env c) = OutOfFuel \<or>
     process (snd (MainLoop n env c)) = snd (Detach (tracee env) (process c1))) \<and>
    (\<forall>x\<in>code. procBreakpoints (process (snd (MainLoop n env c))) x = None \<longrightarrow>
       memory (clientState (process (snd (MainLoop n env c)))) x = orig x) \<and>
    (fst (MainLoop n env c) \<noteq> OutOfFuel \<and> writable (debugapiClient (tracee env)) W \<and>
       clientState (process c1) \<in> W \<and>
       dom (procBreakpoints (process c1)) \<subseteq> set (bpOrder (tracee env) (dom (procBreakpoints (process c1)))) \<longrightarrow>
     (\<forall>x\<in>code. memory (clientState (process (snd (MainLoop n env c)))) x = orig x))"
proof -
  let ?m = "branchM (ctlContinueAndWait env) (mainRounds n env) (\<lambda>err. failM (mainError err))"
  let ?d = "Detach (tracee env)"
  obtain r c1 where m: "?m c = (r, c1)" by (cases "?m c")
  have before: "traced memory code orig (process c1)"
    using keepsD [OF main_frame.main_before_detach_frame [OF text_main_frame [OF assms(1)]] m] assms(2)
    by (simp add: textInv_def textKeeps_def)
  have sync: "ctlSync c1"
    using keepsD [OF ctlsync_main.main_before_detach_frame m] assms(3) by (simp add: syncKept_def)
  have end_text: "traced memory code orig (snd (?d (process c1)))"
    by (rule tracee_text.Detach_traced [OF assms(1) refl before])
  have run: "process (snd (MainLoop n env c)) = (if r = OutOfFuel then process c1 else snd (?d (process c1)))"
    and out: "r = OutOfFuel \<Longrightarrow> fst (MainLoop n env c) = OutOfFuel"
    by (auto simp: MainLoop_def deferred_run m onProcess_run split: prod.splits)
  have "entriesOriginal code orig (process c1)" using before by (simp add: traced_def)
  note empties = Detach_empties [where env = "tracee env" and W = W and p = "process c1" and code = code
      and orig = orig, OF _ _ this]
  have left: "\<forall>x\<in>code. procBreakpoints (process (snd (MainLoop n env c))) x = None \<longrightarrow>
       memory (clientState (process (snd (MainLoop n env c)))) x = orig x"
    using run before end_text by (auto simp: traced_def)
  show ?thesis
    by (intro exI [of _ c1] conjI)
      (use before sync run out left empties in \<open>auto simp: ctlSync_def inSync_def\<close>)
qed

definition exitedCtl :: "machine rawClient Controller" where
  "exitedCtl = snd (MainLoop 3 simCtl (startedCtl [WExited 0]))"

lemma exitedCtl_run:
  "fst (MainLoop 3 simCtl (startedCtl [WExited 0])) = Ok ()"
  "procBreakpoints (process exitedCtl) 0x11 = None"
proof -
  have nine: "(9::nat) = Suc (Suc (Suc (Suc (Suc (Suc (Suc (Suc (Suc 0))))))))"
    and three: "(3::nat) = Suc (Suc (Suc 0))" by simp_all
  show "fst (MainLoop 3 simCtl (startedCtl [WExited 0])) = Ok ()" and "procBreakpoints (process exitedCtl) 0x11 = None"
    by (simp_all add: nine three exitedCtl_def MainLoop_def deferred_run branchM_def Detach_def clearLogged_def catchM_def
        ClearBreakpoint_run rawDetachProcess_def ignoreErr_def
        startedCtl_def freshCtl_def NewController_def simProcess_def startedMachine_def
        AddStartTracePoint_def chanBufferSize_def ctlContinueAndWait_def setPendingTracePoints_def
        receiveStart_def addStart_def addPoint_run Set_run physicalOf_def procPhysical_def SetBreakpoint_run
        simCtl_def simEnv_def readMem_def linuxClient_def rawReadMemory_def rawWriteMemory_def
        onProcess_run procContinueAndWait_def onClient_run closeOnExit_def IsExitEvent_def closeBinary_def
        simBinary_def nonDebuggableBinaryFile_def
        bindM_def seqM_def sys_def zoomM_def simOS_def bytesAt_def SIGTRAP_def NewBreakpoints_def)
qed

theorem main_loop_gives_the_text_back_witness:
  "fst (MainLoop 3 simCtl (startedCtl [WExited 0])) = Ok () \<and>
   simMem (kernel (clientState (process exitedCtl))) 0x11 = 0x11"
proof -
  have fresh: "process (startedCtl [WExited 0]) = simProcess [WExited 0]"
    by (simp add: startedCtl_def freshCtl_def NewController_def AddStartTracePoint_def chanBufferSize_def)
  have "traced (\<lambda>c. simMem (kernel c)) UNIV (\<lambda>a. ucast a) (process (startedCtl [WExited 0]))"
    unfolding fresh by (rule patched_traced [OF simProcess_patched])
  moreover have "ctlSync (startedCtl [WExited 0])"
    by (simp add: ctlSync_def inSync_def armedAddrs_def fresh simProcess_def startedCtl_def freshCtl_def
        NewController_def AddStartTracePoint_def chanBufferSize_def NewBreakpoints_def)
  ultimately have "simMem (kernel (clientState (process exitedCtl))) 0x11 = ucast (0x11 :: u64)"
    using main_loop_gives_the_text_back [of simCtl "\<lambda>c. simMem (kernel c)" UNIV "\<lambda>a. ucast a"
        "startedCtl [WExited 0]" 3 "{}"] sim.tracee_text_axioms [of 9 UNIV] exitedCtl_run(2)
    by (auto simp: exitedCtl_def)
  then show ?thesis using exitedCtl_run(1) by simp
qed

end
