(* ===== verification/ControllerCalls.thy ===== *)
theory ControllerCalls
  imports ControllerProps
begin

text \<open>
  What a call and its return do to the breakpoints of a go routine: the claims on the return
  address and on the call instructions of the function are added when it is entered and given
  back when it is unwound.
\<close>

section \<open>Many claims at once\<close>

definition claimMany :: "int \<Rightarrow> u64 list \<Rightarrow> (int \<Rightarrow> u64 \<Rightarrow> nat option) \<Rightarrow> int \<Rightarrow> u64 \<Rightarrow> nat option" where
  "claimMany g as C = C(g := (\<lambda>a. map_option (\<lambda>n. n + count_list as a) (C g a)))"

definition releaseMany :: "int \<Rightarrow> u64 list \<Rightarrow> (int \<Rightarrow> u64 \<Rightarrow> nat option) \<Rightarrow> int \<Rightarrow> u64 \<Rightarrow> nat option" where
  "releaseMany g as C = C(g := (\<lambda>a. map_option (\<lambda>n. n - count_list as a) (C g a)))"

lemma claimMany_Nil [simp]: "claimMany g [] C = C" "releaseMany g [] C = C"
  by (simp_all add: claimMany_def releaseMany_def option.map_ident)

lemma claimMany_Cons:
  "claimMany g (a # as) C = claimMany g as (claimOne g a C)"
  "releaseMany g (a # as) C = releaseMany g as (releaseOne g a C)"
  by (auto simp: claimMany_def claimOne_def releaseMany_def releaseOne_def fun_eq_iff option.map_comp comp_def)

lemma release_claimed: "releaseMany g as (claimMany g as C) = C"
  by (simp add: claimMany_def releaseMany_def fun_eq_iff option.map_comp comp_def option.map_ident)

section \<open>Call instructions\<close>

definition liveCtl :: "'c Controller \<Rightarrow> bool" where
  "liveCtl c \<longleftrightarrow> live (breakpoints c)"

definition ctlClaims :: "'c Controller \<Rightarrow> int \<Rightarrow> u64 \<Rightarrow> nat option" where
  "ctlClaims c = claims (breakpoints c)"

lemma onBreakpoints_Ok:
  "onBreakpoints m c = (Ok r, c') \<longleftrightarrow>
     (\<exists>b p. m (breakpoints c, process c) = (Ok r, b, p) \<and> c' = c\<lparr>breakpoints := b, process := p\<rparr>)"
  by (auto simp: onBreakpoints_run split: prod.splits)

lemma set_claim:
  assumes "onBreakpoints (SetConditional ph a g) c = (Ok (), c')" and "liveCtl c"
  shows "ctlClaims c' = claimOne g a (ctlClaims c)" and "liveCtl c'"
    and "callInstAddrCache c' = callInstAddrCache c" and "statusStore c' = statusStore c"
  using assms SetConditional_claims SetConditional_live
  by (auto simp: onBreakpoints_Ok ctlClaims_def liveCtl_def)

lemma clear_claim:
  assumes "onBreakpoints (ClearConditional ph a g) c = (Ok (), c')" and "liveCtl c"
  shows "ctlClaims c' = releaseOne g a (ctlClaims c)" and "liveCtl c'"
    and "callInstAddrCache c' = callInstAddrCache c" and "statusStore c' = statusStore c"
  using assms ClearConditional_claims ClearConditional_live
  by (auto simp: onBreakpoints_Ok ctlClaims_def liveCtl_def)

lemma setHinted_claim:
  assumes "setHinted env g a c = (Ok (), c')" and "liveCtl c"
  shows "ctlClaims c' = claimOne g a (ctlClaims c)" and "liveCtl c'"
    and "callInstAddrCache c' = callInstAddrCache c" and "statusStore c' = statusStore c"
proof -
  from assms(1) obtain c1 where 1: "onBreakpoints (SetConditional (physicalOf env) a g) c = (Ok (), c1)"
    and c': "c' = c1\<lparr>breakpointHints := (breakpointHints c1)(a \<mapsto> breakpointHintCall)\<rparr>"
    by (auto simp: setHinted_def branchM_def putHint_def split: prod.splits outcome.splits)
  note set_claim [OF 1 assms(2)]
  then show "ctlClaims c' = claimOne g a (ctlClaims c)" and "liveCtl c'"
    and "callInstAddrCache c' = callInstAddrCache c" and "statusStore c' = statusStore c"
    by (simp_all add: c' ctlClaims_def liveCtl_def)
qed

lemma set_claims:
  assumes "forM as (setHinted env g) c = (Ok (), c')" and "liveCtl c"
  shows "ctlClaims c' = claimMany g as (ctlClaims c) \<and> liveCtl c' \<and>
    callInstAddrCache c' = callInstAddrCache c \<and> statusStore c' = statusStore c"
  using assms
proof (induction as arbitrary: c)
  case Nil
  then show ?case by simp
next
  case (Cons a as)
  then obtain c1 where 1: "setHinted env g a c = (Ok (), c1)" and 2: "forM as (setHinted env g) c1 = (Ok (), c')"
    by (auto simp: seqM_Ok)
  note s = setHinted_claim [OF 1 Cons.prems(2)]
  from Cons.IH [OF 2 s(2)] s show ?case by (simp add: claimMany_Cons)
qed

lemma clear_claims:
  assumes "forM as (\<lambda>a. onBreakpoints (ClearConditional ph a g)) c = (Ok (), c')" and "liveCtl c"
  shows "ctlClaims c' = releaseMany g as (ctlClaims c) \<and> liveCtl c' \<and>
    callInstAddrCache c' = callInstAddrCache c \<and> statusStore c' = statusStore c"
  using assms
proof (induction as arbitrary: c)
  case Nil
  then show ?case by simp
next
  case (Cons a as)
  then obtain c1 where 1: "onBreakpoints (ClearConditional ph a g) c = (Ok (), c1)"
    and 2: "forM as (\<lambda>a. onBreakpoints (ClearConditional ph a g)) c1 = (Ok (), c')"
    by (auto simp: seqM_Ok)
  note s = clear_claim [OF 1 Cons.prems(2)]
  from Cons.IH [OF 2 s(2)] s show ?case by (simp add: claimMany_Cons)
qed

lemma findCallInstAddresses_Ok:
  assumes "findCallInstAddresses env f c = (Ok as, c')"
  shows "callInstAddrCache c' (StartAddr f) = Some as" and "process c' = process c"
    and "breakpoints c' = breakpoints c" and "statusStore c' = statusStore c"
    and "callInstAddrCache c (StartAddr f) \<noteq> None \<Longrightarrow> callInstAddrCache c (StartAddr f) = Some as"
  using assms
  by (auto simp: findCallInstAddresses_def bindM_Ok seqM_Ok observe_def Let_def split: option.splits)

text \<open>
  The function of a program counter does not depend on the state of the tracee: the case of a
  program with DWARF information for all functions in question, and of runtime tables that do
  not change.
\<close>

definition functionAt :: "'c ctlEnv \<Rightarrow> u64 \<Rightarrow> Function \<Rightarrow> bool" where
  "functionAt env pc f \<longleftrightarrow> (\<forall>p. procFindFunction (fuelOf env) (tracee env) pc p = Ok f)"

lemma setCallInstBreakpoints_claims:
  assumes "functionAt env pc f" and "setCallInstBreakpoints env g pc c = (Ok (), c')" and "liveCtl c"
  shows "\<exists>as. callInstAddrCache c' (StartAddr f) = Some as \<and> ctlClaims c' = claimMany g as (ctlClaims c) \<and>
    liveCtl c' \<and> statusStore c' = statusStore c"
proof -
  from assms(1,2) obtain as c1 where 1: "findCallInstAddresses env f c = (Ok as, c1)"
    and 2: "forM as (setHinted env g) c1 = (Ok (), c')"
    by (auto simp: setCallInstBreakpoints_def alterCallInstBreakpoints_def observe_def functionAt_def bindM_Ok)
  note f = findCallInstAddresses_Ok [OF 1]
  have "liveCtl c1" using f assms(3) by (simp add: liveCtl_def)
  from set_claims [OF 2 this] f show ?thesis by (auto simp: ctlClaims_def)
qed

lemma clearCallInstBreakpoints_claims:
  assumes "functionAt env pc f" and "clearCallInstBreakpoints env g pc c = (Ok (), c')" and "liveCtl c"
    and "callInstAddrCache c (StartAddr f) = Some as"
  shows "ctlClaims c' = releaseMany g as (ctlClaims c) \<and> liveCtl c' \<and> statusStore c' = statusStore c"
proof -
  from assms(1,2) obtain as' c1 where 1: "findCallInstAddresses env f c = (Ok as', c1)"
    and 2: "forM as' (\<lambda>a. onBreakpoints (ClearConditional (physicalOf env) a g)) c1 = (Ok (), c')"
    by (auto simp: clearCallInstBreakpoints_def alterCallInstBreakpoints_def observe_def functionAt_def bindM_Ok)
  note f = findCallInstAddresses_Ok [OF 1]
  have "liveCtl c1" using f assms(3) by (simp add: liveCtl_def)
  from clear_claims [OF 2 this] f assms(4) show ?thesis by (auto simp: ctlClaims_def)
qed

lemma liveCtl_dom: "liveCtl c \<Longrightarrow> liveCtl c' \<Longrightarrow> ctlClaims c' = ctlClaims c \<Longrightarrow>
    dom (breakpoints c') = dom (breakpoints c)"
  by (simp add: liveCtl_def ctlClaims_def dom_live)

section \<open>A call and its return\<close>

lemma addFunction_claims:
  assumes "addFunction env nf g c = (Ok (), c')" and "liveCtl c"
    and "functionAt env (StartAddr (calledFunction nf)) f"
  shows "\<exists>as. (callInstBreakpointsSet nf \<longrightarrow> callInstAddrCache c' (StartAddr f) = Some as) \<and>
    (\<not> callInstBreakpointsSet nf \<longrightarrow> as = []) \<and>
    ctlClaims c' = claimMany g as (claimOne g (returnAddress nf) (ctlClaims c)) \<and> liveCtl c' \<and>
    statusOf g c' = statusOf g c @ [nf]"
proof -
  define c1 where "c1 = c\<lparr>statusStore := (statusStore c)(g \<mapsto> statusOf g c @ [nf])\<rparr>"
  from assms(1) obtain c2 where 1: "onBreakpoints (SetConditional (physicalOf env) (returnAddress nf) g) c1 = (Ok (), c2)"
    and 2: "(if callInstBreakpointsSet nf then setCallInstBreakpoints env g (StartAddr (calledFunction nf))
        else returnM ()) c2 = (Ok (), c')"
    by (auto simp: addFunction_def putStatus_def seqM_Ok c1_def)
  have "liveCtl c1" using assms(2) by (simp add: liveCtl_def c1_def)
  note s = set_claim [OF 1 this]
  have C1: "ctlClaims c1 = ctlClaims c" and S1: "statusOf g c1 = statusOf g c @ [nf]"
    by (simp_all add: ctlClaims_def c1_def statusOf_def)
  show ?thesis
  proof (cases "callInstBreakpointsSet nf")
    case True
    with 2 have "setCallInstBreakpoints env g (StartAddr (calledFunction nf)) c2 = (Ok (), c')" by simp
    from setCallInstBreakpoints_claims [OF assms(3) this s(2)] obtain as where
      "callInstAddrCache c' (StartAddr f) = Some as" "ctlClaims c' = claimMany g as (ctlClaims c2)"
      "liveCtl c'" "statusStore c' = statusStore c2" by blast
    with True s C1 S1 show ?thesis by (intro exI [of _ as]) (simp add: statusOf_def)
  next
    case False
    with 2 s C1 S1 show ?thesis by (intro exI [of _ "[]"]) (auto simp: statusOf_def)
  qed
qed

lemma unwind_one:
  assumes run: "unwindLoop env info sz (fs @ [nf]) (Suc (length fs)) c = (Ok (remaining, unwinded), c')"
    and nf: "sz < usedStackSize nf" and stop: "fs \<noteq> [] \<longrightarrow> usedStackSize (last fs) < sz" and live: "liveCtl c"
    and f: "functionAt env (StartAddr (calledFunction nf)) f"
    and as: "callInstBreakpointsSet nf \<longrightarrow> callInstAddrCache c (StartAddr f) = Some as"
      "\<not> callInstBreakpointsSet nf \<longrightarrow> as = []"
  shows "remaining = fs \<and> unwinded = [nf] \<and> liveCtl c' \<and>
    ctlClaims c' = releaseMany (ID info) as (releaseOne (ID info) (returnAddress nf) (ctlClaims c))"
proof -
  have at: "(fs @ [nf]) ! length fs = nf" by simp
  have "\<not> usedStackSize nf < sz" "usedStackSize nf \<noteq> sz" using nf by auto
  with run obtain c1 c2 where
      1: "onBreakpoints (ClearConditional (physicalOf env) (returnAddress nf) (ID info)) c = (Ok (), c1)"
    and 2: "(if callInstBreakpointsSet nf then clearCallInstBreakpoints env (ID info) (StartAddr (calledFunction nf))
        else returnM ()) c1 = (Ok (), c2)"
    and 3: "unwindLoop env info sz (fs @ [nf]) (length fs) c2 = (Ok (remaining, unwinded), c')"
    by (auto simp: at seqM_Ok Let_def)
  note s = clear_claim [OF 1 live]
  have mid: "ctlClaims c2 = releaseMany (ID info) as (ctlClaims c1) \<and> liveCtl c2"
  proof (cases "callInstBreakpointsSet nf")
    case True
    with 2 as clearCallInstBreakpoints_claims [OF f _ s(2), of "ID info" c2 as] s(3) show ?thesis by simp
  next
    case False
    with 2 as s(2) show ?thesis by simp
  qed
  have "remaining = fs \<and> unwinded = [nf] \<and> c' = c2"
  proof (cases fs rule: rev_cases)
    case Nil
    with 3 show ?thesis by simp
  next
    case (snoc gs g)
    with 3 stop show ?thesis by (simp add: nth_append)
  qed
  with mid s(1) show ?thesis by simp
qed

text \<open>
  C3: calling a function and returning from it leaves the breakpoints of the tracer as they
  were. Once addFunction has put a function on the stack of a go routine, unwinding to a stack
  size below it and above its caller's takes exactly this function off, and the claims of every
  go routine on every address, the addresses that have a breakpoint, and the stack are those
  before the call. The call instructions cleared are the ones set, as they are read only once.
\<close>

theorem call_and_return_restore_the_breakpoints:
  fixes c :: "'c Controller"
  assumes "live (breakpoints c)" and "functionAt env (StartAddr (calledFunction nf)) f"
    and "addFunction env nf (ID info) c = (Ok (), c1)"
    and "unwindFunctions env info sz c1 = (Ok (remaining, unwinded), c2)"
    and "sz < usedStackSize nf" and "\<forall>caller \<in> set (statusOf (ID info) c). usedStackSize caller < sz"
  shows "unwinded = [nf] \<and> statusOf (ID info) c2 = statusOf (ID info) c \<and>
    claims (breakpoints c2) = claims (breakpoints c) \<and> dom (breakpoints c2) = dom (breakpoints c)"
proof -
  let ?g = "ID info" and ?fs = "statusOf (ID info) c"
  have live: "liveCtl c" using assms(1) by (simp add: liveCtl_def)
  from addFunction_claims [OF assms(3) live assms(2)] obtain as where
      as: "callInstBreakpointsSet nf \<longrightarrow> callInstAddrCache c1 (StartAddr f) = Some as"
        "\<not> callInstBreakpointsSet nf \<longrightarrow> as = []"
    and C1: "ctlClaims c1 = claimMany ?g as (claimOne ?g (returnAddress nf) (ctlClaims c))"
    and live1: "liveCtl c1" and S1: "statusOf ?g c1 = ?fs @ [nf]" by blast
  from assms(4) obtain c3 where run: "unwindLoop env info sz (?fs @ [nf]) (Suc (length ?fs)) c1
      = (Ok (remaining, unwinded), c3)"
    and c2: "c2 = c3\<lparr>statusStore := (statusStore c3)(?g \<mapsto> remaining)\<rparr>"
    by (auto simp: unwindFunctions_def doUnwindFunctions_def putStatus_def bindM_Ok seqM_Ok S1
        simp del: unwindLoop.simps split: prod.splits)
  have "?fs \<noteq> [] \<longrightarrow> usedStackSize (last ?fs) < sz" using assms(6) by simp
  from unwind_one [OF run assms(5) this live1 assms(2) as] have
    r: "remaining = ?fs" "unwinded = [nf]" and live3: "liveCtl c3"
    and C3: "ctlClaims c3 = releaseMany ?g as (releaseOne ?g (returnAddress nf) (ctlClaims c1))" by auto
  have "releaseMany ?g as (releaseOne ?g (returnAddress nf) (claimMany ?g as (claimOne ?g (returnAddress nf) C))) = C" for C
    using release_claimed [of ?g "returnAddress nf # as" C] by (simp add: claimMany_Cons)
  then have "ctlClaims c3 = ctlClaims c" using C3 C1 by simp
  with liveCtl_dom [OF live live3] have "claims (breakpoints c2) = claims (breakpoints c) \<and>
      dom (breakpoints c2) = dom (breakpoints c)"
    by (simp add: c2 ctlClaims_def)
  with r show ?thesis by (simp add: c2 statusOf_def)
qed

text \<open>The go routine 7 of the simulated tracee calls main.main, which will return to 0x40.\<close>

definition simCall :: callingFunction where
  "simCall = \<lparr>calledFunction = simMain, returnAddress = 0x40, usedStackSize = 0x50, callInstBreakpointsSet = True\<rparr>"

definition simInfo :: GoRoutineInfo where
  "simInfo = \<lparr>ID = 7, UsedStackSize = 0x30, CurrentPC = 0x41, CurrentStackAddr = 0x100, NextDeferFuncAddr = 0,
     Panicking = False, Handler = None\<rparr>"

definition calledCtl :: "machine rawClient Controller" where
  "calledCtl = (freshCtl [])\<lparr>statusStore := [7 \<mapsto> [simCall]], callInstAddrCache := [0xe0 \<mapsto> [0xe8]],
     breakpointHints := [0xe8 \<mapsto> breakpointHintCall],
     breakpoints := [0x40 \<mapsto> \<lparr>addr = 0x40, associateAll = False, associations = [7]\<rparr>,
                     0xe8 \<mapsto> \<lparr>addr = 0xe8, associateAll = False, associations = [7]\<rparr>],
     process := (simProcess [])\<lparr>clientState := (startedMachine [])\<lparr>kernel := (kernel (startedMachine []))
        \<lparr>simMem := (\<lambda>a. ucast a)(0x40 := 0xcc, 0xe8 := 0xcc)\<rparr>\<rparr>,
       procBreakpoints := [0x40 \<mapsto> \<lparr>bpAddr = 0x40, orgInsts = [0x40]\<rparr>,
                           0xe8 \<mapsto> \<lparr>bpAddr = 0xe8, orgInsts = [0xe8]\<rparr>]\<rparr>\<rparr>"

lemma simMain_at: "0xe0 \<le> pc \<Longrightarrow> pc < 0xea \<Longrightarrow> functionAt simCtl pc simMain"
  by (simp add: functionAt_def procFindFunction_def FindFunction_def simCtl_def simEnv_def simBinary_def simMain_def
      fillInOutputParameters_def canFillInOutputParameters_def fillInUnknownParameter_def
      canFillInUnknownParameter_def findFunctionArgsSize_def)

lemma decodeLoop_numeral:
  "decodeLoop (numeral k) decode pos buff =
     (if pos < length buff then
        (case decode (drop pos buff) of (inst, err) \<Rightarrow>
           bindO (decodeLoop (pred_numeral k) decode (pos + Len inst) buff) (\<lambda>insts.
             Ok (case err of None \<Rightarrow> inst # insts | Some e \<Rightarrow> insts)))
      else Ok [])"
  by (simp add: numeral_eq_Suc)

definition steppedInto :: "machine rawClient Process" where
  "steppedInto = (simProcess [])\<lparr>clientState := (startedMachine [])\<lparr>kernel := (kernel (startedMachine []))
        \<lparr>simMem := (\<lambda>a. ucast a)(0x40 := 0xcc)\<rparr>\<rparr>,
       procBreakpoints := [0x40 \<mapsto> \<lparr>bpAddr = 0x40, orgInsts = [0x40]\<rparr>]\<rparr>"

lemma simMain_instructions:
  "\<exists>insts. ReadInstructions 20 (tracee simCtl) simMain steppedInto = Ok insts \<and> callAddresses 0xe0 0 insts = [0xe8]"
proof -
  have ten: "[0..<10] = [0, 1, 2, 3, 4, 5, 6, 7, 8, 9]" by (simp add: upt_rec)
  show ?thesis
    by (simp add: ReadInstructions_def simMain_def simCtl_def simEnv_def steppedInto_def simProcess_def
        makeSize_def readMem_def linuxClient_def rawReadMemory_def startedMachine_def simOS_def bytesAt_def ten
        restoreOriginals_def decodeLoop_numeral)
qed

lemma simSteps:
  "SetBreakpoint (tracee simCtl) 0x40 (simProcess []) = (Ok (), steppedInto)"
  "SetBreakpoint (tracee simCtl) 0xe8 steppedInto = (Ok (), process calledCtl)"
  "ClearBreakpoint (tracee simCtl) 0x40 (process calledCtl) = (Ok (), (process calledCtl)\<lparr>clientState :=
     (startedMachine [])\<lparr>kernel := (kernel (startedMachine []))\<lparr>simMem := (\<lambda>a. ucast a)(0xe8 := 0xcc)\<rparr>\<rparr>,
     procBreakpoints := [0xe8 \<mapsto> \<lparr>bpAddr = 0xe8, orgInsts = [0xe8]\<rparr>]\<rparr>)"
  by (simp_all add: SetBreakpoint_run ClearBreakpoint_run readMem_def steppedInto_def calledCtl_def
      simCtl_def simEnv_def simProcess_def linuxClient_def rawReadMemory_def rawWriteMemory_def startedMachine_def
      simOS_def bytesAt_def bindM_def sys_def zoomM_def fun_upd_twist fun_upd_idem)

lemma simCall_added: "addFunction simCtl simCall 7 (freshCtl []) = (Ok (), calledCtl)"
proof -
  have find: "procFindFunction 20 (tracee simCtl) 0xe0 p = Ok simMain" for p
    using simMain_at [of "0xe0"] by (simp add: functionAt_def simCtl_def)
  obtain insts where insts: "ReadInstructions 20 (tracee simCtl) simMain steppedInto = Ok insts"
    and calls: "callAddresses 0xe0 0 insts = [0xe8]" using simMain_instructions by blast
  have start: "StartAddr simMain = 0xe0" by (simp add: simMain_def)
  have fuel: "fuelOf simCtl = 20" by (simp add: simCtl_def)
  show ?thesis
    by (simp add: addFunction_def putStatus_def statusOf_def simCall_def freshCtl_def NewController_def
        seqM_def bindM_def branchM_def onBreakpoints_run SetConditional_run physicalOf_def procPhysical_def
        setCallInstBreakpoints_def alterCallInstBreakpoints_def findCallInstAddresses_def observe_def
        setHinted_def putHint_def NewBreakpoints_def Associate_def Let_def start fuel find insts calls simSteps)
      (simp add: calledCtl_def freshCtl_def NewController_def simCall_def)
qed

lemma simCall_unwound:
  "\<exists>c2. unwindFunctions simCtl simInfo 0x30 calledCtl = (Ok ([], [simCall]), c2)"
proof -
  have find: "procFindFunction 20 (tracee simCtl) 0xe0 p = Ok simMain" for p
    using simMain_at [of "0xe0"] by (simp add: functionAt_def simCtl_def)
  have start: "StartAddr simMain = 0xe0" by (simp add: simMain_def)
  have fuel: "fuelOf simCtl = 20" by (simp add: simCtl_def)
  obtain p where second: "ClearBreakpoint (tracee simCtl) 0xe8 ((process calledCtl)\<lparr>clientState :=
     (startedMachine [])\<lparr>kernel := (kernel (startedMachine []))\<lparr>simMem := (\<lambda>a. ucast a)(0xe8 := 0xcc)\<rparr>\<rparr>,
     procBreakpoints := [0xe8 \<mapsto> \<lparr>bpAddr = 0xe8, orgInsts = [0xe8]\<rparr>]\<rparr>) = (Ok (), p)"
    by (simp add: ClearBreakpoint_run simCtl_def simEnv_def linuxClient_def rawWriteMemory_def startedMachine_def
        simOS_def bindM_def sys_def zoomM_def)
  have store: "statusStore calledCtl = [7 \<mapsto> [simCall]]" "callInstAddrCache calledCtl = [0xe0 \<mapsto> [0xe8]]"
    "breakpoints calledCtl = [0x40 \<mapsto> \<lparr>addr = 0x40, associateAll = False, associations = [7]\<rparr>,
                     0xe8 \<mapsto> \<lparr>addr = 0xe8, associateAll = False, associations = [7]\<rparr>]"
    by (simp_all add: calledCtl_def)
  show ?thesis
    by (simp add: unwindFunctions_def doUnwindFunctions_def statusOf_def store simInfo_def putStatus_def
        simCall_def seqM_def bindM_def onBreakpoints_run ClearConditional_run Clear_run Disassociate_eq NoAssociation_def
        physicalOf_def procPhysical_def clearCallInstBreakpoints_def alterCallInstBreakpoints_def
        findCallInstAddresses_def observe_def Let_def start fuel find simSteps second)
qed

theorem call_and_return_restore_the_breakpoints_witness:
  "\<exists>c1 c2. addFunction simCtl simCall 7 (freshCtl []) = (Ok (), c1) \<and> 0xe8 \<in> dom (breakpoints c1) \<and>
     unwindFunctions simCtl simInfo 0x30 c1 = (Ok ([], [simCall]), c2) \<and>
     claims (breakpoints c2) = claims NewBreakpoints \<and> dom (breakpoints c2) = {}"
proof -
  obtain c2 where u: "unwindFunctions simCtl simInfo 0x30 calledCtl = (Ok ([], [simCall]), c2)"
    using simCall_unwound by blast
  have "live (breakpoints (freshCtl []))" and "breakpoints (freshCtl []) = NewBreakpoints"
    and "functionAt simCtl (StartAddr (calledFunction simCall)) simMain"
    using simMain_at [of "0xe0"] by (simp_all add: freshCtl_def NewController_def simCall_def simMain_def)
  moreover have "addFunction simCtl simCall (ID simInfo) (freshCtl []) = (Ok (), calledCtl)"
    using simCall_added by (simp add: simInfo_def)
  moreover have "(0x30::u64) < usedStackSize simCall" by (simp add: simCall_def)
  moreover have "\<forall>caller \<in> set (statusOf (ID simInfo) (freshCtl [])). usedStackSize caller < 0x30"
    by (simp add: freshCtl_def NewController_def statusOf_def)
  ultimately have "claims (breakpoints c2) = claims NewBreakpoints \<and> dom (breakpoints c2) = dom NewBreakpoints"
    using call_and_return_restore_the_breakpoints [OF _ _ _ u, of "freshCtl []" simCall simMain] by simp
  moreover have "0xe8 \<in> dom (breakpoints calledCtl)" by (simp add: calledCtl_def)
  ultimately show ?thesis using simCall_added u by (auto simp: NewBreakpoints_def)
qed

end
