(* ===== verification/ControllerTraps.thy ===== *)
theory ControllerTraps
  imports ControllerCalls
begin

text \<open>
  Properties of single handlers: how the stack is split when it is unwound, what a handler
  leaves alone, how requests and interrupts reach the loop, what is printed, and which
  addresses are taken for call instructions.
\<close>

section \<open>Unwinding\<close>

lemma takeWhile_exactly: "\<forall>x \<in> set xs. P x \<Longrightarrow> takeWhile P ys = [] \<Longrightarrow> takeWhile P (xs @ ys) = xs"
  by (simp add: takeWhile_append2)

text \<open>
  C23: unwinding to a stack size splits the stack of the go routine. What remains ends with a
  function that has a smaller stack, or the same stack and the name of the function at the
  program counter; every function taken off has a larger stack, or the same stack and another
  name, so that no function that is still running is taken off; the rest is kept as the new
  stack. Where the function at the program counter is known, this says exactly what is taken off:
  the functions from the top of the stack down to the innermost one that is still running. When the
  innermost function has a larger stack, as the dispatch checks before it handles a return, some
  function is taken off, so the handler has one to report.
\<close>

theorem unwinding_splits_the_stack:
  assumes "unwindFunctions env info sz c = (Ok (remaining, unwinded), c')"
  shows "remaining @ unwinded = statusOf (ID info) c \<and> statusOf (ID info) c' = remaining
    \<and> (remaining \<noteq> [] \<longrightarrow> stopsAt env info sz (last remaining))
    \<and> (\<forall>f \<in> set unwinded. leaves env info sz f)
    \<and> (functionAt env (CurrentPC info) g \<longrightarrow>
         unwinded = rev (takeWhile (\<lambda>f. \<not> (usedStackSize f < sz \<or> usedStackSize f = sz \<and> Name (calledFunction f) = Name g))
           (rev (statusOf (ID info) c))))
    \<and> (statusUsedStackSize (statusOf (ID info) c) > sz \<longrightarrow> unwinded \<noteq> [])"
proof -
  let ?fs = "statusOf (ID info) c"
  from unwindFunctions_Ok(1) [OF assms] obtain j where j: "j \<le> length ?fs" "remaining = take j ?fs"
    "unwinded = drop j ?fs" "j > 0 \<longrightarrow> stopsAt env info sz (?fs ! (j - 1))"
    "\<forall>k. j \<le> k \<and> k < length ?fs \<longrightarrow> leaves env info sz (?fs ! k)" by blast
  have split: "remaining @ unwinded = ?fs" using j(2,3) by simp
  have last: "remaining \<noteq> [] \<Longrightarrow> stopsAt env info sz (last remaining)"
    using j(1,2,4) by (cases "j = 0") (auto simp: last_conv_nth min_def)
  have off: "\<forall>f \<in> set unwinded. leaves env info sz f"
    using j(3,5) by (auto simp: in_set_conv_nth)
  have "unwinded = rev (takeWhile (\<lambda>f. \<not> (usedStackSize f < sz \<or> usedStackSize f = sz \<and> Name (calledFunction f) = Name g)) (rev ?fs))"
    if g: "functionAt env (CurrentPC info) g"
  proof -
    let ?gone = "\<lambda>f. \<not> (usedStackSize f < sz \<or> usedStackSize f = sz \<and> Name (calledFunction f) = Name g)"
    have "\<forall>f \<in> set (rev unwinded). ?gone f" using off g by (auto simp: leaves_def functionAt_def)
    moreover have "takeWhile ?gone (rev remaining) = []"
      using last g by (cases remaining rule: rev_cases) (auto simp: stopsAt_def functionAt_def)
    ultimately have "takeWhile ?gone (rev unwinded @ rev remaining) = rev unwinded" by (rule takeWhile_exactly)
    then show ?thesis unfolding split [symmetric] rev_append by simp
  qed
  moreover have "unwinded \<noteq> []" if top: "statusUsedStackSize ?fs > sz"
  proof
    assume "unwinded = []"
    with split have "remaining = ?fs" by simp
    moreover from top have "?fs \<noteq> []" by (auto simp: statusUsedStackSize_def)
    ultimately have "usedStackSize (last ?fs) \<le> sz" using last stopsAt_le by auto
    with top \<open>?fs \<noteq> []\<close> show False by (simp add: statusUsedStackSize_def last_conv_nth)
  qed
  ultimately show ?thesis using split last off unwound_top(1) [OF assms] by auto
qed

text \<open>The same stack size inside the function, and inside another one.\<close>

lemma simCall_kept:
  "unwindFunctions simCtl (simInfo\<lparr>CurrentPC := 0xe4\<rparr>) 0x50 calledCtl
     = (Ok ([simCall], []), calledCtl\<lparr>statusStore := (statusStore calledCtl)(7 \<mapsto> [simCall])\<rparr>)"
proof -
  have find: "procFindFunction 20 (tracee simCtl) 0xe4 p = Ok simMain" for p
    using simMain_at [of "0xe4"] by (simp add: functionAt_def simCtl_def)
  have fuel: "fuelOf simCtl = 20" by (simp add: simCtl_def)
  have store: "statusStore calledCtl = [7 \<mapsto> [simCall]]" by (simp add: calledCtl_def)
  show ?thesis
    by (simp add: unwindFunctions_def doUnwindFunctions_def statusOf_def store simInfo_def putStatus_def
        simCall_def observe_def bindM_def seqM_def Let_def fuel find)
qed

theorem unwinding_splits_the_stack_witness:
  "\<exists>c2. unwindFunctions simCtl simInfo 0x30 calledCtl = (Ok ([], [simCall]), c2)
    \<and> [] @ [simCall] = statusOf 7 calledCtl \<and> statusOf 7 c2 = []
    \<and> [] = rev (takeWhile (\<lambda>f. \<not> (usedStackSize f < 0x50 \<or> usedStackSize f = 0x50 \<and> Name (calledFunction f) = Name simMain))
        (rev [simCall]))"
proof -
  obtain c2 where u: "unwindFunctions simCtl simInfo 0x30 calledCtl = (Ok ([], [simCall]), c2)"
    using simCall_unwound by blast
  moreover have "ID simInfo = 7" by (simp add: simInfo_def)
  moreover have "functionAt simCtl (CurrentPC (simInfo\<lparr>CurrentPC := 0xe4\<rparr>)) simMain"
    using simMain_at [of "0xe4"] by simp
  moreover have "statusOf (ID (simInfo\<lparr>CurrentPC := 0xe4\<rparr>)) calledCtl = [simCall]"
    by (simp add: calledCtl_def statusOf_def simInfo_def)
  ultimately show ?thesis
    using unwinding_splits_the_stack [OF u, of simMain] unwinding_splits_the_stack [OF simCall_kept, of simMain] by auto
qed

section \<open>Other go routines\<close>

text \<open>
  C24: handling a call, a deferred call, a return, or the start or end of tracing for one go
  routine, on every outcome, leaves all that is kept for another one as it was: its stack, how
  often it entered the tracing, the breakpoints it hits, and the trace points.
\<close>

theorem go_routines_do_not_disturb_each_other:
  "othersUntouched (ID info) c (snd (handleTrapAtFunctionCall env t a info c))
    \<and> othersUntouched (ID info) c (snd (handleTrapAtDeferredFuncCall env t info c))
    \<and> othersUntouched (ID info) c (snd (handleTrapAfterFunctionReturn env info c))
    \<and> othersUntouched (ID info) c (snd (updateTracingStatus env info a c))"
  using isolated.handleTrapAtFunctionCall_frame [of info "ID info" env t a]
    isolated.handleTrapAtDeferredFuncCall_frame [of info "ID info" env t]
    isolated.handleTrapAfterFunctionReturn_frame [of info "ID info" env]
    isolated.updateTracingStatus_frame [of info "ID info" env a]
  by (simp add: keeps_def)

section \<open>Requests\<close>

lemma addStart_Ok:
  assumes "addStart env a c = (Ok (), c')" and "tidy c"
  shows "tidy c'" and "set (startAddressList (tracePoints c')) = insert a (set (startAddressList (tracePoints c)))"
    and "endAddressList (tracePoints c') = endAddressList (tracePoints c)"
    and "pendingStartTracePoint c' = pendingStartTracePoint c"
    and "pendingEndTracePoint c' = pendingEndTracePoint c"
proof -
  show "tidy c'" using keepsD [OF tidy_main.adds_start assms(1)] assms(2) by (simp add: tidyKept_def)
qed (use assms(1) in \<open>auto simp: addStart_def addPoint_run split: if_splits outcome.splits prod.splits\<close>)

lemma addEnd_Ok:
  assumes "addEnd env a c = (Ok (), c')" and "tidy c"
  shows "tidy c'" and "set (endAddressList (tracePoints c')) = insert a (set (endAddressList (tracePoints c)))"
    and "startAddressList (tracePoints c') = startAddressList (tracePoints c)"
    and "pendingStartTracePoint c' = pendingStartTracePoint c"
    and "pendingEndTracePoint c' = pendingEndTracePoint c"
proof -
  show "tidy c'" using keepsD [OF tidy_main.adds_end assms(1)] assms(2) by (simp add: tidyKept_def)
qed (use assms(1) in \<open>auto simp: addEnd_def addPoint_run split: if_splits outcome.splits prod.splits\<close>)

lemma receive_run:
  "receiveStart c = (Ok (), c\<lparr>pendingStartTracePoint := tl (pendingStartTracePoint c)\<rparr>)"
  "receiveEnd c = (Ok (), c\<lparr>pendingEndTracePoint := tl (pendingEndTracePoint c)\<rparr>)"
  by (simp_all add: receiveStart_def receiveEnd_def)

lemma receive_tidy:
  "tidy c \<Longrightarrow> tidy (c\<lparr>pendingStartTracePoint := tl (pendingStartTracePoint c)\<rparr>)"
  "tidy c \<Longrightarrow> tidy (c\<lparr>pendingEndTracePoint := tl (pendingEndTracePoint c)\<rparr>)"
  by (auto simp: tidy_def)

definition drained :: "u64 list \<Rightarrow> u64 list \<Rightarrow> 'c Controller \<Rightarrow> 'c Controller \<Rightarrow> bool" where
  "drained ss es c c' \<longleftrightarrow> tidy c' \<and>
     set (startAddressList (tracePoints c')) = set (startAddressList (tracePoints c)) \<union> set ss \<and>
     set (endAddressList (tracePoints c')) = set (endAddressList (tracePoints c)) \<union> set es \<and>
     pendingStartTracePoint c' = [] \<and> pendingEndTracePoint c' = []"

lemma drain_start:
  assumes run: "seqM receiveStart (seqM (addStart env s) m) c = (Ok (), c')" and t: "tidy c"
    and m: "\<And>c1. m c1 = (Ok (), c') \<Longrightarrow> tidy c1 \<Longrightarrow> pendingStartTracePoint c1 = ss \<Longrightarrow>
      pendingEndTracePoint c1 = es \<Longrightarrow> drained ss es c1 c'"
    and pending: "pendingStartTracePoint c = s # ss" "pendingEndTracePoint c = es"
  shows "drained (s # ss) es c c'"
proof -
  let ?c = "c\<lparr>pendingStartTracePoint := tl (pendingStartTracePoint c)\<rparr>"
  from run obtain c1 where 1: "addStart env s ?c = (Ok (), c1)" and 2: "m c1 = (Ok (), c')"
    by (auto simp: seqM_Ok receive_run)
  note a = addStart_Ok [OF 1 receive_tidy(1) [OF t]]
  have "pendingStartTracePoint c1 = ss" "pendingEndTracePoint c1 = es" using a(4,5) pending by simp_all
  from m [OF 2 a(1) this] a(2,3) show ?thesis by (auto simp: drained_def)
qed

lemma drain_end:
  assumes run: "seqM receiveEnd (seqM (addEnd env e) m) c = (Ok (), c')" and t: "tidy c"
    and m: "\<And>c1. m c1 = (Ok (), c') \<Longrightarrow> tidy c1 \<Longrightarrow> pendingStartTracePoint c1 = ss \<Longrightarrow>
      pendingEndTracePoint c1 = es \<Longrightarrow> drained ss es c1 c'"
    and pending: "pendingStartTracePoint c = ss" "pendingEndTracePoint c = e # es"
  shows "drained ss (e # es) c c'"
proof -
  let ?c = "c\<lparr>pendingEndTracePoint := tl (pendingEndTracePoint c)\<rparr>"
  from run obtain c1 where 1: "addEnd env e ?c = (Ok (), c1)" and 2: "m c1 = (Ok (), c')"
    by (auto simp: seqM_Ok receive_run)
  note a = addEnd_Ok [OF 1 receive_tidy(2) [OF t]]
  have "pendingStartTracePoint c1 = ss" "pendingEndTracePoint c1 = es" using a(4,5) pending by simp_all
  from m [OF 2 a(1) this] a(2,3) show ?thesis by (auto simp: drained_def)
qed

lemma drainPending_Ok:
  assumes "drainPending env ss es c = (Ok (), c')" and "tidy c"
    and "pendingStartTracePoint c = ss" and "pendingEndTracePoint c = es"
  shows "drained ss es c c'"
  using assms
proof (induction env ss es arbitrary: c rule: drainPending.induct)
  case (1 env)
  then show ?case by (simp add: drained_def)
next
  case (2 env s ss)
  show ?case by (rule drain_start [OF _ 2(3) _ 2(4,5)]) (use 2 in \<open>simp_all add: drainPending.simps\<close>)
next
  case (3 env e es)
  show ?case by (rule drain_end [OF _ 3(3) _ 3(4,5)]) (use 3 in \<open>simp_all add: drainPending.simps\<close>)
next
  case (4 env s ss e es)
  show ?case
  proof (cases "takesStart env (s # ss) (e # es)")
    case True
    show ?thesis by (rule drain_start [OF _ 4(4) _ 4(5,6)]) (use 4 True in \<open>simp_all add: drainPending.simps\<close>)
  next
    case False
    show ?thesis by (rule drain_end [OF _ 4(4) _ 4(5,6)]) (use 4 False in \<open>simp_all add: drainPending.simps\<close>)
  qed
qed

text \<open>
  C25: when setPendingTracePoints succeeds, both channels are empty and the start and end points
  are those there were and those requested, in whatever order the channels were read; each of
  them is hit by every go routine. No request is lost.
\<close>

theorem requested_points_are_hit:
  assumes "setPendingTracePoints env c = (Ok (), c')" and "tidy c"
  shows "set (startAddressList (tracePoints c')) =
      set (startAddressList (tracePoints c)) \<union> set (pendingStartTracePoint c)
    \<and> set (endAddressList (tracePoints c')) =
      set (endAddressList (tracePoints c)) \<union> set (pendingEndTracePoint c)
    \<and> pendingStartTracePoint c' = [] \<and> pendingEndTracePoint c' = []
    \<and> (\<forall>a \<in> set (pendingStartTracePoint c) \<union> set (pendingEndTracePoint c). \<forall>g. Hit (breakpoints c') a g)"
proof -
  have "drained (pendingStartTracePoint c) (pendingEndTracePoint c) c c'"
    by (rule drainPending_Ok) (use assms in \<open>simp_all add: setPendingTracePoints_def\<close>)
  then have d: "tidy c'" "set (startAddressList (tracePoints c')) =
      set (startAddressList (tracePoints c)) \<union> set (pendingStartTracePoint c)"
    "set (endAddressList (tracePoints c')) =
      set (endAddressList (tracePoints c)) \<union> set (pendingEndTracePoint c)"
    "pendingStartTracePoint c' = []" "pendingEndTracePoint c' = []"
    by (simp_all add: drained_def)
  have "unconditional (breakpoints c') a"
    if "a \<in> set (pendingStartTracePoint c) \<union> set (pendingEndTracePoint c)" for a
    using d(1-3) that by (auto simp: tidy_def)
  then have "Hit (breakpoints c') a g"
    if "a \<in> set (pendingStartTracePoint c) \<union> set (pendingEndTracePoint c)" for a g
    using that by (force simp: unconditional_def Hit_def cbHit_def split: option.splits)
  with d show ?thesis by blast
qed

theorem requested_points_are_hit_witness:
  "setPendingTracePoints simCtl (startedCtl []) = (Ok (), tracedCtl)
    \<and> IsStartAddress (tracePoints tracedCtl) 0x10 \<and> Hit (breakpoints tracedCtl) 0x10 3"
proof -
  have run: "setPendingTracePoints simCtl (startedCtl []) = (Ok (), tracedCtl)"
    by (simp add: startedCtl_def freshCtl_def tracedCtl_def NewController_def simProcess_def startedMachine_def
        AddStartTracePoint_def chanBufferSize_def setPendingTracePoints_def
        receiveStart_def addStart_def addPoint_run Set_run physicalOf_def procPhysical_def SetBreakpoint_run
        simCtl_def simEnv_def readMem_def linuxClient_def rawReadMemory_def rawWriteMemory_def
        bindM_def seqM_def sys_def zoomM_def simOS_def bytesAt_def NewBreakpoints_def)
  have "tidy (startedCtl [])"
    by (simp add: tidy_def startedCtl_def freshCtl_def NewController_def AddStartTracePoint_def chanBufferSize_def)
  from requested_points_are_hit [OF run this] run show ?thesis
    by (simp add: startedCtl_def freshCtl_def NewController_def AddStartTracePoint_def chanBufferSize_def)
qed

section \<open>Interrupts\<close>

text \<open>Handling the threads of a trap takes nothing out of the channels.\<close>

definition sameQueues :: "'c Controller \<Rightarrow> 'c Controller \<Rightarrow> bool" where
  "sameQueues c c' \<longleftrightarrow> interruptCh c' = interruptCh c \<and>
     pendingStartTracePoint c' = pendingStartTracePoint c \<and> pendingEndTracePoint c' = pendingEndTracePoint c"

lemma queues_process: "keeps sameQueues (onProcess m)"
  by (auto simp: keeps_def sameQueues_def onProcess_run split: prod.splits)

lemma queues_breakpoints: "keeps sameQueues (onBreakpoints m)"
  by (auto simp: keeps_def sameQueues_def onBreakpoints_run split: prod.splits)

interpretation queues: status_frame sameQueues env "\<lambda>_. True" for env
  by unfold_locales (auto intro: queues_process queues_breakpoints simp: sameQueues_def quietChange_def)

interpretation queues_events: event_frame sameQueues env "\<lambda>_. True" for env
  by unfold_locales (auto intro: queues_process)

definition handleThreads :: "'c ctlEnv \<Rightarrow> int list \<Rightarrow> ('c Controller, unit) prog" where
  "handleThreads env ids = forM ids (\<lambda>tid. catchM (handleTrapEventOfThread env tid) (\<lambda>err.
     failM (Wrapped (''failed to handle trap event (thread id: '' @ dec_int tid @ '')'') err)))"

lemma handleTrapEvent_eq: "handleTrapEvent env ids = seqM (handleThreads env ids) (ctlContinueAndWait env)"
  by (simp add: handleTrapEvent_def handleThreads_def)

lemma interrupted_continue:
  "interruptCh c > 0 \<Longrightarrow>
     ctlContinueAndWait env c = (Fail ErrInterrupted, c\<lparr>interruptCh := interruptCh c - 1\<rparr>)"
  by (simp add: ctlContinueAndWait_def seqM_def bindM_def receiveInterrupt_def)

text \<open>
  C26: an interrupt that is pending when the loop handles a trap ends it after this trap. The
  traps of the threads are handled as always; then the loop returns ErrInterrupted (when they
  are handled without an error), whatever number of rounds it had left, without resuming the
  tracee and without looking at pending trace points. Started with a pending interrupt, MainLoop
  detaches from the tracee as it is.
\<close>

theorem interrupt_ends_the_loop:
  fixes c :: "'c Controller"
  assumes "interruptCh c > 0"
  shows "(\<forall>c1. handleThreads env ids c = (Ok (), c1) \<longrightarrow>
      mainRounds (Suc n) env (Trapped ids) c = (Fail ErrInterrupted, c1\<lparr>interruptCh := interruptCh c - 1\<rparr>))
    \<and> process (snd (MainLoop n env c)) = snd (Detach (tracee env) (process c))
    \<and> pendingStartTracePoint (snd (MainLoop n env c)) = pendingStartTracePoint c"
proof -
  have "mainRounds (Suc n) env (Trapped ids) c = (Fail ErrInterrupted, c1\<lparr>interruptCh := interruptCh c - 1\<rparr>)"
    if run: "handleThreads env ids c = (Ok (), c1)" for c1
  proof -
    have "sameQueues c c1"
      using keepsD [OF queues_events.handling_frame run [unfolded handleThreads_def]] .
    then have q: "interruptCh c1 = interruptCh c" by (simp add: sameQueues_def)
    with interrupted_continue [of c1 env] assms run show ?thesis
      by (simp add: handleTrapEvent_eq branchM_def seqM_def bindM_def mainError_def)
  qed
  moreover have "MainLoop n env c = deferred (onProcess (Detach (tracee env))) (failM ErrInterrupted)
      (c\<lparr>interruptCh := interruptCh c - 1\<rparr>)"
    using interrupted_continue [of c env] assms
    by (simp add: MainLoop_def deferred_run branchM_def mainError_def)
  ultimately show ?thesis
    by (auto simp: deferred_run onProcess_run split: prod.splits)
qed

theorem interrupt_ends_the_loop_witness:
  "interruptCh (the (Interrupt tracedCtl)) = 1 \<and>
    process (snd (MainLoop 3 simCtl (the (Interrupt tracedCtl)))) =
      snd (Detach (tracee simCtl) (process tracedCtl))"
proof -
  have i: "Interrupt tracedCtl = Some (tracedCtl\<lparr>interruptCh := 1\<rparr>)"
    by (simp add: Interrupt_def tracedCtl_def freshCtl_def NewController_def chanBufferSize_def)
  have "interruptCh (the (Interrupt tracedCtl)) > 0" by (simp add: i)
  from interrupt_ends_the_loop [OF this, of simCtl "[]" 3] i show ?thesis by simp
qed

section \<open>Printing\<close>

text \<open>Everything but printing leaves the output, the levels and the stacks alone.\<close>

definition sameOutput :: "'c Controller \<Rightarrow> 'c Controller \<Rightarrow> bool" where
  "sameOutput c c' \<longleftrightarrow> outputWriter c' = outputWriter c \<and> traceLevel c' = traceLevel c"

interpretation out: frame sameOutput
  by unfold_locales (auto simp: sameOutput_def)

lemma output_parts:
  "keeps sameOutput (onProcess m)" "keeps sameOutput (onBreakpoints m')"
  "keeps sameOutput (putStatus g fs)" "keeps sameOutput (putHint a h)" "keeps sameOutput (observe f)"
  "keeps sameOutput (modifyM (\<lambda>c. c\<lparr>callInstAddrCache := F c\<rparr>))"
  by (auto simp: keeps_def sameOutput_def onProcess_run onBreakpoints_run putStatus_def putHint_def observe_def
      split: prod.splits)

lemma alterCallInstBreakpoints_output: "keeps sameOutput (alterCallInstBreakpoints env enable g pc)"
  unfolding alterCallInstBreakpoints_def findCallInstAddresses_def setHinted_def Let_def
  by (intro frame_intros output_parts)

lemma addFunction_output: "keeps sameOutput (addFunction env f g)"
  unfolding addFunction_def setCallInstBreakpoints_def
  by (intro frame_intros output_parts alterCallInstBreakpoints_output)

lemma unwindLoop_output: "keeps sameOutput (unwindLoop env info sz fs i)"
proof (induction i)
  case 0
  show ?case unfolding unwindLoop.simps by (rule out.return_frame)
next
  case (Suc i)
  then show ?case
    unfolding unwindLoop.simps Let_def clearCallInstBreakpoints_def
    by (intro frame_intros output_parts alterCallInstBreakpoints_output)
qed

lemma unwindFunctions_output: "keeps sameOutput (unwindFunctions env info sz)"
  unfolding unwindFunctions_def doUnwindFunctions_def
  by (intro frame_intros output_parts unwindLoop_output)

lemma addFunction_status:
  "addFunction env f g c = (r, c') \<Longrightarrow> statusStore c' = (statusStore c)(g \<mapsto> statusOf g c @ [f])"
proof -
  let ?rest = "seqM (onBreakpoints (SetConditional (physicalOf env) (returnAddress f) g))
       (if callInstBreakpointsSet f then setCallInstBreakpoints env g (StartAddr (calledFunction f)) else returnM ())"
  assume "addFunction env f g c = (r, c')"
  then have "?rest (c\<lparr>statusStore := (statusStore c)(g \<mapsto> statusOf g c @ [f])\<rparr>) = (r, c')"
    by (simp add: addFunction_def putStatus_def)
  moreover have "keeps sameStacks ?rest"
    unfolding setCallInstBreakpoints_def
    by (intro frame_intros stacks.set_conditional stacks.alterCallInstBreakpoints_frame TrueI)
  ultimately have "sameStacks (c\<lparr>statusStore := (statusStore c)(g \<mapsto> statusOf g c @ [f])\<rparr>) c'"
    by (rule keepsD [rotated])
  then show ?thesis by (simp add: sameStacks_def)
qed

lemma bars: "concat (replicate n ''|'') = replicate n (CHR ''|'')"
  by (induction n) auto

lemma printFunctionInput_run:
  "printFunctionInput env g sf d c = (r, c') \<Longrightarrow>
     c' = c \<or> (\<exists>rest. c' = c\<lparr>outputWriter := outputWriter c @ [replicate (nat (d - 1)) (CHR ''|'') @ rest]\<rparr>)"
  by (auto simp: printFunctionInput_def bindM_def observe_def printLine_def Repeat_def bars
      split: outcome.splits if_splits)

text \<open>The run of a call up to what it prints: where it printed, the stack was unwound and grown before.\<close>

lemma call_run:
  assumes run: "handleTrapAtFunctionCall env t a info c = (r, c')"
  shows "outputWriter c' = outputWriter c \<or>
    (\<exists>remaining unwinded c1 line. unwindFunctions env info (UsedStackSize info) c = (Ok (remaining, unwinded), c1) \<and>
       length (statusOf (ID info) c') = Suc (length remaining) \<and> int (Suc (length remaining)) \<le> traceLevel c \<and>
       outputWriter c' = outputWriter c @ [replicate (length remaining) (CHR ''|'') @ line])"
proof -
  let ?g = "ID info" and ?sz = "UsedStackSize info"
  obtain r0 c0 where 0: "currentStackFrame env info c = (r0, c0)" by (cases "currentStackFrame env info c")
  then have c0: "c0 = c" by (simp add: currentStackFrame_def observe_def)
  obtain r1 c1 where 1: "unwindFunctions env info ?sz c = (r1, c1)" by (cases "unwindFunctions env info ?sz c")
  have same1: "sameOutput c c1" using keepsD [OF unwindFunctions_output 1] .
  show ?thesis
  proof (cases "(\<exists>sf. r0 = Ok sf) \<and> (\<exists>ru. r1 = Ok ru)")
    case False
    then have "outputWriter c' = outputWriter c"
      using run 0 1 same1 unfolding handleTrapAtFunctionCall_def
      by (cases r0; cases r1) (auto simp: bindM_def c0 sameOutput_def)
    then show ?thesis by simp
  next
    case True
    then obtain sf remaining unwinded where r0: "r0 = Ok sf" and r1: "r1 = Ok (remaining, unwinded)" by auto
    define d where "d = int (length remaining) + 1"
    define f where "f = \<lparr>calledFunction = frameFunction sf, returnAddress = ReturnAddress sf,
        usedStackSize = ?sz, callInstBreakpointsSet = (d < traceLevel c1)\<rparr>"
    let ?print = "if d \<le> traceLevel c1 \<and> printableFunc env (frameFunction sf)
        then printFunctionInput env ?g sf d else returnM ()"
    have rest: "seqM (addFunction env f ?g) (seqM ?print (singleStep env t a)) c1 = (r, c')"
      using run 0 1 unfolding d_def f_def
      by (simp add: handleTrapAtFunctionCall_def bindM_def r0 r1 c0 Let_def split del: if_split)
    obtain r2 c2 where 2: "addFunction env f ?g c1 = (r2, c2)" by (cases "addFunction env f ?g c1")
    have same2: "sameOutput c1 c2" using keepsD [OF addFunction_output 2] .
    have status: "statusOf ?g c2 = remaining @ [f]"
      using addFunction_status [OF 2] unwound_top(1) [OF 1 [unfolded r1]] by (simp add: statusOf_def)
    show ?thesis
    proof (cases r2)
      case (Ok u)
      obtain r3 c3 where 3: "?print c2 = (r3, c3)" by (cases "?print c2")
      have stack3: "statusStore c3 = statusStore c2"
        using 3 keepsD [OF stacks.printing_frame(1), of env ?g sf d c2 r3 c3]
        by (auto simp: sameStacks_def split: if_splits)
      have "sameOutput c3 c' \<and> sameStacks c3 c'"
      proof (cases r3)
        case r3: (Ok u)
        with rest 2 3 Ok have s: "singleStep env t a c3 = (r, c')" by (simp add: seqM_def bindM_def)
        show ?thesis
          using keepsD [OF output_parts(1) s [unfolded singleStep_def]] keepsD [OF stacks.singleStep_frame s] by simp
      qed (use rest 2 3 Ok in \<open>simp_all add: seqM_def bindM_def sameOutput_def sameStacks_def\<close>)
      then have out: "outputWriter c' = outputWriter c3" and "statusOf ?g c' = statusOf ?g c2"
        using stack3 by (simp_all add: sameOutput_def sameStacks_def statusOf_def)
      with status have len: "length (statusOf ?g c') = Suc (length remaining)" by simp
      have out2: "outputWriter c2 = outputWriter c" and level: "traceLevel c1 = traceLevel c"
        using same1 same2 by (simp_all add: sameOutput_def)
      show ?thesis
      proof (cases "d \<le> traceLevel c1 \<and> printableFunc env (frameFunction sf)")
        case True
        with 3 have "printFunctionInput env ?g sf d c2 = (r3, c3)" by simp
        from printFunctionInput_run [OF this] True show ?thesis
          using out out2 level len 1 r1 by (auto simp: d_def)
      next
        case False
        with 3 have "c3 = c2" by (simp split: if_splits)
        with out out2 show ?thesis by simp
      qed
    qed (use rest 2 same1 same2 in \<open>auto simp: seqM_def bindM_def sameOutput_def\<close>)
  qed
qed

text \<open>
  C27: handling a call prints one line or nothing, and prints only within the trace level: with
  the called function on the stack of the go routine the stack is not deeper than the level, and
  the line starts with one bar for each of its callers on this stack.
\<close>

theorem calls_are_printed_within_the_trace_level:
  assumes "handleTrapAtFunctionCall env t a info c = (r, c')" and "outputWriter c' \<noteq> outputWriter c"
  shows "\<exists>depth line. length (statusOf (ID info) c') = Suc depth \<and> int (Suc depth) \<le> traceLevel c \<and>
    outputWriter c' = outputWriter c @ [replicate depth (CHR ''|'') @ line]"
  using call_run [OF assms(1)] assms(2) by auto

text \<open>The go routine 7 enters main.f of the simulated tracee, with one level to trace.\<close>

definition simEnter :: GoRoutineInfo where
  "simEnter = \<lparr>ID = 7, UsedStackSize = 0x90, CurrentPC = 0x20, CurrentStackAddr = 0x100, NextDeferFuncAddr = 0,
     Panicking = False, Handler = None\<rparr>"

definition levelOneCtl :: "machine rawClient Controller" where
  "levelOneCtl = (freshCtl [])\<lparr>traceLevel := 1\<rparr>"

lemma simF_at: "procFindFunction 20 (tracee simCtl) 0x20 p = Ok simF"
  by (simp add: procFindFunction_def FindFunction_def simCtl_def simEnv_def simBinary_def simF_def
      fillInOutputParameters_def canFillInOutputParameters_def fillInUnknownParameter_def
      canFillInUnknownParameter_def findFunctionArgsSize_def)

lemma simEnter_prints:
  "outputWriter (snd (handleTrapAtFunctionCall simCtl 1 0x20 simEnter levelOneCtl))
     = [[CHR 0x5C] @ '' (#07) main.f() ()'' @ [CHR 0x0A]]"
proof -
  have frame: "\<exists>sf. StackFrameAt 20 (tracee simCtl) 0x100 0x20 (simProcess []) = Ok sf \<and> frameFunction sf = simF \<and>
      InputArguments sf = [] \<and> OutputArguments sf = []"
    by (simp add: StackFrameAt_def simF_at) (simp add: readMem_def simCtl_def simEnv_def simProcess_def linuxClient_def
        rawReadMemory_def startedMachine_def simOS_def Uint64_def bytesAt_def currentArgs_def simF_def)
  then obtain sf where sf: "StackFrameAt 20 (tracee simCtl) 0x100 0x20 (simProcess []) = Ok sf"
    "frameFunction sf = simF" "InputArguments sf = []" "OutputArguments sf = []" by blast
  have "\<exists>p. SetBreakpoint (tracee simCtl) (ReturnAddress sf) (simProcess []) = (Ok (), p)"
    by (simp add: SetBreakpoint_run readMem_def simCtl_def simEnv_def simProcess_def linuxClient_def
        rawReadMemory_def rawWriteMemory_def startedMachine_def simOS_def bytesAt_def bindM_def sys_def zoomM_def)
  then obtain p where set: "SetBreakpoint (tracee simCtl) (ReturnAddress sf) (simProcess []) = (Ok (), p)" by blast
  have fuel: "fuelOf simCtl = 20" by (simp add: simCtl_def)
  have seven: "dec02_int 7 = ''07''" by code_simp
  have "\<exists>c3. handleTrapAtFunctionCall simCtl 1 0x20 simEnter levelOneCtl = singleStep simCtl 1 0x20 c3 \<and>
      outputWriter c3 = [[CHR 0x5C] @ '' (#07) main.f() ()'' @ [CHR 0x0A]]"
    by (simp add: handleTrapAtFunctionCall_def currentStackFrame_def observe_def simEnter_def levelOneCtl_def
        freshCtl_def NewController_def fuel sf set unwindFunctions_def doUnwindFunctions_def statusOf_def putStatus_def
        addFunction_def seqM_def bindM_def onBreakpoints_run SetConditional_run physicalOf_def procPhysical_def
        NewBreakpoints_def printableFunc_def HasPrefix_def printFunctionInput_def Repeat_def printLine_def
        seven simF_def Let_def)
      (rule exI, rule conjI, rule refl, simp)
  then obtain c3 where 3: "handleTrapAtFunctionCall simCtl 1 0x20 simEnter levelOneCtl = singleStep simCtl 1 0x20 c3"
      "outputWriter c3 = [[CHR 0x5C] @ '' (#07) main.f() ()'' @ [CHR 0x0A]]" by blast
  have "sameOutput c3 (snd (singleStep simCtl 1 0x20 c3))"
    unfolding singleStep_def by (rule keepsD [OF output_parts(1) prod.collapse [symmetric]])
  with 3 show ?thesis by (simp add: sameOutput_def)
qed

theorem calls_are_printed_within_the_trace_level_witness:
  "\<exists>depth line. outputWriter (snd (handleTrapAtFunctionCall simCtl 1 0x20 simEnter levelOneCtl))
      = [replicate depth (CHR ''|'') @ line] \<and> int (Suc depth) \<le> 1"
proof -
  have empty: "outputWriter levelOneCtl = []" "traceLevel levelOneCtl = 1"
    by (simp_all add: levelOneCtl_def freshCtl_def NewController_def)
  have "outputWriter (snd (handleTrapAtFunctionCall simCtl 1 0x20 simEnter levelOneCtl)) \<noteq> outputWriter levelOneCtl"
    by (simp add: simEnter_prints empty)
  from calls_are_printed_within_the_trace_level [OF prod.collapse [symmetric] this] show ?thesis
    by (auto simp: empty)
qed

text \<open>
  C35: leaving the trace does not clear the stack of the go routine. The functions it was in then
  stay on the stack, below everything it calls later, and count as its depth when it is traced
  again: once as many of them are left as there are levels to trace, no call is printed any
  more, although every one is within the level, counted from the new start point.
\<close>

theorem stale_stack_silences_the_next_trace:
  assumes "statusOf (ID info) c = stale" and "stale \<noteq> []"
    and "\<forall>f \<in> set stale. usedStackSize f < UsedStackSize info" and "traceLevel c \<le> int (length stale)"
  shows "statusOf (ID info) (snd (exitTracepoint env (ID info) c)) = stale
    \<and> outputWriter (snd (handleTrapAtFunctionCall env t a info c)) = outputWriter c"
proof
  have "keeps sameStacks (exitTracepoint env (ID info))" by (rule stacks.exitTracepoint_frame) simp
  then show "statusOf (ID info) (snd (exitTracepoint env (ID info) c)) = stale"
    using assms(1) by (simp add: keeps_def sameStacks_def statusOf_def)
  obtain n where n: "length stale = Suc n" using assms(2) by (cases stale) auto
  have top: "usedStackSize (stale ! n) < UsedStackSize info" using assms(3) n by simp
  have "remaining = stale" if "unwindFunctions env info (UsedStackSize info) c = (Ok (remaining, unwinded), c1)"
    for remaining unwinded c1
    using that top n
    by (auto simp: unwindFunctions_def doUnwindFunctions_def assms(1) putStatus_def bindM_def seqM_def)
  then show "outputWriter (snd (handleTrapAtFunctionCall env t a info c)) = outputWriter c"
    using call_run [of env t a info c, OF prod.collapse [symmetric]] assms(4) by fastforce
qed

theorem stale_stack_silences_the_next_trace_witness:
  "outputWriter (snd (handleTrapAtFunctionCall simCtl 1 0x20 simEnter levelOneCtl)) \<noteq> [] \<and>
   outputWriter (snd (handleTrapAtFunctionCall simCtl 1 0x20 simEnter
     (levelOneCtl\<lparr>statusStore := [7 \<mapsto> [simCall]]\<rparr>))) = []"
proof
  show "outputWriter (snd (handleTrapAtFunctionCall simCtl 1 0x20 simEnter levelOneCtl)) \<noteq> []"
    by (simp add: simEnter_prints)
  let ?c = "levelOneCtl\<lparr>statusStore := [7 \<mapsto> [simCall]]\<rparr>"
  have "statusOf (ID simEnter) ?c = [simCall]" by (simp add: simEnter_def statusOf_def)
  moreover have "\<forall>f \<in> set [simCall]. usedStackSize f < UsedStackSize simEnter"
    by (simp add: simCall_def simEnter_def)
  moreover have "traceLevel ?c \<le> int (length [simCall])" "outputWriter ?c = []"
    by (simp_all add: levelOneCtl_def freshCtl_def NewController_def)
  ultimately show "outputWriter (snd (handleTrapAtFunctionCall simCtl 1 0x20 simEnter ?c)) = []"
    using stale_stack_silences_the_next_trace [of simEnter ?c "[simCall]" simCtl 1 "0x20"] by simp
qed

section \<open>Call instructions\<close>

text \<open>The positions at which decoding one instruction after the other starts an instruction.\<close>

inductive instAt :: "(u8 list \<Rightarrow> Inst \<times> error option) \<Rightarrow> u8 list \<Rightarrow> nat \<Rightarrow> nat \<Rightarrow> bool"
  for decode buff pos0 where
  here: "instAt decode buff pos0 pos0"
| after: "instAt decode buff pos0 pos \<Longrightarrow> pos < length buff \<Longrightarrow>
    instAt decode buff pos0 (pos + Len (fst (decode (drop pos buff))))"

definition isCall :: "Inst \<Rightarrow> bool" where
  "isCall inst \<longleftrightarrow> Op inst = CALL \<or> Op inst = LCALL"

lemma instAt_ge: "instAt decode buff pos0 pos \<Longrightarrow> pos0 \<le> pos"
  by (induction rule: instAt.induct) auto

lemma instAt_step:
  assumes "pos0 < length buff"
  shows "instAt decode buff pos0 pos \<longleftrightarrow>
     pos = pos0 \<or> instAt decode buff (pos0 + Len (fst (decode (drop pos0 buff)))) pos"
proof
  assume "instAt decode buff pos0 pos"
  then show "pos = pos0 \<or> instAt decode buff (pos0 + Len (fst (decode (drop pos0 buff)))) pos"
    by induction (metis instAt.intros)+
next
  assume "pos = pos0 \<or> instAt decode buff (pos0 + Len (fst (decode (drop pos0 buff)))) pos"
  then show "instAt decode buff pos0 pos"
  proof
    assume "instAt decode buff (pos0 + Len (fst (decode (drop pos0 buff)))) pos"
    then show ?thesis by induction (use assms in \<open>auto intro: instAt.intros\<close>)
  qed (simp add: instAt.here)
qed

lemma callAddresses_at:
  assumes "decodeLoop fuel decode pos0 buff = Ok insts"
    and "\<forall>p. instAt decode buff pos0 p \<and> p < length buff \<longrightarrow> snd (decode (drop p buff)) = None"
  shows "a \<in> set (callAddresses start off insts) \<longleftrightarrow>
    (\<exists>p. instAt decode buff pos0 p \<and> p < length buff \<and> isCall (fst (decode (drop p buff))) \<and>
       a = start + of_nat (off + (p - pos0)))"
  using assms
proof (induction fuel arbitrary: pos0 insts off)
  case 0
  then show ?case by simp
next
  case (Suc fuel)
  show ?case
  proof (cases "pos0 < length buff")
    case False
    with Suc.prems(1) have "insts = []" by simp
    with False instAt_ge [of decode buff pos0] show ?thesis by (auto dest: instAt_ge)
  next
    case True
    obtain inst err where d: "decode (drop pos0 buff) = (inst, err)" by (cases "decode (drop pos0 buff)")
    with Suc.prems(2) True have "err = None" by (auto intro: instAt.here)
    with Suc.prems(1) True d obtain insts' where more: "decodeLoop fuel decode (pos0 + Len inst) buff = Ok insts'"
      and insts: "insts = inst # insts'"
      by (auto simp: bindO_Ok)
    note step = instAt_step [OF True, where decode = decode, unfolded d fst_conv]
    have "\<forall>p. instAt decode buff (pos0 + Len inst) p \<and> p < length buff \<longrightarrow> snd (decode (drop p buff)) = None"
      using Suc.prems(2) step by blast
    note IH = Suc.IH [OF more this, of "off + Len inst"]
    have shift: "off + Len inst + (p - (pos0 + Len inst)) = off + (p - pos0)"
      if "instAt decode buff (pos0 + Len inst) p" for p
      using instAt_ge [OF that] by simp
    have "a \<in> set (callAddresses start off insts) \<longleftrightarrow>
        isCall inst \<and> a = start + of_nat off \<or> a \<in> set (callAddresses start (off + Len inst) insts')"
      by (auto simp: insts isCall_def)
    also have "\<dots> \<longleftrightarrow> isCall inst \<and> a = start + of_nat off \<or>
        (\<exists>p. instAt decode buff (pos0 + Len inst) p \<and> p < length buff \<and> isCall (fst (decode (drop p buff))) \<and>
          a = start + of_nat (off + (p - pos0)))"
      unfolding IH using shift by (metis (no_types, lifting))
    also have "\<dots> \<longleftrightarrow> (\<exists>p. instAt decode buff pos0 p \<and> p < length buff \<and>
        isCall (fst (decode (drop p buff))) \<and> a = start + of_nat (off + (p - pos0)))"
      using d True step by (metis add.right_neutral diff_self_eq_0 fst_conv)
    finally show ?thesis .
  qed
qed

definition originalBytes :: "(u64 \<Rightarrow> u8) \<Rightarrow> Function \<Rightarrow> u8 list" where
  "originalBytes orig f = bytesAt orig (StartAddr f) (unat (EndAddr f - StartAddr f))"

text \<open>
  C4: the addresses taken for the call instructions of a function are those of its original text,
  whatever breakpoints are in the text when they are read for the first time: decoding the
  original bytes one instruction after the other, exactly the calls. They are read through the
  tracee's memory, where the breakpoint instructions are, by a client that keeps the laws of the
  program text; the bytes must all decode.
\<close>

theorem call_instructions_are_those_of_the_original_text:
  fixes c :: "'c Controller"
  assumes "tracee_text (debugapiClient (tracee env)) memory code" and "traced memory code orig (process c)"
    and "StartAddr f \<le> EndAddr f" and "\<forall>x. StartAddr f \<le> x \<and> x < EndAddr f \<longrightarrow> x \<in> code"
    and "dom (procBreakpoints (process c)) \<subseteq> set (bpOrder (tracee env) (dom (procBreakpoints (process c))))"
    and "\<forall>p. instAt (x86Decode (tracee env)) (originalBytes orig f) 0 p \<and> p < length (originalBytes orig f) \<longrightarrow>
      snd (x86Decode (tracee env) (drop p (originalBytes orig f))) = None"
    and "callInstAddrCache c (StartAddr f) = None"
    and "findCallInstAddresses env f c = (Ok addresses, c')"
  shows "a \<in> set addresses \<longleftrightarrow> (\<exists>p. instAt (x86Decode (tracee env)) (originalBytes orig f) 0 p \<and> p < length (originalBytes orig f) \<and>
    isCall (fst (x86Decode (tracee env) (drop p (originalBytes orig f)))) \<and> a = StartAddr f + of_nat p)"
proof -
  from assms(7,8) obtain insts where
      r: "ReadInstructions (fuelOf env) (tracee env) f (process c) = Ok insts"
    and as: "addresses = callAddresses (StartAddr f) 0 insts"
    by (auto simp: findCallInstAddresses_def bindM_Ok seqM_Ok observe_def Let_def)
  have "decodeLoop (fuelOf env) (x86Decode (tracee env)) 0 (originalBytes orig f) = Ok insts"
    unfolding originalBytes_def by (rule ReadInstructions_original [OF assms(1-5) r])
  from callAddresses_at [OF this assms(6), of a "StartAddr f" 0] show ?thesis by (simp add: as)
qed

lemma calledCtl_instructions:
  "\<exists>insts. ReadInstructions 20 (tracee simCtl) simMain (process calledCtl) = Ok insts \<and>
     callAddresses 0xe0 0 insts = [0xe8]"
proof -
  have ten: "[0..<10] = [0, 1, 2, 3, 4, 5, 6, 7, 8, 9]" by (simp add: upt_rec)
  show ?thesis
    by (simp add: ReadInstructions_def simMain_def simCtl_def simEnv_def calledCtl_def simProcess_def
        makeSize_def readMem_def linuxClient_def rawReadMemory_def startedMachine_def simOS_def bytesAt_def ten
        restoreOriginals_def copyAt_def decodeLoop_numeral)
qed

theorem call_instructions_are_those_of_the_original_text_witness:
  "\<exists>c'. findCallInstAddresses simCtl simMain (calledCtl\<lparr>callInstAddrCache := Map.empty\<rparr>) = (Ok [0xe8], c') \<and>
    simMem (kernel (clientState (process calledCtl))) 0xe8 = 0xcc \<and>
    (\<exists>p<10. isCall (fst (x86Decode (tracee simCtl) (drop p (originalBytes (\<lambda>a. ucast a) simMain)))) \<and>
       (0xe8 :: u64) = 0xe0 + of_nat p)"
proof -
  let ?c = "calledCtl\<lparr>callInstAddrCache := Map.empty\<rparr>"
  obtain insts where "ReadInstructions 20 (tracee simCtl) simMain (process calledCtl) = Ok insts"
    "callAddresses 0xe0 0 insts = [0xe8]" using calledCtl_instructions by blast
  then have "\<exists>c'. findCallInstAddresses simCtl simMain ?c = (Ok [0xe8], c')"
    by (simp add: findCallInstAddresses_def observe_def bindM_def seqM_def Let_def simMain_def simCtl_def)
  then obtain c' where run: "findCallInstAddresses simCtl simMain ?c = (Ok [0xe8], c')" by blast
  have t: "traced (\<lambda>c. simMem (kernel c)) UNIV (\<lambda>a. ucast a) (process ?c)"
    by (simp add: traced_def entriesOriginal_def calledCtl_def simProcess_def startedMachine_def)
  have order: "dom (procBreakpoints (process ?c)) \<subseteq> set (bpOrder (tracee simCtl) (dom (procBreakpoints (process ?c))))"
    by (simp add: calledCtl_def simCtl_def)
  have fresh: "callInstAddrCache ?c (StartAddr simMain) = None" by simp
  have decodes: "\<forall>p. instAt (x86Decode (tracee simCtl)) (originalBytes (\<lambda>a. ucast a) simMain) 0 p \<and>
      p < length (originalBytes (\<lambda>a. ucast a) simMain) \<longrightarrow>
      snd (x86Decode (tracee simCtl) (drop p (originalBytes (\<lambda>a. ucast a) simMain))) = None"
    by (simp add: simCtl_def simEnv_def)
  have se: "StartAddr simMain \<le> EndAddr simMain"
    and code: "\<forall>x. StartAddr simMain \<le> x \<and> x < EndAddr simMain \<longrightarrow> x \<in> UNIV" by (simp_all add: simMain_def)
  have client: "tracee_text (debugapiClient (tracee simCtl)) (\<lambda>c. simMem (kernel c)) UNIV"
    using sim.tracee_text_axioms by simp
  have "length (originalBytes (\<lambda>a. ucast a) simMain) = 10" "StartAddr simMain = 0xe0"
    by (simp_all add: originalBytes_def bytesAt_def simMain_def)
  then show ?thesis
    using call_instructions_are_those_of_the_original_text [OF client t se code order decodes fresh run, of "0xe8"] run
    by (auto simp: calledCtl_def startedMachine_def)
qed

text \<open>
  C36: an instruction that cannot be decoded is left out of the instructions, with its length:
  when the first bytes of a function do not decode, every address taken for a call is too low by
  their length, so the breakpoints are set into the middle of other instructions.
\<close>

theorem undecodable_bytes_shift_the_calls:
  assumes "decode buff = (inst, Some e)" and "buff \<noteq> []"
    and "\<forall>p. instAt decode buff (Len inst) p \<and> p < length buff \<longrightarrow> snd (decode (drop p buff)) = None"
    and "decodeLoop fuel decode 0 buff = Ok insts"
  shows "a \<in> set (callAddresses start 0 insts) \<longleftrightarrow>
    (\<exists>p. instAt decode buff (Len inst) p \<and> p < length buff \<and> isCall (fst (decode (drop p buff))) \<and>
       a = start + of_nat p - of_nat (Len inst))"
proof -
  from assms(1,2,4) obtain k where "fuel = Suc k" and more: "decodeLoop k decode (Len inst) buff = Ok insts"
    by (cases fuel) (auto simp: bindO_Ok)
  have "start + of_nat (0 + (p - Len inst)) = (start + of_nat p - of_nat (Len inst) :: u64)"
    if "instAt decode buff (Len inst) p" for p
    using instAt_ge [OF that] by (simp add: of_nat_diff)
  then show ?thesis unfolding callAddresses_at [OF more assms(3)] by (metis (no_types, lifting))
qed

theorem undecodable_bytes_shift_the_calls_witness:
  "\<exists>insts. decodeLoop 9 (\<lambda>bs. (\<lparr>Op = (if hd bs = 0xe8 then CALL else OtherOp), Len = (if hd bs = 6 then 2 else 1)\<rparr>,
        if hd bs = 6 then Some (ErrMsg ''unrecognized instruction'') else None)) 0 [6, 1, 0x90, 0xe8] = Ok insts \<and>
     0x1001 \<in> set (callAddresses 0x1000 0 insts) \<and> 0x1003 \<notin> set (callAddresses 0x1000 0 insts)"
proof -
  define dec :: "u8 list \<Rightarrow> Inst \<times> error option" where
    "dec bs = (\<lparr>Op = (if hd bs = 0xe8 then CALL else OtherOp), Len = (if hd bs = 6 then 2 else 1)\<rparr>,
        if hd bs = 6 then Some (ErrMsg ''unrecognized instruction'') else None)" for bs
  let ?buff = "[6, 1, 0x90, 0xe8] :: u8 list"
  define insts where "insts = [\<lparr>Op = OtherOp, Len = 1\<rparr>, \<lparr>Op = CALL, Len = 1\<rparr>]"
  have run: "decodeLoop 9 dec 0 ?buff = Ok insts"
    by (simp add: decodeLoop_numeral dec_def insts_def)
  have first: "dec ?buff = (\<lparr>Op = OtherOp, Len = 2\<rparr>, Some (ErrMsg ''unrecognized instruction''))"
    by (simp add: dec_def)
  have at: "p = 2 \<or> p = 3 \<or> 4 \<le> p" if "instAt dec ?buff 2 p" for p
    using instAt_ge [OF that] by arith
  have "snd (dec (drop p ?buff)) = None" if "instAt dec ?buff 2 p" "p < 4" for p
    using at [OF that(1)] that(2) by (auto simp: dec_def)
  then have rest: "\<forall>p. instAt dec ?buff (Len \<lparr>Op = OtherOp, Len = 2\<rparr>) p \<and> p < length ?buff \<longrightarrow>
      snd (dec (drop p ?buff)) = None" by simp
  have three: "instAt dec ?buff 2 3"
    using instAt.after [OF instAt.here [of dec ?buff 2]] by (simp add: dec_def)
  note shifted = undecodable_bytes_shift_the_calls [OF first _ rest run, where start = "0x1000"]
  have "0x1001 \<in> set (callAddresses 0x1000 0 insts)"
    using three by (intro iffD2 [OF shifted] exI [of _ 3]) (simp_all add: dec_def isCall_def)
  then show ?thesis
    using run unfolding dec_def [abs_def] by (auto simp: insts_def)
qed

end
