(* ===== verification/ValueLayout.thy ===== *)
theory ValueLayout
  imports Value
begin

text \<open>
  What the bytes of a Go value mean, said without the parser: \<open>stored\<close> relates the bytes of a value of
  a DWARF type, and the memory behind its pointers, to the value with everything it refers to,
  and \<open>abridge\<close> is what a trace shows of that value with a given depth. ValueRead proves that the
  parser of tracee/value.go computes the second from the first.
\<close>

section \<open>How Go lays values out\<close>

fun scalarLayout :: "scalar \<Rightarrow> (dtype \<times> u8 list) option" where
  "scalarLayout (Int8Value w) = Some (IntType 1, [w])"
| "scalarLayout (Int16Value w) = Some (IntType 2, le_bytes 2 (unat w))"
| "scalarLayout (Int32Value w) = Some (IntType 4, le_bytes 4 (unat w))"
| "scalarLayout (Int64Value w) = Some (IntType 8, PutUint64 w)"
| "scalarLayout (Uint8Value w) = Some (UintType 1, [w])"
| "scalarLayout (Uint16Value w) = Some (UintType 2, le_bytes 2 (unat w))"
| "scalarLayout (Uint32Value w) = Some (UintType 4, le_bytes 4 (unat w))"
| "scalarLayout (Uint64Value w) = Some (UintType 8, PutUint64 w)"
| "scalarLayout (Float32Value w) = Some (FloatType 4, le_bytes 4 (unat w))"
| "scalarLayout (Float64Value w) = Some (FloatType 8, PutUint64 w)"
| "scalarLayout (Complex64Value re im) = Some (ComplexType 8, le_bytes 4 (unat re) @ le_bytes 4 (unat im))"
| "scalarLayout (Complex128Value re im) = Some (ComplexType 16, PutUint64 re @ PutUint64 im)"
| "scalarLayout (BoolValue b) = Some (BoolType 1, [of_bool b])"
| "scalarLayout (FuncValue a) = Some (FuncType 8, PutUint64 a)"
| "scalarLayout (StringValue s) = None"
| "scalarLayout (VoidValue bs) = None"

text \<open>The names by which the program knows the structs that stand for other kinds of values.\<close>

definition plainStruct :: "string \<Rightarrow> bool" where
  "plainStruct name \<longleftrightarrow> name \<noteq> ''string'' \<and> \<not> HasPrefix name ''[]'' \<and> name \<noteq> ''runtime.iface''
     \<and> name \<noteq> ''runtime.eface''"

text \<open>The bytes of a part at an offset.\<close>

definition window :: "nat \<Rightarrow> dtype \<Rightarrow> u8 list \<Rightarrow> u8 list" where
  "window off t bs = take (nat (typeSize t)) (drop off bs)"

text \<open>
  A bucket of a map has arrays of top hashes, keys and values. In the layout of Go 1.10 and 1.11, 0
  marks a free slot and a top hash from \<open>minTopHash\<close> on an occupied one; the marks between them occur
  only in the old buckets of a map that is growing. Go 1.12 and later use 5 as the first top hash
  and 1 as the mark of a slot that was deleted: their maps are of this layout as long as no
  bucket has a deleted slot. (Of a bucket with one, the parser shows the deleted slot as an entry.)
  The keys of a map can be kept apart when Go can hash them and no two are equal.
\<close>

definition minTopHash :: u8 where "minTopHash = 4"

definition occupied :: "u8 list \<Rightarrow> val list \<Rightarrow> val list \<Rightarrow> (val \<times> val) list" where
  "occupied hs ks vs = map snd (filter (\<lambda>slot. minTopHash \<le> fst slot) (zip hs (zip ks vs)))"

definition markedSlots :: "u8 list \<Rightarrow> bool" where
  "markedSlots hs \<longleftrightarrow> list_all (\<lambda>h. h = 0 \<or> minTopHash \<le> h) hs"

definition slots :: "(string \<times> val) list \<Rightarrow> (val \<times> val) list \<Rightarrow> bool" where
  "slots us kvs \<longleftrightarrow> (\<exists>tt ht hs kt ks vt vs.
     map_of us ''tophash'' = Some (ArrayValue tt (map (\<lambda>h. Scalar ht (Uint8Value h)) hs))
     \<and> map_of us ''keys'' = Some (ArrayValue kt ks) \<and> map_of us ''values'' = Some (ArrayValue vt vs)
     \<and> length hs \<le> length ks \<and> length hs \<le> length vs \<and> markedSlots hs \<and> kvs = occupied hs ks vs)"

definition keysApart :: "(val \<times> val) list \<Rightarrow> bool" where
  "keysApart kvs \<longleftrightarrow> list_all (\<lambda>kv. hashable (fst kv)) kvs
     \<and> sorted_wrt (\<lambda>kv kv'. \<not> keyEq (fst kv) (fst kv')) kvs"

text \<open>The headers of slices and interfaces, and what an interface's data word refers to.\<close>

abbreviation sliceType :: "string \<Rightarrow> typeRef \<Rightarrow> dtype" where
  "sliceType name target \<equiv> StructType name 24
     [(''array'', 0, PtrType 8 target), (''len'', 8, IntType 8), (''cap'', 16, IntType 8)]"

abbreviation efaceType :: "typeRef \<Rightarrow> dtype" where
  "efaceType target \<equiv> StructType ''runtime.eface'' 16
     [(''_type'', 0, PtrType 8 target), (''data'', 8, PtrType 8 VoidRef)]"

abbreviation ifaceType :: "typeRef \<Rightarrow> dtype" where
  "ifaceType target \<equiv> StructType ''runtime.iface'' 16
     [(''tab'', 0, PtrType 8 target), (''data'', 8, PtrType 8 VoidRef)]"

definition boxed :: "valueParser \<Rightarrow> dtype \<Rightarrow> u64 \<Rightarrow> u8 list \<Rightarrow> bool" where
  "boxed b impl data buff \<longleftrightarrow> (if \<exists>m r. impl = PtrType m r then buff = PutUint64 data
     else 0 \<le> typeSize impl \<and> reader b data (nat (typeSize impl)) = Ok buff)"

text \<open>
  \<open>stored\<close>: a number is its little-endian bytes; a string, a slice, an interface and a map are headers
  that point to their contents; a pointer refers to the value behind it, to nothing when it is nil
  or cannot be followed; the parts of structs and arrays lie at their offsets. \<open>chained\<close>: the entries
  of a bucket and its overflow buckets. \<open>tabled\<close>: the entries of so many consecutive buckets. A map has
  its value here while it is not growing, that is, when it has no old buckets: while entries
  are moved from them the buckets do not hold the whole map.
\<close>

inductive stored :: "valueParser \<Rightarrow> dtype \<Rightarrow> u8 list \<Rightarrow> val \<Rightarrow> bool"
  and chained :: "valueParser \<Rightarrow> dtype \<Rightarrow> u64 \<Rightarrow> val option \<Rightarrow> (val \<times> val) list \<Rightarrow> bool"
  and tabled :: "valueParser \<Rightarrow> nat \<Rightarrow> dtype \<Rightarrow> u64 \<Rightarrow> val option \<Rightarrow> (val \<times> val) list \<Rightarrow> bool"
  for b :: valueParser
where
  st_scalar: "scalarLayout s = Some (t, bs) \<Longrightarrow> stored b t bs (Scalar t s)"
| st_other: "stored b (OtherType n) bs (Scalar (OtherType n) (VoidValue bs))"
| st_string:
    "reader b a (length buff) = Ok buff \<Longrightarrow> length buff \<le> 2 ^ 48 \<Longrightarrow> t = StructType ''string'' 16 fs
     \<Longrightarrow> stored b t (PutUint64 a @ PutUint64 (of_nat (length buff))) (Scalar t (StringValue (bytesToString buff)))"
| st_nil: "t = PtrType 8 target \<Longrightarrow> stored b t (PutUint64 0) (PtrValue t 0 None)"
| st_unsafe: "a \<noteq> 0 \<Longrightarrow> t = PtrType 8 VoidRef \<Longrightarrow> stored b t (PutUint64 a) (PtrValue t a None)"
| st_dangling:
    "a \<noteq> 0 \<Longrightarrow> t = PtrType 8 (Ref n) \<Longrightarrow> 0 \<le> typeSize (vpTypeAt b n)
     \<Longrightarrow> reader b a (nat (typeSize (vpTypeAt b n))) = Fail e \<Longrightarrow> stored b t (PutUint64 a) (PtrValue t a None)"
| st_pointer:
    "a \<noteq> 0 \<Longrightarrow> t = PtrType 8 (Ref n) \<Longrightarrow> 0 \<le> typeSize (vpTypeAt b n)
     \<Longrightarrow> reader b a (nat (typeSize (vpTypeAt b n))) = Ok buff \<Longrightarrow> stored b (vpTypeAt b n) buff v
     \<Longrightarrow> stored b t (PutUint64 a) (PtrValue t a (Some v))"
| st_array:
    "t = ArrayType (int cnt) elem \<Longrightarrow> 0 \<le> typeSize elem \<Longrightarrow> int cnt * typeSize elem \<le> int (length bs)
     \<Longrightarrow> list_all2 (\<lambda>i v. stored b elem (window (i * nat (typeSize elem)) elem bs) v) [0..<cnt] vs
     \<Longrightarrow> stored b t bs (ArrayValue t vs)"
| st_struct:
    "t = StructType name n fs \<Longrightarrow> plainStruct name \<Longrightarrow> distinct (map fieldName fs)
     \<Longrightarrow> list_all2 (\<lambda>f u. fst u = fieldName f \<and> 0 \<le> typeSize (fieldType f) \<and> fieldEnd f \<le> int (length bs)
           \<and> stored b (fieldType f) (window (byteOffset f) (fieldType f) bs) (snd u)) fs us
     \<Longrightarrow> stored b t bs (StructValue t us False)"
| st_named: "\<not> HasPrefix name ''map['' \<Longrightarrow> stored b t bs v \<Longrightarrow> stored b (TypedefType name t) bs v"
| st_empty_slice:
    "t = sliceType name target
     \<Longrightarrow> HasPrefix name ''[]'' \<Longrightarrow> stored b (PtrType 8 target) (PutUint64 a) p
     \<Longrightarrow> stored b t (PutUint64 a @ PutUint64 0 @ PutUint64 cap) (SliceValue t [])"
| st_slice:
    "t = sliceType name (Ref n)
     \<Longrightarrow> HasPrefix name ''[]'' \<Longrightarrow> vs \<noteq> [] \<Longrightarrow> length vs < 2 ^ 63
     \<Longrightarrow> list_all2 (\<lambda>i v. stored b (PtrType 8 (Ref n)) (PutUint64 (a + of_nat i * of_int (typeSize (vpTypeAt b n))))
           (PtrValue (PtrType 8 (Ref n)) (a + of_nat i * of_int (typeSize (vpTypeAt b n))) (Some v))) [0..<length vs] vs
     \<Longrightarrow> stored b t (PutUint64 a @ PutUint64 (of_nat (length vs)) @ PutUint64 cap) (SliceValue t (map Some vs))"
| st_nil_eface:
    "t = efaceType target
     \<Longrightarrow> stored b (PtrType 8 target) (PutUint64 ty) p
     \<Longrightarrow> stored b t (PutUint64 ty @ PutUint64 0) (InterfaceValue t None False)"
| st_eface:
    "t = efaceType target
     \<Longrightarrow> stored b (PtrType 8 target) (PutUint64 ty) (PtrValue pt ty p)
     \<Longrightarrow> mapRuntimeType b = Some f \<Longrightarrow> f ty = Ok impl \<Longrightarrow> data \<noteq> 0
     \<Longrightarrow> boxed b impl data buff
     \<Longrightarrow> stored b impl buff v
     \<Longrightarrow> stored b t (PutUint64 ty @ PutUint64 data) (InterfaceValue t (Some (impl, v)) False)"
| st_nil_iface:
    "t = ifaceType target
     \<Longrightarrow> stored b (PtrType 8 target) (PutUint64 tab) (PtrValue pt tab None)
     \<Longrightarrow> stored b t (PutUint64 tab @ PutUint64 data) (InterfaceValue t None False)"
| st_iface:
    "t = ifaceType target
     \<Longrightarrow> stored b (PtrType 8 target) (PutUint64 tab) (PtrValue pt tab (Some (StructValue it us False)))
     \<Longrightarrow> map_of us ''_type'' = Some (PtrValue qt ty q)
     \<Longrightarrow> mapRuntimeType b = Some f \<Longrightarrow> f ty = Ok impl
     \<Longrightarrow> boxed b impl data buff
     \<Longrightarrow> stored b impl buff v
     \<Longrightarrow> stored b t (PutUint64 tab @ PutUint64 data) (InterfaceValue t (Some (impl, v)) False)"
| st_nil_map:
    "HasPrefix name ''map['' \<Longrightarrow> stored b inner bs (PtrValue pt a None)
     \<Longrightarrow> stored b (TypedefType name inner) bs (MapValue (TypedefType name inner) [])"
| st_map:
    "HasPrefix name ''map['' \<Longrightarrow> stored b inner bs (PtrValue pt a (Some (StructValue ht us False)))
     \<Longrightarrow> map_of us ''B'' = Some (Scalar t1 (Uint8Value B)) \<Longrightarrow> unat B < 63
     \<Longrightarrow> map_of us ''buckets'' = Some (PtrValue bt ba bucket)
     \<Longrightarrow> map_of us ''oldbuckets'' = Some (PtrValue ot 0 None)
     \<Longrightarrow> tabled b (2 ^ unat B) bt ba bucket kvs
     \<Longrightarrow> keysApart kvs
     \<Longrightarrow> stored b (TypedefType name inner) bs (MapValue (TypedefType name inner) kvs)"
| ch_none: "chained b bt 0 bucket []"
| ch_last:
    "addr \<noteq> 0 \<Longrightarrow> slots us kvs \<Longrightarrow> map_of us ''overflow'' = Some (PtrValue ot 0 p)
     \<Longrightarrow> chained b bt addr (Some (StructValue st us False)) kvs"
| ch_more:
    "addr \<noteq> 0 \<Longrightarrow> slots us kvs \<Longrightarrow> map_of us ''overflow'' = Some (PtrValue ot oa p) \<Longrightarrow> oa \<noteq> 0
     \<Longrightarrow> stored b bt (PutUint64 oa) (PtrValue bt' oa nextBucket) \<Longrightarrow> chained b bt' oa nextBucket rest
     \<Longrightarrow> chained b bt addr (Some (StructValue st us False)) (kvs @ rest)"
| tb_last: "chained b bt addr bucket kvs \<Longrightarrow> tabled b 1 bt addr bucket kvs"
| tb_more:
    "chained b bt addr (Some (StructValue st us False)) kvs
     \<Longrightarrow> stored b bt (PutUint64 (addr + of_int (typeSize st))) (PtrValue bt' (addr + of_int (typeSize st)) nextBucket)
     \<Longrightarrow> tabled b n bt' (addr + of_int (typeSize st)) nextBucket rest \<Longrightarrow> 0 < n
     \<Longrightarrow> tabled b (Suc n) bt addr (Some (StructValue st us False)) (kvs @ rest)"

section \<open>How much of a value is shown\<close>

text \<open>
  A depth of \<open>n\<close> shows \<open>n\<close> levels of structs, none for 0, and leaves out the structs below them, as the
  tests of the parser expect (tracee/value_test.go: with depth 1 the fields of a struct are
  shown, those of a struct in it are not). Only structs count, so that pointers, arrays, slices,
  interfaces and maps show their parts with the depth they have themselves.
\<close>

fun abridge :: "int \<Rightarrow> val \<Rightarrow> val" where
  "abridge d (Scalar t s) = Scalar t s"
| "abridge d (PtrValue t a p) = PtrValue t a (map_option (abridge d) p)"
| "abridge d (SliceValue t vs) = SliceValue t (map (map_option (abridge d)) vs)"
| "abridge d (StructValue t fs abbr) =
     (if d \<le> 0 then StructValue t [] True
      else StructValue t (map (\<lambda>(name, v). (name, abridge (d - 1) v)) fs) abbr)"
| "abridge d (InterfaceValue t impl abbr) = InterfaceValue t (map_option (\<lambda>(i, v). (i, abridge d v)) impl) abbr"
| "abridge d (ArrayValue t vs) = ArrayValue t (map (abridge d) vs)"
| "abridge d (MapValue t kvs) = MapValue t (map (\<lambda>(k, v). (abridge d k, abridge d v)) kvs)"

end
