(* ===== verification/ValueRead.thy ===== *)
theory ValueRead
  imports ValueLayout
begin

text \<open>
  The parser of tracee/value.go reads every value laid out in memory as \<open>stored\<close> says, abridged to
  the depth. For each kind of value there is a lemma that the parser reads it when it reads the
  parts, for all sufficient fuel (\<open>reads\<close>, the filter \<open>sequentially\<close>); the rule induction puts them together.
\<close>

section \<open>Scalars, pointers, arrays and structs\<close>

abbreviation reads :: "valueParser \<Rightarrow> dtype \<Rightarrow> u8 list \<Rightarrow> int \<Rightarrow> val \<Rightarrow> bool" where
  "reads b t bs d v \<equiv> \<forall>\<^sub>F f in sequentially. parseValue f b t bs d = Ok v"

lemma reads_step:
  "(\<forall>\<^sub>F f in sequentially. parseStep f b (parseValue f b) t bs d = Ok v) \<Longrightarrow> reads b t bs d v"
  by (subst eventually_sequentially_Suc [symmetric]) simp

lemma typeSize_valueType_abridge [simp]: "valueType (abridge d v) = valueType v"
  by (cases v) simp_all

lemma abridge_hashable: "hashable v \<Longrightarrow> abridge d v = v"
  by (induction v rule: hashable.induct) auto

lemma stored_size:
  "(stored b t bs v \<longrightarrow> typeSize (valueType v) = typeSize t)
   \<and> (chained b bt a1 bk1 kvs1 \<longrightarrow> True) \<and> (tabled b n bt2 a2 bk2 kvs2 \<longrightarrow> True)"
  by (induction rule: stored_chained_tabled.induct) simp_all

lemma reads_scalar:
  assumes "scalarLayout s = Some (t, bs)"
  shows "parseStep f b pv t bs d = Ok (Scalar t s)"
  using assms
  by (cases s) (auto simp: parseStep_def firstByte_def Uint16_le_bytes Uint32_le_bytes subslice_def Let_def)

lemma readOr_simps [simp]:
  "reader b a n = Ok buff \<Longrightarrow> readOr b a n otherwise k = k buff"
  "reader b a n = Fail e \<Longrightarrow> readOr b a n otherwise k = Ok otherwise"
  by (simp_all add: readOr_def)

lemma makeSize_of_nat: "n \<le> 2 ^ 48 \<Longrightarrow> makeSize (sint (of_nat n :: u64)) = Ok n"
  by (simp add: makeSize_def sint_of_nat64)

lemma reads_string:
  assumes "reader b a (length buff) = Ok buff" and "length buff \<le> 2 ^ 48" and "t = StructType ''string'' 16 fs"
  shows "parseStep f b pv t (PutUint64 a @ PutUint64 (of_nat (length buff))) d
     = Ok (Scalar t (StringValue (bytesToString buff)))"
  using assms by (simp add: parseStep_def parseStringValue_def subslice_def makeSize_of_nat Let_def)

lemma parseStep_ptr: "parseStep f b pv (PtrType n r) bs d = parsePtr b pv (PtrType n r) r bs d"
  by (simp add: parseStep_def)

lemma reads_pointer:
  assumes "a \<noteq> 0" and "t = PtrType 8 (Ref n)" and "0 \<le> typeSize (vpTypeAt b n)"
    and "reader b a (nat (typeSize (vpTypeAt b n))) = Ok buff" and "reads b (vpTypeAt b n) buff d v"
  shows "reads b t (PutUint64 a) d (PtrValue t a (Some v))"
  using assms(5)
  by (intro reads_step, elim eventually_mono)
     (use assms(1-4) in \<open>simp add: parseStep_ptr parsePtr_def bufferSize_nonneg\<close>)

lemma parseElems_reads:
  assumes "0 \<le> typeSize elem" and "int cnt * typeSize elem \<le> int (length bs)"
    and "list_all2 (\<lambda>i v. reads b elem (window (i * nat (typeSize elem)) elem bs) d v) is vs"
    and "\<forall>i\<in>set is. i < cnt"
  shows "\<forall>\<^sub>F f in sequentially. parseElems (parseValue f b) elem bs d is = Ok vs"
  using assms(3,4)
proof (induction "is" vs rule: list_all2_induct)
  case Nil
  then show ?case by simp
next
  case (Cons i "is" v vs)
  have "(int i + 1) * typeSize elem \<le> int cnt * typeSize elem"
    using Cons.prems assms(1) by (intro mult_right_mono) auto
  then have "subslice bs (int i * typeSize elem) ((int i + 1) * typeSize elem)
      = Ok (window (i * nat (typeSize elem)) elem bs)"
    using assms(1,2) by (auto simp: subslice_def window_def algebra_simps nat_mult_distrib)
  moreover have "\<forall>\<^sub>F f in sequentially. parseElems (parseValue f b) elem bs d is = Ok vs"
    using Cons by simp
  ultimately show ?case
    using Cons.hyps(1) by (auto elim: eventually_elim2)
qed

lemma parseFields_reads:
  assumes "list_all2 (\<lambda>f u. fst u = fieldName f \<and> sliceField bs f = Ok (window (byteOffset f) (fieldType f) bs)
      \<and> reads b (fieldType f) (window (byteOffset f) (fieldType f) bs) d (snd u)) fs us"
    and "distinct (map fieldName fs)" and "set (map fst acc) \<inter> set (map fieldName fs) = {}"
  shows "\<forall>\<^sub>F f in sequentially. parseFields (parseValue f b) fs bs d acc = Ok (acc @ us)"
  using assms
proof (induction fs us arbitrary: acc rule: list_all2_induct)
  case Nil
  then show ?case by simp
next
  case (Cons f fs u us)
  have acc: "filter (\<lambda>g. fst g \<noteq> fieldName f) acc = acc"
    using Cons.prems by (intro filter_True) force
  obtain v where u: "u = (fieldName f, v)" using Cons.hyps(1) by (cases u) auto
  have raw: "sliceField bs f = Ok (window (byteOffset f) (fieldType f) bs)"
    and first: "reads b (fieldType f) (window (byteOffset f) (fieldType f) bs) d v"
    using Cons.hyps(1) by (simp_all add: u)
  have "\<forall>\<^sub>F n in sequentially. parseFields (parseValue n b) fs bs d (acc @ [u]) = Ok ((acc @ [u]) @ us)"
    using Cons.prems Cons.hyps(1) by (intro Cons.IH) auto
  with first show ?case
    by eventually_elim (simp add: raw acc u del: parseValue.simps)
qed

lemma reads_struct_value:
  assumes "distinct (map fieldName fs)" and "fieldsOf t = fs"
    and "list_all2 (\<lambda>f u. fst u = fieldName f \<and> 0 \<le> typeSize (fieldType f) \<and> fieldEnd f \<le> int (length bs)
           \<and> (\<forall>d\<ge>0. reads b (fieldType f) (window (byteOffset f) (fieldType f) bs) d (abridge d (snd u)))) fs us"
  shows "\<forall>\<^sub>F f in sequentially. parseStructValue (parseValue f b) t bs d = Ok (abridge d (StructValue t us False))"
proof (cases "d \<le> 0")
  case True
  then show ?thesis by (simp add: parseStructValue_def)
next
  case False
  let ?us = "map (\<lambda>(name, v). (name, abridge (d - 1) v)) us"
  have "list_all2 (\<lambda>f u. fst u = fieldName f \<and> sliceField bs f = Ok (window (byteOffset f) (fieldType f) bs)
      \<and> reads b (fieldType f) (window (byteOffset f) (fieldType f) bs) (d - 1) (snd u)) fs ?us"
    using assms(3) False
    by (auto simp: list_all2_conv_all_nth case_prod_unfold sliceField_def window_def)
  then have "\<forall>\<^sub>F f in sequentially. parseFields (parseValue f b) fs bs (d - 1) [] = Ok ?us"
    using parseFields_reads [of bs b "d - 1" fs ?us "[]"] assms(1) by simp
  then show ?thesis
    by (elim eventually_mono) (use False assms(2) in \<open>simp add: parseStructValue_def\<close>)
qed

lemma plainStruct_step:
  "plainStruct name \<Longrightarrow> parseStep f b pv (StructType name n fs) bs d = parseStructValue pv (StructType name n fs) bs d"
  by (auto simp: plainStruct_def parseStep_def)

lemma reads_struct:
  assumes "plainStruct name" and "distinct (map fieldName fs)"
    and "list_all2 (\<lambda>f u. fst u = fieldName f \<and> 0 \<le> typeSize (fieldType f) \<and> fieldEnd f \<le> int (length bs)
           \<and> (\<forall>d\<ge>0. reads b (fieldType f) (window (byteOffset f) (fieldType f) bs) d (abridge d (snd u)))) fs us"
  shows "reads b (StructType name n fs) bs d (abridge d (StructValue (StructType name n fs) us False))"
  using reads_struct_value [OF assms(2) _ assms(3), of "StructType name n fs" d] assms(1)
  by (intro reads_step) (simp add: plainStruct_step del: abridge.simps)

lemma reads_array:
  assumes "0 \<le> typeSize elem" and "int cnt * typeSize elem \<le> int (length bs)"
    and "list_all2 (\<lambda>i v. reads b elem (window (i * nat (typeSize elem)) elem bs) d v) [0..<cnt] vs"
  shows "reads b (ArrayType (int cnt) elem) bs d (ArrayValue (ArrayType (int cnt) elem) vs)"
proof (rule reads_step)
  have "\<forall>\<^sub>F f in sequentially. parseElems (parseValue f b) elem bs d [0..<cnt] = Ok vs"
    using assms by (intro parseElems_reads) auto
  then show "\<forall>\<^sub>F f in sequentially. parseStep f b (parseValue f b) (ArrayType (int cnt) elem) bs d
      = Ok (ArrayValue (ArrayType (int cnt) elem) vs)"
    by eventually_elim (simp add: parseStep_def del: parseValue.simps)
qed

lemma reads_named:
  assumes "\<not> HasPrefix name ''map[''" and "reads b t bs d v"
  shows "reads b (TypedefType name t) bs d v"
proof (rule reads_step)
  show "\<forall>\<^sub>F f in sequentially. parseStep f b (parseValue f b) (TypedefType name t) bs d = Ok v"
    using assms(2) by eventually_elim (simp add: parseStep_def assms(1) del: parseValue.simps)
qed

lemmas reads_now = reads_step [OF always_eventually, OF allI]

section \<open>Slices and interfaces\<close>

lemma window_parts [simp]:
  "length x = 8 \<Longrightarrow> typeSize t = 8 \<Longrightarrow> window 0 t (x @ y) = x"
  "length x = 8 \<Longrightarrow> length y = 8 \<Longrightarrow> typeSize t = 8 \<Longrightarrow> window 8 t (x @ y) = y"
  "length x = 8 \<Longrightarrow> length y = 8 \<Longrightarrow> typeSize t = 8 \<Longrightarrow> window 8 t (x @ y @ z) = y"
  "length x = 8 \<Longrightarrow> length y = 8 \<Longrightarrow> length z = 8 \<Longrightarrow> typeSize t = 8 \<Longrightarrow> window 16 t (x @ y @ z) = z"
  by (simp_all add: window_def)

lemma reads_int64: "reads b (IntType 8) (PutUint64 w) d (Scalar (IntType 8) (Int64Value w))"
  by (intro reads_step always_eventually allI reads_scalar) simp

lemma reads_unsafe:
  "reads b (PtrType 8 VoidRef) (PutUint64 a) d (PtrValue (PtrType 8 VoidRef) a None)"
  by (intro reads_step always_eventually allI) (simp add: parseStep_ptr parsePtr_def)

lemma reads_slice_header:
  assumes "reads b (PtrType 8 target) (PutUint64 a) d p" and "0 \<le> d"
  shows "\<forall>\<^sub>F f in sequentially. parseStructValue (parseValue f b) (sliceType name target)
      (PutUint64 a @ PutUint64 len @ PutUint64 cap) (d + 1)
    = Ok (StructValue (sliceType name target) [(''array'', p), (''len'', Scalar (IntType 8) (Int64Value len)),
        (''cap'', Scalar (IntType 8) (Int64Value cap))] False)"
proof -
  have "\<forall>\<^sub>F f in sequentially. parseFields (parseValue f b) (fieldsOf (sliceType name target))
      (PutUint64 a @ PutUint64 len @ PutUint64 cap) d []
    = Ok ([] @ [(''array'', p), (''len'', Scalar (IntType 8) (Int64Value len)), (''cap'', Scalar (IntType 8) (Int64Value cap))])"
    using assms(1) reads_int64 by (intro parseFields_reads) (simp_all add: sliceField_def fieldEnd_def window_def)
  then show ?thesis
    by (elim eventually_mono) (use assms(2) in \<open>simp add: parseStructValue_def\<close>)
qed

lemma sliceElems_reads:
  assumes "list_all2 (\<lambda>i v. reads b pt (PutUint64 (a + of_int (valueSize first) * of_nat i)) d
      (PtrValue pt (a + of_int (valueSize first) * of_nat i) (Some v))) is vs"
  shows "\<forall>\<^sub>F f in sequentially. sliceElems (parseValue f b) pt a (Some first) d is = Ok (map Some vs)"
  using assms
proof (induction "is" vs rule: list_all2_induct)
  case Nil
  then show ?case by simp
next
  case (Cons i "is" v vs)
  show ?case
    using Cons.hyps(1) Cons.IH by eventually_elim (simp add: pointedBy_def del: parseValue.simps)
qed

lemma parseStep_slice:
  "HasPrefix name ''[]'' \<Longrightarrow> parseStep f b pv (sliceType name r) bs d = parseSliceValue pv (sliceType name r) bs d"
  by (auto simp: parseStep_def HasPrefix_def)

lemma reads_empty_slice:
  assumes "HasPrefix name ''[]''" and "reads b (PtrType 8 target) (PutUint64 a) d p" and "0 \<le> d"
  shows "reads b (sliceType name target) (PutUint64 a @ PutUint64 0 @ PutUint64 cap) d (SliceValue (sliceType name target) [])"
proof (rule reads_step)
  show "\<forall>\<^sub>F f in sequentially. parseStep f b (parseValue f b) (sliceType name target)
      (PutUint64 a @ PutUint64 0 @ PutUint64 cap) d = Ok (SliceValue (sliceType name target) [])"
    using reads_slice_header [OF assms(2,3), of name 0 cap]
    by eventually_elim (simp add: parseStep_slice assms(1) parseSliceValue_def fieldOf_def del: parseValue.simps)
qed

lemma reads_slice:
  assumes name: "HasPrefix name ''[]''" and len: "vs \<noteq> []" "length vs < 2 ^ 63" and d: "0 \<le> d"
    and elems: "list_all2 (\<lambda>i v. reads b (PtrType 8 target) (PutUint64 (a + of_nat i * of_int sz)) d
        (PtrValue (PtrType 8 target) (a + of_nat i * of_int sz) (Some v)) \<and> valueSize v = sz) [0..<length vs] vs"
  shows "reads b (sliceType name target) (PutUint64 a @ PutUint64 (of_nat (length vs)) @ PutUint64 cap) d
     (SliceValue (sliceType name target) (map Some vs))"
proof -
  obtain v ws where vs: "vs = v # ws" using len(1) by (cases vs) auto
  have upt: "[0..<length vs] = 0 # [1..<length vs]" by (simp add: vs upt_conv_Cons del: upt_Suc)
  have first: "reads b (PtrType 8 target) (PutUint64 a) d (PtrValue (PtrType 8 target) a (Some v))" and "valueSize v = sz"
    using elems unfolding upt unfolding vs by (simp_all del: upt_Suc parseValue.simps)
  have rest: "\<forall>\<^sub>F f in sequentially. sliceElems (parseValue f b) (PtrType 8 target) a (Some v) d [1..<length vs] = Ok (map Some ws)"
    using elems unfolding upt unfolding vs
    by (intro sliceElems_reads)
       (auto simp: mult.commute \<open>valueSize v = sz\<close> elim!: list_all2_mono simp del: upt_Suc parseValue.simps)
  have n: "sint (of_nat (length vs) :: u64) = int (length vs)"
    using len(2) by (rule sint_of_nat64)
  show ?thesis
  proof (rule reads_step)
    show "\<forall>\<^sub>F f in sequentially. parseStep f b (parseValue f b) (sliceType name target)
        (PutUint64 a @ PutUint64 (of_nat (length vs)) @ PutUint64 cap) d
      = Ok (SliceValue (sliceType name target) (map Some vs))"
      using reads_slice_header [OF first d, of name "of_nat (length vs)" cap] rest
      by eventually_elim
         (use len(1) in \<open>simp add: parseStep_slice name parseSliceValue_def fieldOf_def n del: parseValue.simps upt_Suc\<close>,
          simp add: vs)
  qed
qed

lemma reads_pair_header:
  assumes "reads b (PtrType 8 target) (PutUint64 x) d p" and "0 \<le> d" and "first \<noteq> ''data''"
    and "t = StructType name 16 [(first, 0, PtrType 8 target), (''data'', 8, PtrType 8 VoidRef)]"
  shows "\<forall>\<^sub>F f in sequentially. parseStructValue (parseValue f b) t (PutUint64 x @ PutUint64 y) (d + 1)
    = Ok (StructValue t [(first, p), (''data'', PtrValue (PtrType 8 VoidRef) y None)] False)"
proof -
  have "\<forall>\<^sub>F f in sequentially. parseFields (parseValue f b) (fieldsOf t) (PutUint64 x @ PutUint64 y) d []
    = Ok ([] @ [(first, p), (''data'', PtrValue (PtrType 8 VoidRef) y None)])"
    using assms(1,3) reads_unsafe unfolding assms(4)
    by (intro parseFields_reads) (simp_all add: sliceField_def fieldEnd_def window_def)
  then show ?thesis
    by eventually_elim (use assms(2) in \<open>simp add: parseStructValue_def assms(4)\<close>)
qed

lemma parseImpl_run:
  assumes "f ty = Ok impl" and "fieldOf ''data'' sv = Ok (PtrValue u data p)" and "boxed b impl data buff"
    and "pv impl buff d = Ok v"
  shows "parseImpl b pv f typ ty sv d = Ok (InterfaceValue typ (Some (impl, v)) False)"
  using assms by (cases impl) (simp_all add: parseImpl_def boxed_def bufferSize_nonneg del: typeSize.simps)

lemma parseStep_interface:
  "parseStep f b pv (efaceType target) bs d = parseEmptyInterfaceValue b pv (efaceType target) bs d"
  "parseStep f b pv (ifaceType target) bs d = parseInterfaceValue b pv (ifaceType target) bs d"
  by (simp_all add: parseStep_def HasPrefix_def)

lemma reads_nil_eface:
  assumes "reads b (PtrType 8 target) (PutUint64 ty) 0 p"
  shows "reads b (efaceType target) (PutUint64 ty @ PutUint64 0) d (InterfaceValue (efaceType target) None False)"
proof (rule reads_step)
  have "\<forall>\<^sub>F f in sequentially. parseStructValue (parseValue f b) (efaceType target) (PutUint64 ty @ PutUint64 0) (0 + 1)
    = Ok (StructValue (efaceType target) [(''_type'', p), (''data'', PtrValue (PtrType 8 VoidRef) 0 None)] False)"
    using assms by (intro reads_pair_header) simp_all
  then show "\<forall>\<^sub>F f in sequentially. parseStep f b (parseValue f b) (efaceType target) (PutUint64 ty @ PutUint64 0) d
      = Ok (InterfaceValue (efaceType target) None False)"
    by eventually_elim (simp add: parseStep_interface parseEmptyInterfaceValue_def fieldOf_def del: parseValue.simps)
qed

lemma reads_eface:
  assumes "reads b (PtrType 8 target) (PutUint64 ty) 0 (PtrValue pt ty p)"
    and "mapRuntimeType b = Some f" "f ty = Ok impl" "data \<noteq> 0" "boxed b impl data buff" and "reads b impl buff d v"
  shows "reads b (efaceType target) (PutUint64 ty @ PutUint64 data) d (InterfaceValue (efaceType target) (Some (impl, v)) False)"
proof (rule reads_step)
  have "\<forall>\<^sub>F f in sequentially. parseStructValue (parseValue f b) (efaceType target) (PutUint64 ty @ PutUint64 data) (0 + 1)
    = Ok (StructValue (efaceType target) [(''_type'', PtrValue pt ty p), (''data'', PtrValue (PtrType 8 VoidRef) data None)] False)"
    using assms(1) by (intro reads_pair_header) simp_all
  with assms(6) show "\<forall>\<^sub>F f in sequentially. parseStep f b (parseValue f b) (efaceType target) (PutUint64 ty @ PutUint64 data) d
      = Ok (InterfaceValue (efaceType target) (Some (impl, v)) False)"
  proof eventually_elim
    case (elim n)
    then show ?case
      using assms(2-5)
      by (simp add: parseImpl_run [where impl = impl and buff = buff and v = v and data = data] parseStep_interface parseEmptyInterfaceValue_def fieldOf_def del: parseValue.simps)
  qed
qed

lemma reads_nil_iface:
  assumes "reads b (PtrType 8 target) (PutUint64 tab) 1 (PtrValue pt tab None)"
  shows "reads b (ifaceType target) (PutUint64 tab @ PutUint64 data) d (InterfaceValue (ifaceType target) None False)"
proof (rule reads_step)
  have "\<forall>\<^sub>F f in sequentially. parseStructValue (parseValue f b) (ifaceType target) (PutUint64 tab @ PutUint64 data) (1 + 1)
    = Ok (StructValue (ifaceType target) [(''tab'', PtrValue pt tab None), (''data'', PtrValue (PtrType 8 VoidRef) data None)] False)"
    using assms by (intro reads_pair_header) simp_all
  then show "\<forall>\<^sub>F f in sequentially. parseStep f b (parseValue f b) (ifaceType target) (PutUint64 tab @ PutUint64 data) d
      = Ok (InterfaceValue (ifaceType target) None False)"
    by eventually_elim (simp add: parseStep_interface parseInterfaceValue_def fieldOf_def del: parseValue.simps)
qed

lemma reads_iface:
  assumes "reads b (PtrType 8 target) (PutUint64 tab) 1 (PtrValue pt tab (Some (StructValue it us False)))"
    and "map_of us ''_type'' = Some (PtrValue qt ty q)"
    and "mapRuntimeType b = Some f" "f ty = Ok impl" "boxed b impl data buff" and "reads b impl buff d v"
  shows "reads b (ifaceType target) (PutUint64 tab @ PutUint64 data) d (InterfaceValue (ifaceType target) (Some (impl, v)) False)"
proof (rule reads_step)
  have "\<forall>\<^sub>F f in sequentially. parseStructValue (parseValue f b) (ifaceType target) (PutUint64 tab @ PutUint64 data) (1 + 1)
    = Ok (StructValue (ifaceType target) [(''tab'', PtrValue pt tab (Some (StructValue it us False))),
        (''data'', PtrValue (PtrType 8 VoidRef) data None)] False)"
    using assms(1) by (intro reads_pair_header) simp_all
  with assms(6) show "\<forall>\<^sub>F f in sequentially. parseStep f b (parseValue f b) (ifaceType target) (PutUint64 tab @ PutUint64 data) d
      = Ok (InterfaceValue (ifaceType target) (Some (impl, v)) False)"
  proof eventually_elim
    case (elim n)
    then show ?case
      using assms(2-5)
      by (simp add: parseImpl_run [where impl = impl and buff = buff and v = v and data = data] parseStep_interface parseInterfaceValue_def fieldOf_def del: parseValue.simps)
  qed
qed

section \<open>Maps\<close>

lemma keysApart_append: "keysApart (xs @ ys) \<Longrightarrow> keysApart xs \<and> keysApart ys"
  by (auto simp: keysApart_def sorted_wrt_append)

lemma mapPut_apart: "keysApart (acc @ (k, v) # kvs) \<Longrightarrow> mapPut k v acc = Ok (acc @ [(k, v)])"
  by (auto simp: keysApart_def sorted_wrt_append mapPut_def intro!: filter_True)

lemma mapPutAll_apart: "keysApart (acc @ kvs) \<Longrightarrow> mapPutAll kvs acc = Ok (acc @ kvs)"
proof (induction kvs arbitrary: acc)
  case Nil
  then show ?case by simp
next
  case (Cons kv kvs)
  then show ?case using Cons.IH [of "acc @ [kv]"] by (cases kv) (simp add: mapPut_apart)
qed

lemma occupied_Cons:
  "ks \<noteq> [] \<Longrightarrow> vs \<noteq> [] \<Longrightarrow> occupied (h # hs) ks vs
     = (if minTopHash \<le> h then [(hd ks, hd vs)] else []) @ occupied hs (tl ks) (tl vs)"
  by (cases ks; cases vs) (simp_all add: occupied_def)

lemma bucketItems_apart:
  assumes "j + length hs \<le> length ks" and "j + length hs \<le> length vs"
    and "markedSlots hs" and "keysApart (acc @ occupied hs (drop j ks) (drop j vs))"
  shows "bucketItems (map (\<lambda>h. Scalar ht (Uint8Value h)) hs) ks vs j acc
     = Ok (acc @ occupied hs (drop j ks) (drop j vs))"
  using assms
proof (induction hs arbitrary: j acc)
  case Nil
  then show ?case by (simp add: occupied_def)
next
  case (Cons h hs)
  let ?kv = "if h = 0 then [] else [(ks ! j, vs ! j)]"
  have h: "minTopHash \<le> h \<longleftrightarrow> h \<noteq> 0" and marked: "markedSlots hs"
    using Cons.prems(3) by (auto simp: markedSlots_def minTopHash_def)
  have step: "occupied (h # hs) (drop j ks) (drop j vs) = ?kv @ occupied hs (drop (Suc j) ks) (drop (Suc j) vs)"
    using Cons.prems(1,2) by (subst occupied_Cons) (auto simp: h hd_drop_conv_nth drop_Suc tl_drop)
  show ?case
    using Cons.prems marked Cons.IH [of "Suc j" "acc @ ?kv"]
    by (auto simp: step mapPut_apart)
qed

abbreviation abridgePairs :: "int \<Rightarrow> (val \<times> val) list \<Rightarrow> (val \<times> val) list" where
  "abridgePairs d \<equiv> map (\<lambda>(k, v). (abridge d k, abridge d v))"

abbreviation abridgeFields :: "int \<Rightarrow> (string \<times> val) list \<Rightarrow> (string \<times> val) list" where
  "abridgeFields d \<equiv> map (\<lambda>(name, v). (name, abridge d v))"

inductive_cases stored_pointerE: "stored b (PtrType m (Ref n)) bs (PtrValue t a (Some v))"

lemma stored_pointed_size:
  "stored b (PtrType m (Ref n)) bs (PtrValue t a (Some v)) \<Longrightarrow> valueSize v = typeSize (vpTypeAt b n)"
  by (erule stored_pointerE) (use stored_size in \<open>auto simp: valueSize_def\<close>)

lemma valueSize_abridge [simp]: "valueSize (abridge d v) = valueSize v"
  by (simp add: valueSize_def)

lemma fst_abridgePairs: "list_all (\<lambda>kv. hashable (fst kv)) kvs \<Longrightarrow> map fst (abridgePairs d kvs) = map fst kvs"
  by (induction kvs) (auto simp: abridge_hashable)

lemma keysApart_keys: "keysApart kvs \<longleftrightarrow> list_all hashable (map fst kvs) \<and> sorted_wrt (\<lambda>k k'. \<not> keyEq k k') (map fst kvs)"
  by (simp add: keysApart_def list_all_iff sorted_wrt_map)

lemma keysApart_abridgePairs: "keysApart kvs \<Longrightarrow> keysApart (abridgePairs d kvs)"
  using fst_abridgePairs [of kvs d] by (simp add: keysApart_keys list_all_iff del: map_map)

lemma occupied_map:
  "occupied hs (map f ks) (map g vs) = map (\<lambda>(k, v). (f k, g v)) (occupied hs ks vs)"
  by (simp add: occupied_def zip_map1 zip_map2 filter_map o_def case_prod_unfold)

lemma slots_abridge: "slots us kvs \<Longrightarrow> slots (abridgeFields d us) (abridgePairs d kvs)"
proof -
  assume "slots us kvs"
  then obtain tt ht hs kt ks vt vs where
    "map_of us ''tophash'' = Some (ArrayValue tt (map (\<lambda>h. Scalar ht (Uint8Value h)) hs))"
    "map_of us ''keys'' = Some (ArrayValue kt ks)" "map_of us ''values'' = Some (ArrayValue vt vs)"
    "length hs \<le> length ks" "length hs \<le> length vs" "markedSlots hs" "kvs = occupied hs ks vs"
    unfolding slots_def by blast
  then show ?thesis
    unfolding slots_def
    by (intro exI [of _ tt] exI [of _ ht] exI [of _ hs] exI [of _ kt] exI [of _ "map (abridge d) ks"]
        exI [of _ vt] exI [of _ "map (abridge d) vs"]) (simp add: map_of_map occupied_map o_def)
qed

lemma parseBucket_own:
  assumes "addr \<noteq> 0" and "slots us kvs" and "keysApart kvs" and "map_of us ''overflow'' = Some (PtrValue ot oa p)"
  shows "parseBucket (Suc fuel) pv bt addr (Some (StructValue st us False)) d
     = (if oa = 0 then Ok kvs
        else bindO (bindO (pv bt (PutUint64 oa) (d + 1)) asPtr) (\<lambda>(bt', addr', nextBucket).
             bindO (parseBucket fuel pv bt' addr' nextBucket d) (\<lambda>rest. mapPutAll rest kvs)))"
proof -
  from assms(2) obtain tt ht hs kt ks vt vs where s:
    "map_of us ''tophash'' = Some (ArrayValue tt (map (\<lambda>h. Scalar ht (Uint8Value h)) hs))"
    "map_of us ''keys'' = Some (ArrayValue kt ks)" "map_of us ''values'' = Some (ArrayValue vt vs)"
    "length hs \<le> length ks" "length hs \<le> length vs" "markedSlots hs" "kvs = occupied hs ks vs"
    unfolding slots_def by blast
  have "bucketItems (map (\<lambda>h. Scalar ht (Uint8Value h)) hs) ks vs 0 [] = Ok kvs"
    using bucketItems_apart [of 0 hs ks vs "[]" ht] s assms(3) by simp
  then show ?thesis
    using assms(1,4) s by (simp add: pointedBy_def fieldOf_def)
qed

text \<open>
  Maps have a fuel of their own beside that of the parser: a property of both is settled when it
  holds from some bound on for both.
\<close>

definition settled :: "(nat \<Rightarrow> nat \<Rightarrow> bool) \<Rightarrow> bool" where
  "settled P \<longleftrightarrow> (\<exists>N. \<forall>f\<ge>N. \<forall>fuel\<ge>N. P f fuel)"

lemma settledI: "eventually Q sequentially \<Longrightarrow> (\<And>f fuel. Q f \<Longrightarrow> P f fuel) \<Longrightarrow> settled P"
  by (auto simp: settled_def eventually_sequentially)

lemma settled_conj: "settled P \<Longrightarrow> settled Q \<Longrightarrow> settled (\<lambda>f fuel. P f fuel \<and> Q f fuel)"
  unfolding settled_def by (metis max.boundedE)

lemma settled_mono: "settled P \<Longrightarrow> (\<And>f fuel. P f fuel \<Longrightarrow> Q f fuel) \<Longrightarrow> settled Q"
  unfolding settled_def by blast

lemma settled_Suc: "settled (\<lambda>f fuel. P f (Suc fuel)) \<Longrightarrow> settled P"
  unfolding settled_def by (metis Suc_leD Suc_le_D Suc_le_mono)

lemma settled_diagonal: "settled P \<Longrightarrow> \<forall>\<^sub>F f in sequentially. P f f"
  by (auto simp: settled_def eventually_sequentially)

abbreviation readsChain :: "valueParser \<Rightarrow> dtype \<Rightarrow> u64 \<Rightarrow> val option \<Rightarrow> int \<Rightarrow> (val \<times> val) list \<Rightarrow> bool" where
  "readsChain b bt addr bucket d kvs \<equiv>
     settled (\<lambda>f fuel. parseBucket fuel (parseValue f b) bt addr bucket d = Ok kvs)"

lemma readsChain_none: "readsChain b bt 0 bucket d []"
  by (rule settled_Suc, rule settledI [OF always_eventually]) auto

lemma readsChain_last:
  assumes "addr \<noteq> 0" and "slots us kvs" and "keysApart kvs" and "map_of us ''overflow'' = Some (PtrValue ot 0 p)"
  shows "readsChain b bt addr (Some (StructValue st us False)) d kvs"
  by (rule settled_Suc, rule settledI [OF always_eventually], rule allI)
     (use assms in \<open>simp_all add: parseBucket_own del: parseBucket.simps\<close>)

lemma readsChain_more:
  assumes "addr \<noteq> 0" and "slots us kvs" and "keysApart (kvs @ rest)"
    and "map_of us ''overflow'' = Some (PtrValue ot oa p)" and "oa \<noteq> 0"
    and "reads b bt (PutUint64 oa) (d + 1) (PtrValue bt' oa nextBucket)" and "readsChain b bt' oa nextBucket d rest"
  shows "readsChain b bt addr (Some (StructValue st us False)) d (kvs @ rest)"
  by (rule settled_Suc, rule settled_mono [OF settled_conj [OF settledI [OF assms(6)] assms(7)]], assumption)
     (use assms(1-5) keysApart_append [of kvs rest]
      in \<open>simp add: parseBucket_own mapPutAll_apart del: parseBucket.simps parseValue.simps\<close>)

definition readsTable ::
    "valueParser \<Rightarrow> nat \<Rightarrow> dtype \<Rightarrow> u64 \<Rightarrow> val option \<Rightarrow> int \<Rightarrow> (val \<times> val) list \<Rightarrow> bool" where
  "readsTable b n bt addr bucket d kvs \<longleftrightarrow> (\<forall>i acc. keysApart (acc @ kvs) \<longrightarrow>
     settled (\<lambda>f fuel. bucketLoop fuel (parseValue f b) (i + int n) i bt addr bucket d acc = Ok (acc @ kvs)))"

lemma readsTable_last:
  assumes "readsChain b bt addr bucket d kvs"
  shows "readsTable b 1 bt addr bucket d kvs"
  unfolding readsTable_def
proof (intro allI impI, rule settled_Suc)
  fix i acc assume "keysApart (acc @ kvs)"
  then show "settled (\<lambda>f fuel. bucketLoop (Suc fuel) (parseValue f b) (i + int 1) i bt addr bucket d acc = Ok (acc @ kvs))"
    by (intro settled_mono [OF assms]) (simp add: mapPutAll_apart del: parseBucket.simps parseValue.simps)
qed

lemma readsTable_more:
  assumes "readsChain b bt addr (Some (StructValue st us abbr)) d kvs"
    and "reads b bt (PutUint64 (addr + of_int (typeSize st))) (d + 1) (PtrValue bt' addr' nextBucket)"
    and "readsTable b n bt' addr' nextBucket d rest" and "0 < n"
  shows "readsTable b (Suc n) bt addr (Some (StructValue st us abbr)) d (kvs @ rest)"
  unfolding readsTable_def
proof (intro allI impI, rule settled_Suc)
  fix i acc assume apart: "keysApart (acc @ kvs @ rest)"
  have "settled (\<lambda>f fuel. bucketLoop fuel (parseValue f b) (i + 1 + int n) (i + 1) bt' addr' nextBucket d (acc @ kvs)
      = Ok ((acc @ kvs) @ rest))"
    using assms(3) apart unfolding readsTable_def append_assoc [symmetric] by blast
  from settled_conj [OF assms(1) settled_conj [OF settledI [OF assms(2)] this]]
  show "settled (\<lambda>f fuel. bucketLoop (Suc fuel) (parseValue f b) (i + int (Suc n)) i bt addr
      (Some (StructValue st us abbr)) d acc = Ok (acc @ kvs @ rest))"
  proof (rule settled_mono)
    fix f fuel
    have "mapPutAll kvs acc = Ok (acc @ kvs)"
      using apart keysApart_append [of "acc @ kvs" rest] by (intro mapPutAll_apart) simp
    then show "bucketLoop (Suc fuel) (parseValue f b) (i + int (Suc n)) i bt addr
        (Some (StructValue st us abbr)) d acc = Ok (acc @ kvs @ rest)"
      if "parseBucket fuel (parseValue f b) bt addr (Some (StructValue st us abbr)) d = Ok kvs
        \<and> parseValue f b bt (PutUint64 (addr + of_int (typeSize st))) (d + 1) = Ok (PtrValue bt' addr' nextBucket)
        \<and> bucketLoop fuel (parseValue f b) (i + 1 + int n) (i + 1) bt' addr' nextBucket d (acc @ kvs) = Ok ((acc @ kvs) @ rest)"
      using that assms(4)
      by (simp add: pointedBy_def add.assoc del: parseBucket.simps parseValue.simps)
  qed simp_all
qed

lemma parseStep_map:
  "HasPrefix name ''map['' \<Longrightarrow> parseStep f b pv (TypedefType name inner) bs d
     = parseMapValue f pv (TypedefType name inner) inner bs d"
  by (simp add: parseStep_def)

lemma reads_nil_map:
  assumes "HasPrefix name ''map[''" and "reads b inner bs (d + 2) (PtrValue pt a None)"
  shows "reads b (TypedefType name inner) bs d (MapValue (TypedefType name inner) [])"
proof (rule reads_step)
  show "\<forall>\<^sub>F f in sequentially. parseStep f b (parseValue f b) (TypedefType name inner) bs d
      = Ok (MapValue (TypedefType name inner) [])"
    using assms(2) by eventually_elim (simp add: parseStep_map assms(1) parseMapValue_def del: parseValue.simps)
qed

lemma reads_map:
  assumes "HasPrefix name ''map[''" and "reads b inner bs (d + 2) (PtrValue pt a (Some (StructValue ht us False)))"
    and "map_of us ''B'' = Some (Scalar t1 (Uint8Value B))" and "unat B < 63"
    and "map_of us ''buckets'' = Some (PtrValue bt ba bucket)" and "map_of us ''oldbuckets'' = Some (PtrValue ot oa old)"
    and "readsTable b (2 ^ unat B) bt ba bucket d kvs" and "keysApart kvs"
  shows "reads b (TypedefType name inner) bs d (MapValue (TypedefType name inner) kvs)"
proof (rule reads_step)
  have "settled (\<lambda>f fuel. bucketLoop fuel (parseValue f b) (0 + int (2 ^ unat B)) 0 bt ba bucket d [] = Ok ([] @ kvs))"
    using assms(7,8) unfolding readsTable_def by (metis append_Nil)
  then have "\<forall>\<^sub>F f in sequentially. bucketLoop f (parseValue f b) (2 ^ unat B) 0 bt ba bucket d [] = Ok kvs"
    using settled_diagonal by fastforce
  with assms(2) show "\<forall>\<^sub>F f in sequentially. parseStep f b (parseValue f b) (TypedefType name inner) bs d
      = Ok (MapValue (TypedefType name inner) kvs)"
  proof eventually_elim
    case (elim f)
    show ?case
      unfolding parseStep_map [OF assms(1)] parseMapValue_def elim(1)
      using assms(3,5,6) elim(2) by (simp add: fieldOf_def sint_power2 assms(4) del: parseValue.simps)
  qed
qed

section \<open>Every stored value\<close>

lemma stored_reads:
  "(stored b t bs v \<longrightarrow> (\<forall>d\<ge>0. reads b t bs d (abridge d v)))
   \<and> (chained b bt a1 bk1 kvs1 \<longrightarrow> (\<forall>d\<ge>0. keysApart kvs1 \<longrightarrow>
        readsChain b bt a1 (map_option (abridge (d + 1)) bk1) d (abridgePairs d kvs1)))
   \<and> (tabled b n bt2 a2 bk2 kvs2 \<longrightarrow> (\<forall>d\<ge>0. keysApart kvs2 \<longrightarrow>
        readsTable b n bt2 a2 (map_option (abridge (d + 1)) bk2) d (abridgePairs d kvs2)))"
proof (induction rule: stored_chained_tabled.induct)
  case (st_scalar s t bs)
  then show ?case by (auto intro!: reads_now reads_scalar)
next
  case (st_other n bs)
  show ?case by (auto intro!: reads_now simp: parseStep_def)
next
  case (st_string a buff t fs)
  then show ?case by (auto intro!: reads_now reads_string)
next
  case (st_nil t target)
  then show ?case by (auto intro!: reads_now simp: parseStep_ptr parsePtr_def)
next
  case (st_unsafe a t)
  then show ?case by (auto intro!: reads_now simp: parseStep_ptr parsePtr_def)
next
  case (st_dangling a t n e)
  then show ?case by (auto intro!: reads_now simp: parseStep_ptr parsePtr_def bufferSize_nonneg)
next
  case (st_pointer a t n buff v)
  then show ?case by (auto intro!: reads_pointer simp del: parseValue.simps)
next
  case (st_array t cnt elem bs vs)
  then show ?case
    by (auto intro!: reads_array simp: list_all2_map2 simp del: parseValue.simps elim!: list_all2_mono)
next
  case (st_struct t name n fs bs us)
  show ?case
    unfolding st_struct.hyps(1)
    by (intro allI impI reads_struct st_struct.hyps list_all2_mono [OF st_struct.IH]) blast
next
  case (st_named name t bs v)
  then show ?case by (auto intro!: reads_named simp del: parseValue.simps)
next
  case (st_empty_slice t name target a p cap)
  then show ?case by (auto intro!: reads_empty_slice simp del: parseValue.simps)
next
  case (st_slice t name n vs a cap)
  show ?case
  proof (intro allI impI)
    fix d :: int assume d: "0 \<le> d"
    let ?sz = "typeSize (vpTypeAt b n)"
    have "list_all2 (\<lambda>i v. reads b (PtrType 8 (Ref n)) (PutUint64 (a + of_nat i * of_int ?sz)) d
        (PtrValue (PtrType 8 (Ref n)) (a + of_nat i * of_int ?sz) (Some v)) \<and> valueSize v = ?sz)
        [0..<length (map (abridge d) vs)] (map (abridge d) vs)"
      using st_slice.IH d
      by (auto simp: list_all2_map2 simp del: parseValue.simps upt_Suc dest: stored_pointed_size elim!: list_all2_mono)
    from reads_slice [OF st_slice.hyps(2) _ _ d this, of cap]
    show "reads b t (PutUint64 a @ PutUint64 (of_nat (length vs)) @ PutUint64 cap) d (abridge d (SliceValue t (map Some vs)))"
      using st_slice by (simp add: o_def del: parseValue.simps)
  qed
next
  case (st_nil_eface t target ty p)
  then show ?case by (auto intro!: reads_nil_eface simp del: parseValue.simps)
next
  case (st_eface t target ty pt p f impl data buff v)
  have "reads b (PtrType 8 target) (PutUint64 ty) 0 (PtrValue pt ty (map_option (abridge 0) p))"
    using st_eface.IH(2) by (auto simp del: parseValue.simps)
  then show ?case
    using st_eface by (auto intro!: reads_eface simp del: parseValue.simps)
next
  case (st_nil_iface t target tab pt data)
  then show ?case by (auto intro!: reads_nil_iface [of b target tab pt] simp del: parseValue.simps)
next
  case (st_iface t target tab pt it us qt ty q f impl data buff v)
  have "reads b (PtrType 8 target) (PutUint64 tab) 1
      (PtrValue pt tab (Some (StructValue it (abridgeFields 0 us) False)))"
    using st_iface.IH(2) by (auto dest!: spec [of _ "1 :: int"] simp del: parseValue.simps)
  moreover have "map_of (abridgeFields 0 us) ''_type'' = Some (PtrValue qt ty (map_option (abridge 0) q))"
    using st_iface by (simp add: map_of_map)
  ultimately show ?case
    using st_iface by (auto intro!: reads_iface [of b target tab pt it "abridgeFields 0 us"] simp del: parseValue.simps)
next
  case (st_nil_map name inner bs pt a)
  then show ?case by (auto intro!: reads_nil_map [of name b inner bs _ pt a] simp del: parseValue.simps)
next
  case (st_map name inner bs pt a ht us t1 B bt ba bucket ot kvs)
  show ?case
  proof (intro allI impI)
    fix d :: int assume d: "0 \<le> d"
    have "reads b inner bs (d + 2) (PtrValue pt a (Some (StructValue ht (abridgeFields (d + 1) us) False)))"
      using st_map.IH(2) d by (auto dest!: spec [of _ "d + 2"] simp: add.commute simp del: parseValue.simps)
    moreover have "readsTable b (2 ^ unat B) bt ba (map_option (abridge (d + 1)) bucket) d (abridgePairs d kvs)"
      using st_map d by blast
    ultimately show "reads b (TypedefType name inner) bs d (abridge d (MapValue (TypedefType name inner) kvs))"
      using st_map unfolding abridge.simps
      by (intro reads_map [where us = "abridgeFields (d + 1) us" and pt = pt and a = a and ht = ht and B = B
              and bt = bt and ba = ba and bucket = "map_option (abridge (d + 1)) bucket"])
         (simp_all add: map_of_map keysApart_abridgePairs del: parseValue.simps)
  qed
next
  case (ch_none bt bucket)
  then show ?case by (auto intro!: readsChain_none simp del: parseBucket.simps)
next
  case (ch_last addr us kvs ot p bt st)
  then show ?case
    by (auto intro!: readsChain_last slots_abridge simp: keysApart_abridgePairs map_of_map simp del: parseBucket.simps)
next
  case (ch_more addr us kvs ot oa p bt bt' nextBucket rest st)
  show ?case
  proof (intro allI impI)
    fix d :: int assume d: "0 \<le> d" and apart: "keysApart (kvs @ rest)"
    have "readsChain b bt' oa (map_option (abridge (d + 1)) nextBucket) d (abridgePairs d rest)"
      using ch_more.IH(4) d apart keysApart_append by blast
    moreover have "reads b bt (PutUint64 oa) (d + 1) (PtrValue bt' oa (map_option (abridge (d + 1)) nextBucket))"
      using ch_more.IH(2) d by (auto dest!: spec [of _ "d + 1"] simp: add.commute simp del: parseValue.simps)
    ultimately have "readsChain b bt addr (Some (StructValue st (abridgeFields d us) False)) d
        (abridgePairs d kvs @ abridgePairs d rest)"
      using ch_more keysApart_abridgePairs [OF apart, of d]
      by (intro readsChain_more [where us = "abridgeFields d us" and bt' = bt' and oa = oa
            and nextBucket = "map_option (abridge (d + 1)) nextBucket"])
         (simp_all add: slots_abridge map_of_map del: parseBucket.simps parseValue.simps)
    then show "readsChain b bt addr (map_option (abridge (d + 1)) (Some (StructValue st us False))) d
        (abridgePairs d (kvs @ rest))"
      using d by simp
  qed
next
  case (tb_last bt addr bucket kvs)
  then show ?case using readsTable_last by simp
next
  case (tb_more bt addr st us kvs bt' nextBucket n rest)
  show ?case
  proof (intro allI impI)
    fix d :: int assume d: "0 \<le> d" and apart: "keysApart (kvs @ rest)"
    let ?addr = "addr + of_int (typeSize st)"
    have "readsChain b bt addr (Some (StructValue st (abridgeFields d us) False)) d (abridgePairs d kvs)"
      using spec [OF tb_more.IH(2), of d] d keysApart_append [OF apart] by (simp del: parseBucket.simps parseValue.simps)
    moreover have "readsTable b n bt' ?addr (map_option (abridge (d + 1)) nextBucket) d (abridgePairs d rest)"
      using tb_more.IH(6) d apart keysApart_append by blast
    moreover have "reads b bt (PutUint64 ?addr) (d + 1) (PtrValue bt' ?addr (map_option (abridge (d + 1)) nextBucket))"
      using tb_more.IH(4) d by (auto dest!: spec [of _ "d + 1"] simp: add.commute simp del: parseValue.simps)
    ultimately have "readsTable b (Suc n) bt addr (Some (StructValue st (abridgeFields d us) False)) d
        (abridgePairs d kvs @ abridgePairs d rest)"
      using tb_more by (intro readsTable_more [where addr' = ?addr and bt' = bt'
            and nextBucket = "map_option (abridge (d + 1)) nextBucket"]) simp_all
    then show "readsTable b (Suc n) bt addr (map_option (abridge (d + 1)) (Some (StructValue st us False))) d
        (abridgePairs d (kvs @ rest))"
      using d by simp
  qed
qed

end
