(* ===== verification/ValueProps.thy ===== *)
theory ValueProps
  imports ValueRead
begin

text \<open>The property of the value parser that covers all kinds of values, and an example that meets it.\<close>

section \<open>An example\<close>

text \<open>A struct with a map of one entry, a string and a struct of its own, and the memory it is in.\<close>

definition exampleMap :: dtype where "exampleMap = TypedefType ''map[uint8]uint8'' (PtrType 8 (Ref 0))"

definition exampleInner :: dtype where "exampleInner = StructType ''main.U'' 1 [(''x'', 0, BoolType 1)]"

definition exampleStruct :: dtype where
  "exampleStruct = StructType ''main.T'' 25
     [(''m'', 0, exampleMap), (''s'', 8, StructType ''string'' 16 []), (''u'', 24, exampleInner)]"

definition exampleHmap :: dtype where
  "exampleHmap = StructType ''hash<uint8,uint8>'' 24
     [(''B'', 0, UintType 1), (''buckets'', 8, PtrType 8 (Ref 1)), (''oldbuckets'', 16, PtrType 8 (Ref 1))]"

definition exampleBucket :: dtype where
  "exampleBucket = StructType ''bucket<uint8,uint8>'' 16
     [(''tophash'', 0, ArrayType 2 (UintType 1)), (''keys'', 2, ArrayType 2 (UintType 1)),
      (''values'', 4, ArrayType 2 (UintType 1)), (''overflow'', 8, PtrType 8 (Ref 1))]"

definition exampleParser :: valueParser where
  "exampleParser = \<lparr>reader = (\<lambda>a n. if a = 64 then Ok ([0, 0, 0, 0, 0, 0, 0, 0] @ PutUint64 128 @ PutUint64 0)
       else if a = 128 then Ok ([0, 5, 0, 7, 0, 9, 0, 0] @ PutUint64 0)
       else if a = 256 then Ok [103, 111] else Fail (ErrMsg ''EIO'')),
     vpTypeAt = (\<lambda>n. if n = 0 then exampleHmap else exampleBucket), mapRuntimeType = None\<rparr>"

lemma exampleParser_simps:
  "reader exampleParser 64 n = Ok ([0, 0, 0, 0, 0, 0, 0, 0] @ PutUint64 128 @ PutUint64 0)"
  "reader exampleParser 128 n = Ok ([0, 5, 0, 7, 0, 9, 0, 0] @ PutUint64 0)"
  "reader exampleParser 256 n = Ok [103, 111]"
  "vpTypeAt exampleParser 0 = exampleHmap" "vpTypeAt exampleParser (Suc 0) = exampleBucket"
  "typeSize exampleHmap = 24" "typeSize exampleBucket = 16"
  by (simp_all add: exampleParser_def exampleHmap_def exampleBucket_def)

abbreviation exampleByte :: "u8 \<Rightarrow> val" where "exampleByte w \<equiv> Scalar (UintType 1) (Uint8Value w)"

definition exampleBucketValue :: "(string \<times> val) list" where
  "exampleBucketValue =
     [(''tophash'', ArrayValue (ArrayType 2 (UintType 1)) [exampleByte 0, exampleByte 5]),
      (''keys'', ArrayValue (ArrayType 2 (UintType 1)) [exampleByte 0, exampleByte 7]),
      (''values'', ArrayValue (ArrayType 2 (UintType 1)) [exampleByte 0, exampleByte 9]),
      (''overflow'', PtrValue (PtrType 8 (Ref 1)) 0 None)]"

definition exampleHmapValue :: "(string \<times> val) list" where
  "exampleHmapValue =
     [(''B'', exampleByte 0),
      (''buckets'', PtrValue (PtrType 8 (Ref 1)) 128 (Some (StructValue exampleBucket exampleBucketValue False))),
      (''oldbuckets'', PtrValue (PtrType 8 (Ref 1)) 0 None)]"

lemma stored_byte: "bs = [w] \<Longrightarrow> stored b (UintType 1) bs (exampleByte w)"
  by (rule st_scalar) simp

lemma exampleBucket_stored:
  "stored exampleParser exampleBucket ([0, 5, 0, 7, 0, 9, 0, 0] @ PutUint64 0) (StructValue exampleBucket exampleBucketValue False)"
  by (rule st_struct [OF exampleBucket_def])
     (auto simp: exampleBucketValue_def plainStruct_def HasPrefix_def fieldEnd_def window_def upt_rec numeral_2_eq_2
       intro!: st_array [where cnt = 2] st_nil stored_byte)


lemma exampleHmap_stored:
  "stored exampleParser exampleHmap ([0, 0, 0, 0, 0, 0, 0, 0] @ PutUint64 128 @ PutUint64 0)
     (StructValue exampleHmap exampleHmapValue False)"
proof -
  have "stored exampleParser (PtrType 8 (Ref 1)) (PutUint64 128)
      (PtrValue (PtrType 8 (Ref 1)) 128 (Some (StructValue exampleBucket exampleBucketValue False)))"
    using exampleBucket_stored
    by (intro st_pointer [where n = 1]) (simp_all add: exampleParser_simps)
  then show ?thesis
    by (intro st_struct [OF exampleHmap_def])
       (auto simp: exampleHmapValue_def plainStruct_def HasPrefix_def fieldEnd_def window_def intro!: st_nil stored_byte)
qed

lemma exampleMap_stored:
  "stored exampleParser exampleMap (PutUint64 64) (MapValue exampleMap [(exampleByte 7, exampleByte 9)])"
  unfolding exampleMap_def
proof (rule st_map)
  show "stored exampleParser (PtrType 8 (Ref 0)) (PutUint64 64)
      (PtrValue (PtrType 8 (Ref 0)) 64 (Some (StructValue exampleHmap exampleHmapValue False)))"
    using exampleHmap_stored by (intro st_pointer [where n = 0]) (simp_all add: exampleParser_simps)
  have "slots exampleBucketValue [(exampleByte 7, exampleByte 9)]"
    unfolding slots_def exampleBucketValue_def
    by (intro exI [of _ "[0, 5]"] exI) (auto simp: occupied_def markedSlots_def minTopHash_def)
  then have "chained exampleParser (PtrType 8 (Ref 1)) 128 (Some (StructValue exampleBucket exampleBucketValue False))
      [(exampleByte 7, exampleByte 9)]"
    by (rule ch_last [rotated]) (simp_all add: exampleBucketValue_def)
  then show "tabled exampleParser (2 ^ unat (0 :: u8)) (PtrType 8 (Ref 1)) 128
      (Some (StructValue exampleBucket exampleBucketValue False)) [(exampleByte 7, exampleByte 9)]"
    using tb_last by simp
qed (simp_all add: HasPrefix_def exampleHmapValue_def keysApart_def)

lemma exampleStruct_stored:
  "stored exampleParser exampleStruct (PutUint64 64 @ PutUint64 256 @ PutUint64 2 @ [1])
     (StructValue exampleStruct
        [(''m'', MapValue exampleMap [(exampleByte 7, exampleByte 9)]),
         (''s'', Scalar (StructType ''string'' 16 []) (StringValue ''go'')),
         (''u'', StructValue exampleInner [(''x'', Scalar (BoolType 1) (BoolValue True))] False)] False)"
proof -
  have go: "bytesToString [103, 111] = ''go''" by code_simp
  have "stored exampleParser (StructType ''string'' 16 []) (PutUint64 256 @ PutUint64 2)
      (Scalar (StructType ''string'' 16 []) (StringValue ''go''))"
    using st_string [of exampleParser 256 "[103, 111]" "StructType ''string'' 16 []" "[]"] go
    by (simp add: exampleParser_simps)
  moreover have "stored exampleParser exampleInner [1]
      (StructValue exampleInner [(''x'', Scalar (BoolType 1) (BoolValue True))] False)"
    by (rule st_struct [OF exampleInner_def])
       (auto simp: plainStruct_def HasPrefix_def fieldEnd_def window_def intro!: st_scalar)
  ultimately show ?thesis
    using exampleMap_stored
    by (intro st_struct [OF exampleStruct_def])
       (auto simp: plainStruct_def HasPrefix_def fieldEnd_def window_def exampleMap_def exampleInner_def)
qed

section \<open>The property\<close>

text \<open>
  C11: the parser reads back what is in memory. Whatever value the bytes and the memory behind
  them hold - numbers, strings, pointers, also dangling ones, arrays, slices, structs, interfaces, and
  maps that are not growing, with all their buckets and overflow buckets and, from Go 1.12 on,
  without deleted slots - some fuel suffices for the parser to return that value, complete
  except for the structs below the depth, which are left out. A depth of n shows n levels of
  structs, as the tests expect; the comment on parseValue would have it one level more. (Of a
  growing map the parser logs itself that the values may be defective.)
\<close>

theorem stored_values_are_read_back:
  assumes "stored b t bs v" and "0 \<le> d"
  shows "\<exists>f0. \<forall>f. parseValue (f0 + f) b t bs d = Ok (abridge d v)"
proof -
  have "reads b t bs d (abridge d v)"
    using stored_reads assms by blast
  then show ?thesis
    unfolding eventually_sequentially by (metis le_add1)
qed

theorem stored_values_are_read_back_witness:
  "\<exists>f0. \<forall>f. parseValue (f0 + f) exampleParser exampleStruct (PutUint64 64 @ PutUint64 256 @ PutUint64 2 @ [1]) 1
     = Ok (StructValue exampleStruct
         [(''m'', MapValue exampleMap [(exampleByte 7, exampleByte 9)]),
          (''s'', Scalar (StructType ''string'' 16 []) (StringValue ''go'')),
          (''u'', StructValue exampleInner [] True)] False)"
  using stored_values_are_read_back [OF exampleStruct_stored, of 1] by simp

end
