(* ===== verification/ArgumentProps.thy ===== *)
theory ArgumentProps
  imports ControllerTraps ValueProps
begin

text \<open>
  What a line of the trace says: the composition of the stack frame (tracee/process.go), the value
  parser (tracee/value.go) and the printing of calls and returns (tracer/controller.go).
\<close>

section \<open>Arguments and what is shown of them\<close>

text \<open>
  The text for an argument: its name and its value, which is a dash when its location is unknown
  or its memory cannot be read, and otherwise the string of the stored value, abridged.
\<close>

definition argShown :: "'c procEnv \<Rightarrow> 'c Process \<Rightarrow> int \<Rightarrow> Argument \<Rightarrow> string \<Rightarrow> bool" where
  "argShown env p level arg text \<longleftrightarrow>
     (\<exists>s. text = (if argName arg = [] then s else argName arg @ '' = '' @ s) \<and>
       (\<not> argExists arg \<and> s = ''-''
        \<or> argExists arg \<and> 0 \<le> typeSize (argTyp arg) \<and>
          (\<exists>e. readMem env (argAddr arg) (nat (typeSize (argTyp arg))) p = Fail e) \<and> s = ''-''
        \<or> argExists arg \<and> 0 \<le> typeSize (argTyp arg) \<and>
          (\<exists>buff v. readMem env (argAddr arg) (nat (typeSize (argTyp arg))) p = Ok buff
             \<and> stored (procParser env p) (argTyp arg) buff v
             \<and> valString (formatter env) (abridge level v) = Ok s)))"

lemma ParseValue_shown:
  assumes "argShown env p level arg text" and "0 \<le> level"
  shows "\<forall>\<^sub>F fuel in sequentially. ParseValue fuel env arg level p = Ok text"
proof -
  obtain s where label: "text = (if argName arg = [] then s else argName arg @ '' = '' @ s)"
    and cases: "\<not> argExists arg \<and> s = ''-''
        \<or> argExists arg \<and> 0 \<le> typeSize (argTyp arg) \<and>
          (\<exists>e. readMem env (argAddr arg) (nat (typeSize (argTyp arg))) p = Fail e) \<and> s = ''-''
        \<or> argExists arg \<and> 0 \<le> typeSize (argTyp arg) \<and>
          (\<exists>buff v. readMem env (argAddr arg) (nat (typeSize (argTyp arg))) p = Ok buff
             \<and> stored (procParser env p) (argTyp arg) buff v
             \<and> valString (formatter env) (abridge level v) = Ok s)"
    using assms(1) unfolding argShown_def by blast
  have "\<forall>\<^sub>F fuel in sequentially. bindO (argParseValue fuel env arg level p) (\<lambda>v.
      case v of None \<Rightarrow> Ok ''-'' | Some u \<Rightarrow> valString (formatter env) u) = Ok s"
    using cases
  proof (elim disjE conjE exE)
    fix buff v assume *: "argExists arg" "0 \<le> typeSize (argTyp arg)"
      "readMem env (argAddr arg) (nat (typeSize (argTyp arg))) p = Ok buff"
      "stored (procParser env p) (argTyp arg) buff v" "valString (formatter env) (abridge level v) = Ok s"
    have "reads (procParser env p) (argTyp arg) buff level (abridge level v)"
      using stored_reads *(4) assms(2) by blast
    then show ?thesis
      by eventually_elim (use * in \<open>simp add: argParseValue_def bufferSize_nonneg del: parseValue.simps\<close>)
  qed (auto simp: argParseValue_def bufferSize_nonneg intro!: always_eventually)
  then show ?thesis
    by eventually_elim (auto simp: ParseValue_def label bindO_Ok)
qed

lemma parseArgs_shown:
  assumes "list_all2 (argShown (tracee env) p level) args texts" and "0 \<le> level"
  shows "\<forall>\<^sub>F n in sequentially. parseArgs (env\<lparr>fuelOf := n\<rparr>) level args p = Ok texts"
  using assms(1)
proof (induction args texts rule: list_all2_induct)
  case Nil
  then show ?case by simp
next
  case (Cons arg args t texts)
  from ParseValue_shown [OF Cons.hyps(1) assms(2)] Cons.IH show ?case
    by eventually_elim simp
qed

definition callLine :: "nat \<Rightarrow> int \<Rightarrow> string \<Rightarrow> string list \<Rightarrow> bool \<Rightarrow> string" where
  "callLine callers goRoutineID name inputs results =
     replicate callers (CHR ''|'') @ [CHR 0x5C] @ '' (#'' @ dec02_int goRoutineID @ '') '' @ name
       @ ''('' @ joinWith '', '' inputs @ '') ('' @ (if results then ''...'' else []) @ '')'' @ [CHR 0x0A]"

definition returnLine :: "nat \<Rightarrow> int \<Rightarrow> string \<Rightarrow> string list \<Rightarrow> string list \<Rightarrow> string" where
  "returnLine callers goRoutineID name inputs outputs =
     replicate callers (CHR ''|'') @ ''/ (#'' @ dec02_int goRoutineID @ '') '' @ name
       @ ''('' @ joinWith '', '' inputs @ '') ('' @ joinWith '', '' outputs @ '')'' @ [CHR 0x0A]"

lemma Repeat_bars: "Repeat ''|'' (int (Suc callers) - 1) = Ok (replicate callers (CHR ''|''))"
  by (simp add: Repeat_def)

text \<open>
  C5: a traced call shows what is in memory. For the frame that StackFrameAt finds, with the
  parameters of the function at their offsets above the return address, the line for a call
  has the function's name and, for every input parameter in order, its name and the value that
  memory holds there, printed down to the parse level; the line for a return has the values
  of the inputs and the results as they are then. Some fuel suffices for every argument.
\<close>

theorem traced_calls_show_their_arguments:
  assumes f: "procFindFunction fuel (tracee env) rip (process c) = Ok f"
    and frame: "StackFrameAt fuel (tracee env) rsp rip (process c) = Ok sf"
    and ins: "list_all2 (\<lambda>param. argShown (tracee env) (process c) (parseLevel c) (argumentOf (rsp + 8) param))
        (filter (\<lambda>param. \<not> IsOutput param) (Parameters f)) inputs"
    and outs: "list_all2 (\<lambda>param. argShown (tracee env) (process c) (parseLevel c) (argumentOf (rsp + 8) param))
        (filter IsOutput (Parameters f)) outputs"
    and level: "0 \<le> parseLevel c"
  shows "\<exists>n0. \<forall>n. printFunctionInput (env\<lparr>fuelOf := n0 + n\<rparr>) g sf (int (Suc callers)) c
        = (Ok (), c\<lparr>outputWriter := outputWriter c @ [callLine callers g (Name f) inputs (outputs \<noteq> [])]\<rparr>)
      \<and> printFunctionOutput (env\<lparr>fuelOf := n0 + n\<rparr>) g sf (int (Suc callers)) c
        = (Ok (), c\<lparr>outputWriter := outputWriter c @ [returnLine callers g (Name f) inputs outputs]\<rparr>)"
proof -
  have parts: "frameFunction sf = f"
    "InputArguments sf = map (argumentOf (rsp + 8)) (filter (\<lambda>param. \<not> IsOutput param) (Parameters f))"
    "OutputArguments sf = map (argumentOf (rsp + 8)) (filter IsOutput (Parameters f))"
    using frame f by (auto simp: StackFrameAt_def currentArgs_def bindO_Ok)
  have results: "0 < length (OutputArguments sf) \<longleftrightarrow> outputs \<noteq> []"
    using list_all2_lengthD [OF outs] by (auto simp: parts)
  have "\<forall>\<^sub>F n in sequentially. parseArgs (env\<lparr>fuelOf := n\<rparr>) (parseLevel c) (InputArguments sf) (process c) = Ok inputs"
    using ins level by (intro parseArgs_shown) (simp_all add: parts list_all2_map1)
  moreover have "\<forall>\<^sub>F n in sequentially. parseArgs (env\<lparr>fuelOf := n\<rparr>) (parseLevel c) (OutputArguments sf) (process c) = Ok outputs"
    using outs level by (intro parseArgs_shown) (simp_all add: parts list_all2_map1)
  ultimately have "\<forall>\<^sub>F n in sequentially. printFunctionInput (env\<lparr>fuelOf := n\<rparr>) g sf (int (Suc callers)) c
        = (Ok (), c\<lparr>outputWriter := outputWriter c @ [callLine callers g (Name f) inputs (outputs \<noteq> [])]\<rparr>)
      \<and> printFunctionOutput (env\<lparr>fuelOf := n\<rparr>) g sf (int (Suc callers)) c
        = (Ok (), c\<lparr>outputWriter := outputWriter c @ [returnLine callers g (Name f) inputs outputs]\<rparr>)"
  proof eventually_elim
    case (elim n)
    have "printFunctionInput (env\<lparr>fuelOf := n\<rparr>) g sf (int (Suc callers)) c
        = (Ok (), c\<lparr>outputWriter := outputWriter c @ [callLine callers g (Name f) inputs (outputs \<noteq> [])]\<rparr>)"
      using elim results unfolding printFunctionInput_def callLine_def Repeat_bars
      by (simp add: bindM_def observe_def printLine_def parts(1))
    moreover have "printFunctionOutput (env\<lparr>fuelOf := n\<rparr>) g sf (int (Suc callers)) c
        = (Ok (), c\<lparr>outputWriter := outputWriter c @ [returnLine callers g (Name f) inputs outputs]\<rparr>)"
      using elim unfolding printFunctionOutput_def returnLine_def Repeat_bars
      by (simp add: bindM_def observe_def printLine_def parts(1))
    ultimately show ?case ..
  qed
  then show ?thesis
    unfolding eventually_sequentially by (metis le_add1)
qed


text \<open>
  A function of the simulated tracee with two arguments, a byte and a pointer to a byte, and a
  result. The bytes of the memory are the low bytes of their addresses.
\<close>

definition simG :: Function where
  "simG = \<lparr>Name = ''main.g'', StartAddr = 0x20, EndAddr = 0x24, Parameters =
     [\<lparr>pName = ''a'', Typ = UintType 1, Offset = 0, Exists = True, IsOutput = False\<rparr>,
      \<lparr>pName = ''p'', Typ = PtrType 8 (Ref 0), Offset = 8, Exists = True, IsOutput = False\<rparr>,
      \<lparr>pName = ''r'', Typ = UintType 1, Offset = 16, Exists = True, IsOutput = True\<rparr>]\<rparr>"

definition argCtl :: "machine rawClient ctlEnv" where
  "argCtl = simCtl\<lparr>tracee := simEnv\<lparr>Binary := (nonDebuggableBinaryFile (\<lambda>n. Ok ()))\<lparr>bfFindFunction := (\<lambda>pc. Ok simG)\<rparr>\<rparr>\<rparr>"

definition argState :: "machine rawClient Controller" where
  "argState = (freshCtl [])\<lparr>parseLevel := 1\<rparr>"

lemma argCtl_reads: "readMem (tracee argCtl) a n (process argState) = Ok (bytesAt (\<lambda>a. ucast a) a n)"
  by (simp add: readMem_def argCtl_def simEnv_def linuxClient_def rawReadMemory_def argState_def freshCtl_def
      NewController_def simProcess_def startedMachine_def simOS_def)

lemma argCtl_parser: "reader (procParser (tracee argCtl) (process argState)) a n = Ok (bytesAt (\<lambda>a. ucast a) a n)"
  "vpTypeAt (procParser (tracee argCtl) (process argState)) 0 = UintType 1"
  using argCtl_reads
  by (simp_all add: procParser_def procReader_def) (simp add: argCtl_def nonDebuggableBinaryFile_def noDwarfTypeAt_def)

lemma byte_shown:
  assumes "name \<noteq> []"
  shows "argShown (tracee argCtl) (process argState) 1 \<lparr>argName = name, argTyp = UintType 1, argAddr = a, argExists = True\<rparr>
     (name @ '' = '' @ dec_nat (unat (ucast a :: u8)))"
proof -
  have "stored (procParser (tracee argCtl) (process argState)) (UintType 1) [ucast a] (Scalar (UintType 1) (Uint8Value (ucast a)))"
    by (rule st_scalar) simp
  then show ?thesis
    using assms by (auto simp: argShown_def argCtl_reads bytesAt_def intro!: exI [of _ "Scalar (UintType 1) (Uint8Value (ucast a))"])
qed

lemma pointer_shown:
  "argShown (tracee argCtl) (process argState) 1 \<lparr>argName = ''p'', argTyp = PtrType 8 (Ref 0), argAddr = 0x110, argExists = True\<rparr>
     ''p = &16''"
proof -
  let ?a = "0x1716151413121110 :: u64"
  have eight: "(8::nat) = Suc (Suc (Suc (Suc (Suc (Suc (Suc (Suc 0)))))))" by simp
  have "PutUint64 ?a = [0x10, 0x11, 0x12, 0x13, 0x14, 0x15, 0x16, 0x17]"
    unfolding PutUint64_def eight by (simp only: le_bytes.simps) simp
  moreover have "bytesAt (\<lambda>a. ucast a) (0x110 :: u64) 8 = [0x10, 0x11, 0x12, 0x13, 0x14, 0x15, 0x16, 0x17 :: u8]"
    by (simp add: bytesAt_def upt_bytes)
  ultimately have bytes: "bytesAt (\<lambda>a. ucast a) (0x110 :: u64) 8 = PutUint64 ?a" by simp
  have byte: "bytesAt (\<lambda>a. ucast a) ?a (nat 1) = [16]" by (simp add: bytesAt_def)
  have "stored (procParser (tracee argCtl) (process argState)) (UintType 1) [16] (Scalar (UintType 1) (Uint8Value 16))"
    by (rule st_scalar) simp
  then have "stored (procParser (tracee argCtl) (process argState)) (PtrType 8 (Ref 0)) (PutUint64 ?a)
      (PtrValue (PtrType 8 (Ref 0)) ?a (Some (Scalar (UintType 1) (Uint8Value 16))))"
    by (intro st_pointer [where n = 0]) (simp_all add: argCtl_parser byte del: nat_1 One_nat_def)
  moreover have "dec_nat 16 = ''16''" by code_simp
  ultimately show ?thesis
    unfolding argShown_def
    by (intro exI [of _ "''&16''"]) (auto simp: argCtl_reads bytes)
qed

definition argFrame :: StackFrame where
  "argFrame = \<lparr>frameFunction = simG,
           InputArguments = [\<lparr>argName = ''a'', argTyp = UintType 1, argAddr = 0x108, argExists = True\<rparr>,
             \<lparr>argName = ''p'', argTyp = PtrType 8 (Ref 0), argAddr = 0x110, argExists = True\<rparr>],
           OutputArguments = [\<lparr>argName = ''r'', argTyp = UintType 1, argAddr = 0x118, argExists = True\<rparr>],
           ReturnAddress = word64At (\<lambda>a. ucast a) 0x100\<rparr>"

lemma argCtl_frame:
  "procFindFunction 20 (tracee argCtl) 0x20 (process argState) = Ok simG"
  "StackFrameAt 20 (tracee argCtl) 0x100 0x20 (process argState) = Ok argFrame"
proof -
  show f: "procFindFunction 20 (tracee argCtl) 0x20 (process argState) = Ok simG"
    by (simp add: procFindFunction_def FindFunction_def argCtl_def simG_def
      fillInOutputParameters_def canFillInOutputParameters_def fillInUnknownParameter_def
      canFillInUnknownParameter_def)
  show "StackFrameAt 20 (tracee argCtl) 0x100 0x20 (process argState) = Ok argFrame"
    unfolding StackFrameAt_def f
    by (simp add: argCtl_reads currentArgs_def argumentOf_def simG_def argFrame_def)
qed

theorem traced_calls_show_their_arguments_witness:
  "\<exists>sf n0. StackFrameAt 20 (tracee argCtl) 0x100 0x20 (process argState) = Ok sf \<and>
     (\<forall>n. outputWriter (snd (printFunctionInput (argCtl\<lparr>fuelOf := n0 + n\<rparr>) 7 sf 2 argState))
            = [''|'' @ [CHR 0x5C] @ '' (#07) main.g(a = 8, p = &16) (...)'' @ [CHR 0x0A]]
        \<and> outputWriter (snd (printFunctionOutput (argCtl\<lparr>fuelOf := n0 + n\<rparr>) 7 sf 2 argState))
            = [''|/ (#07) main.g(a = 8, p = &16) (r = 24)'' @ [CHR 0x0A]])"
proof -
  have strings: "''a'' @ '' = '' @ dec_nat (unat (ucast (0x108 :: u64) :: u8)) = ''a = 8''"
    "''r'' @ '' = '' @ dec_nat (unat (ucast (0x118 :: u64) :: u8)) = ''r = 24''"
    by code_simp+
  have lines: "callLine 1 7 ''main.g'' [''a = 8'', ''p = &16''] True
      = ''|'' @ [CHR 0x5C] @ '' (#07) main.g(a = 8, p = &16) (...)'' @ [CHR 0x0A]"
    "returnLine 1 7 ''main.g'' [''a = 8'', ''p = &16''] [''r = 24'']
      = ''|/ (#07) main.g(a = 8, p = &16) (r = 24)'' @ [CHR 0x0A]"
    by code_simp+
  note shown = byte_shown [of "''a''" "0x108", unfolded strings] byte_shown [of "''r''" "0x118", unfolded strings] pointer_shown
  have name: "Name simG = ''main.g''" by (simp add: simG_def)
  have level: "parseLevel argState = 1" and out: "outputWriter argState = []"
    by (simp_all add: argState_def freshCtl_def NewController_def)
  have ins: "list_all2 (\<lambda>param. argShown (tracee argCtl) (process argState) (parseLevel argState) (argumentOf (0x100 + 8) param))
      (filter (\<lambda>param. \<not> IsOutput param) (Parameters simG)) [''a = 8'', ''p = &16'']"
    using shown by (simp add: level simG_def argumentOf_def)
  have outs: "list_all2 (\<lambda>param. argShown (tracee argCtl) (process argState) (parseLevel argState) (argumentOf (0x100 + 8) param))
      (filter IsOutput (Parameters simG)) [''r = 24'']"
    using shown by (simp add: level simG_def argumentOf_def)
  have "0 \<le> parseLevel argState" by (simp add: level)
  from traced_calls_show_their_arguments [OF argCtl_frame ins outs this, of 7 1] obtain n0 where
    "\<forall>n. printFunctionInput (argCtl\<lparr>fuelOf := n0 + n\<rparr>) 7 argFrame (int (Suc 1)) argState
        = (Ok (), argState\<lparr>outputWriter := outputWriter argState
            @ [callLine 1 7 (Name simG) [''a = 8'', ''p = &16''] ([''r = 24''] \<noteq> [])]\<rparr>)
      \<and> printFunctionOutput (argCtl\<lparr>fuelOf := n0 + n\<rparr>) 7 argFrame (int (Suc 1)) argState
        = (Ok (), argState\<lparr>outputWriter := outputWriter argState
            @ [returnLine 1 7 (Name simG) [''a = 8'', ''p = &16''] [''r = 24'']]\<rparr>)"
    by blast
  then have "\<forall>n. outputWriter (snd (printFunctionInput (argCtl\<lparr>fuelOf := n0 + n\<rparr>) 7 argFrame 2 argState))
        = [callLine 1 7 ''main.g'' [''a = 8'', ''p = &16''] True]
      \<and> outputWriter (snd (printFunctionOutput (argCtl\<lparr>fuelOf := n0 + n\<rparr>) 7 argFrame 2 argState))
        = [returnLine 1 7 ''main.g'' [''a = 8'', ''p = &16''] [''r = 24'']]"
    by (simp add: out name)
  then show ?thesis unfolding lines using argCtl_frame(2) by blast
qed

end
