(* ===== verification/ValueTypes.thy ===== *)
theory ValueTypes
  imports ValueLayout
begin

text \<open>
  The types of parsed values (tracee/value.go): whatever the bytes are, a value the parser
  returns has the shape its DWARF type says, so that the type assertions of the callers hold.
\<close>

section \<open>Values of a type\<close>

text \<open>The type behind the names given to it, the target of a pointer, and the type of a field (the last of its name).\<close>

fun underlying :: "dtype \<Rightarrow> dtype" where
  "underlying (TypedefType name t) = underlying t"
| "underlying t = t"

definition pointee :: "(nat \<Rightarrow> dtype) \<Rightarrow> dtype \<Rightarrow> dtype option" where
  "pointee T t = (case underlying t of PtrType n (Ref k) \<Rightarrow> Some (T k) | _ \<Rightarrow> None)"

definition fieldTypeOf :: "structField list \<Rightarrow> string \<rightharpoonup> dtype" where
  "fieldTypeOf fs = map_of (rev (map (\<lambda>f. (fieldName f, fieldType f)) fs))"

definition elemOf :: "dtype \<Rightarrow> dtype option" where
  "elemOf t = (case underlying t of ArrayType cnt elem \<Rightarrow> Some elem | _ \<Rightarrow> None)"

text \<open>The types of the keys and the values of a bucket of a map, and of a map.\<close>

definition bucketTypes :: "(nat \<Rightarrow> dtype) \<Rightarrow> dtype \<Rightarrow> (dtype \<times> dtype) option" where
  "bucketTypes T bt =
     Option.bind (pointee T bt) (\<lambda>bucket. let fs = fieldsOf (underlying bucket) in
     Option.bind (Option.bind (fieldTypeOf fs ''keys'') elemOf) (\<lambda>kt.
     Option.bind (Option.bind (fieldTypeOf fs ''values'') elemOf) (\<lambda>vt. Some (kt, vt))))"

definition entryTypes :: "(nat \<Rightarrow> dtype) \<Rightarrow> dtype \<Rightarrow> (dtype \<times> dtype) option" where
  "entryTypes T inner =
     Option.bind (pointee T inner) (\<lambda>hmap.
     Option.bind (fieldTypeOf (fieldsOf (underlying hmap)) ''buckets'') (bucketTypes T))"

fun scalarFits :: "dtype \<Rightarrow> scalar \<Rightarrow> bool" where
  "scalarFits (IntType n) s = (case s of Int8Value w \<Rightarrow> n = 1 | Int16Value w \<Rightarrow> n = 2 | Int32Value w \<Rightarrow> n = 4
     | Int64Value w \<Rightarrow> n = 8 | VoidValue bs \<Rightarrow> n \<notin> {1, 2, 4, 8} | _ \<Rightarrow> False)"
| "scalarFits (UintType n) s = (case s of Uint8Value w \<Rightarrow> n = 1 | Uint16Value w \<Rightarrow> n = 2 | Uint32Value w \<Rightarrow> n = 4
     | Uint64Value w \<Rightarrow> n = 8 | VoidValue bs \<Rightarrow> n \<notin> {1, 2, 4, 8} | _ \<Rightarrow> False)"
| "scalarFits (FloatType n) s = (case s of Float32Value w \<Rightarrow> n = 4 | Float64Value w \<Rightarrow> n = 8
     | VoidValue bs \<Rightarrow> n \<notin> {4, 8} | _ \<Rightarrow> False)"
| "scalarFits (ComplexType n) s = (case s of Complex64Value re im \<Rightarrow> n = 8 | Complex128Value re im \<Rightarrow> n = 16
     | VoidValue bs \<Rightarrow> n \<notin> {8, 16} | _ \<Rightarrow> False)"
| "scalarFits (BoolType n) s = (\<exists>b. s = BoolValue b)"
| "scalarFits (FuncType n) s = (\<exists>a. s = FuncValue a)"
| "scalarFits (StructType name n fs) s = (name = ''string'' \<and> (\<exists>t. s = StringValue t))"
| "scalarFits (ArrayType cnt elem) s = (cnt = -1 \<and> (\<exists>bs. s = VoidValue bs))"
| "scalarFits VoidType s = (\<exists>bs. s = VoidValue bs)"
| "scalarFits (OtherType n) s = (\<exists>bs. s = VoidValue bs)"
| "scalarFits t s = False"

inductive conforms :: "(nat \<Rightarrow> dtype) \<Rightarrow> dtype \<Rightarrow> val \<Rightarrow> bool" for T where
  cf_scalar: "scalarFits t s \<Longrightarrow> conforms T t (Scalar t s)"
| cf_nil: "t = PtrType n r \<Longrightarrow> conforms T t (PtrValue t a None)"
| cf_pointer: "t = PtrType n (Ref k) \<Longrightarrow> conforms T (T k) v \<Longrightarrow> conforms T t (PtrValue t a (Some v))"
| cf_abbreviated: "t = StructType name n fs \<Longrightarrow> plainStruct name \<Longrightarrow> conforms T t (StructValue t [] True)"
| cf_struct:
    "t = StructType name n fs \<Longrightarrow> plainStruct name \<Longrightarrow> distinct (map fst us)
     \<Longrightarrow> set (map fst us) = set (map fieldName fs)
     \<Longrightarrow> list_all (\<lambda>u. \<exists>ft. fieldTypeOf fs (fst u) = Some ft \<and> conforms T ft (snd u)) us
     \<Longrightarrow> conforms T t (StructValue t us False)"
| cf_array:
    "t = ArrayType cnt elem \<Longrightarrow> cnt \<noteq> -1 \<Longrightarrow> length vs = nat cnt \<Longrightarrow> list_all (conforms T elem) vs
     \<Longrightarrow> conforms T t (ArrayValue t vs)"
| cf_slice:
    "t = StructType name n fs \<Longrightarrow> HasPrefix name ''[]''
     \<Longrightarrow> list_all (\<lambda>v. \<forall>w. v = Some w \<longrightarrow> (\<exists>arr elem. fieldTypeOf fs ''array'' = Some arr
           \<and> pointee T arr = Some elem \<and> conforms T elem w)) vs
     \<Longrightarrow> conforms T t (SliceValue t vs)"
| cf_named: "\<not> HasPrefix name ''map['' \<Longrightarrow> conforms T t v \<Longrightarrow> conforms T (TypedefType name t) v"
| cf_nil_interface:
    "t = StructType name n fs \<Longrightarrow> name \<in> {''runtime.iface'', ''runtime.eface''} \<Longrightarrow> conforms T t (InterfaceValue t None abbr)"
| cf_interface:
    "t = StructType name n fs \<Longrightarrow> name \<in> {''runtime.iface'', ''runtime.eface''} \<Longrightarrow> conforms T impl v
     \<Longrightarrow> conforms T t (InterfaceValue t (Some (impl, v)) False)"
| cf_map:
    "t = TypedefType name inner \<Longrightarrow> HasPrefix name ''map[''
     \<Longrightarrow> list_all (\<lambda>kv. \<exists>kt vt. entryTypes T inner = Some (kt, vt) \<and> conforms T kt (fst kv) \<and> conforms T vt (snd kv)) kvs
     \<Longrightarrow> conforms T t (MapValue t kvs)"

section \<open>What a conforming value tells of its type\<close>

inductive_cases conforms_ptrE: "conforms T t (PtrValue pt a p)"
inductive_cases conforms_structE: "conforms T t (StructValue st us abbr)"
inductive_cases conforms_arrayE: "conforms T t (ArrayValue at vs)"

lemma underlying_idem [simp]: "underlying (underlying t) = underlying t"
  by (induction t) simp_all

lemma pointee_under [simp]: "pointee T (underlying t) = pointee T t"
  by (simp add: pointee_def)

lemma bucketTypes_under [simp]: "bucketTypes T (underlying t) = bucketTypes T t"
  by (simp add: bucketTypes_def)

definition fieldsFit :: "(nat \<Rightarrow> dtype) \<Rightarrow> structField list \<Rightarrow> (string \<times> val) list \<Rightarrow> bool" where
  "fieldsFit T fs us \<longleftrightarrow> distinct (map fst us) \<and> set (map fst us) = set (map fieldName fs)
     \<and> (\<forall>u\<in>set us. \<exists>ft. fieldTypeOf fs (fst u) = Some ft \<and> conforms T ft (snd u))"

lemma conforms_ptr:
  assumes "conforms T t (PtrValue pt a p)"
  shows "pt = underlying t \<and> (\<forall>w. p = Some w \<longrightarrow> (\<exists>e. pointee T t = Some e \<and> conforms T e w))"
  using assms
proof (induction t "PtrValue pt a p" rule: conforms.induct)
qed (auto simp: pointee_def)

lemma conforms_struct:
  assumes "conforms T t (StructValue st us False)"
  shows "st = underlying t \<and> fieldsFit T (fieldsOf (underlying t)) us"
  using assms
proof (induction t "StructValue st us False" rule: conforms.induct)
qed (auto simp: fieldsFit_def list_all_iff)

lemma conforms_array:
  assumes "conforms T t (ArrayValue at vs)"
  shows "\<exists>elem. elemOf t = Some elem \<and> list_all (conforms T elem) vs"
  using assms
proof (induction t "ArrayValue at vs" rule: conforms.induct)
qed (auto simp: elemOf_def list_all_iff)

lemma fieldsFit_at:
  "fieldsFit T fs us \<Longrightarrow> map_of us name = Some v \<Longrightarrow> \<exists>ft. fieldTypeOf fs name = Some ft \<and> conforms T ft v"
  unfolding fieldsFit_def by (auto dest!: map_of_SomeD bspec)

section \<open>The parser\<close>

definition sound :: "(nat \<Rightarrow> dtype) \<Rightarrow> parser \<Rightarrow> bool" where
  "sound T pv \<longleftrightarrow> (\<forall>t bs d v. pv t bs d = Ok v \<longrightarrow> conforms T t v)"

lemma soundD: "sound T pv \<Longrightarrow> pv t bs d = Ok v \<Longrightarrow> conforms T t v"
  by (simp add: sound_def)

lemma fieldTypeOf_append: "fieldTypeOf (fs @ [f]) name = (if name = fieldName f then Some (fieldType f) else fieldTypeOf fs name)"
  by (simp add: fieldTypeOf_def)

lemma parseFields_fit:
  assumes "sound T pv" and "parseFields pv fs bs d acc = Ok us" and "fieldsFit T ds acc"
  shows "fieldsFit T (ds @ fs) us"
  using assms(2,3)
proof (induction fs arbitrary: ds acc)
  case Nil
  then show ?case by simp
next
  case (Cons f fs)
  then obtain raw u where raw: "sliceField bs f = Ok raw" and u: "pv (fieldType f) raw d = Ok u"
    and rest: "parseFields pv fs bs d (filter (\<lambda>g. fst g \<noteq> fieldName f) acc @ [(fieldName f, u)]) = Ok us"
    by (auto simp: bindO_Ok)
  have "conforms T (fieldType f) u" using assms(1) u by (rule soundD)
  moreover have "fst ` set (filter (\<lambda>g. fst g \<noteq> fieldName f) acc) = fst ` set acc - {fieldName f}" by force
  ultimately have "fieldsFit T (ds @ [f]) (filter (\<lambda>g. fst g \<noteq> fieldName f) acc @ [(fieldName f, u)])"
    using Cons.prems(2) unfolding fieldsFit_def
    by (simp add: fieldTypeOf_append distinct_map_filter flip: insert_is_Un)
  from Cons.IH [OF rest this] show ?case by simp
qed

lemma parseStructValue_fits:
  assumes "sound T pv" and "parseStructValue pv t bs d = Ok v"
  shows "v = StructValue t [] True \<or> (\<exists>us. v = StructValue t us False \<and> fieldsFit T (fieldsOf t) us)"
proof (cases "d \<le> 0")
  case True
  then show ?thesis using assms(2) by (simp add: parseStructValue_def)
next
  case False
  then obtain us where us: "parseFields pv (fieldsOf t) bs (d - 1) [] = Ok us" "v = StructValue t us False"
    using assms(2) by (auto simp: parseStructValue_def bindO_Ok)
  from parseFields_fit [OF assms(1) us(1), of "[]"] us(2) show ?thesis by (simp add: fieldsFit_def)
qed

lemma fieldOf_fits:
  assumes "v = StructValue t [] True \<or> (\<exists>us. v = StructValue t us False \<and> fieldsFit T fs us)"
    and "fieldOf name v = Ok u"
  shows "\<exists>ft. fieldTypeOf fs name = Some ft \<and> conforms T ft u"
  using assms fieldsFit_at [of T fs _ name u] by (auto simp: fieldOf_def split: option.splits)

lemma asPtr_Ok [simp]: "asPtr v = Ok (t, a, p) \<longleftrightarrow> v = PtrValue t a p"
  by (cases v) auto

lemma asArray_Ok [simp]: "asArray v = Ok vs \<longleftrightarrow> (\<exists>t. v = ArrayValue t vs)"
  by (cases v) auto

lemma sliceElems_conform:
  assumes "sound T pv" and "sliceElems pv pt a first d is = Ok vs"
  shows "list_all (\<lambda>v. \<forall>w. v = Some w \<longrightarrow> (\<exists>elem. pointee T pt = Some elem \<and> conforms T elem w)) vs"
  using assms(2)
proof (induction "is" arbitrary: vs)
  case Nil
  then show ?case by simp
next
  case (Cons i "is")
  then obtain u elem t b p rest where "pv pt (PutUint64 (a + of_int (valueSize u) * of_nat i)) d = Ok (PtrValue t b p)"
    and rest: "sliceElems pv pt a first d is = Ok rest" and vs: "vs = p # rest"
    by (auto simp: bindO_Ok)
  then have "conforms T pt (PtrValue t b p)" using assms(1) soundD by blast
  from conforms_ptr [OF this] Cons.IH [OF rest] vs show ?case by simp
qed

lemma parseSliceValue_conforms:
  assumes "sound T pv" and t: "t = StructType name n fs" and "HasPrefix name ''[]''"
    and run: "parseSliceValue pv t bs d = Ok v"
  shows "conforms T t v"
proof -
  obtain sv len where sv: "parseStructValue pv t bs (d + 1) = Ok sv" and len: "bindO (fieldOf ''len'' sv) asInt64 = Ok len"
    using run by (auto simp: parseSliceValue_def bindO_Ok)
  show ?thesis
  proof (cases "len = 0")
    case True
    then have "v = SliceValue t []" using run sv len by (auto simp: parseSliceValue_def bindO_Ok)
    then show ?thesis using cf_slice [OF t assms(3), of T "[]"] by simp
  next
    case False
    then obtain pt a first rest where arr: "fieldOf ''array'' sv = Ok (PtrValue pt a first)"
      and rest: "sliceElems pv pt a first d [1..<nat len] = Ok rest" and v: "v = SliceValue t (first # rest)"
      using run sv len by (auto simp: parseSliceValue_def bindO_Ok)
    from fieldOf_fits [OF parseStructValue_fits [OF assms(1) sv] arr] obtain ft where
      ft: "fieldTypeOf fs ''array'' = Some ft" "conforms T ft (PtrValue pt a first)" by (auto simp: t)
    from conforms_ptr [OF ft(2)] ft(1) sliceElems_conform [OF assms(1) rest]
    show ?thesis unfolding v by (intro cf_slice [OF t assms(3)]) (auto simp: list_all_iff)
  qed
qed

lemma readOr_Ok:
  "readOr b a n otherwise k = Ok v \<longleftrightarrow>
     (\<exists>buff. reader b a n = Ok buff \<and> k buff = Ok v) \<or> (\<exists>e. reader b a n = Fail e \<and> v = otherwise)"
  by (auto simp: readOr_def split: outcome.splits)

lemma parseImpl_conforms:
  assumes "sound T pv" and "t = StructType name n fs" and "name \<in> {''runtime.iface'', ''runtime.eface''}"
    and run: "parseImpl b pv f t a sv d = Ok v"
  shows "conforms T t v"
proof (cases "f a")
  case (Ok impl)
  have "v = InterfaceValue t None False
      \<or> (\<exists>buff u. pv impl buff d = Ok u \<and> v = InterfaceValue t (Some (impl, u)) False)"
    using run Ok by (cases impl) (auto simp: parseImpl_def bindO_Ok readOr_Ok)
  then show ?thesis
    using soundD [OF assms(1)] cf_nil_interface [OF assms(2,3)] cf_interface [OF assms(2,3)] by blast
qed (use run cf_nil_interface [OF assms(2,3)] in \<open>auto simp: parseImpl_def\<close>)

lemma parseInterfaceValue_conforms:
  assumes "sound T pv" and "t = StructType name n fs" and "name \<in> {''runtime.iface'', ''runtime.eface''}"
    and run: "parseInterfaceValue b pv t bs d = Ok v"
  shows "conforms T t v"
proof -
  obtain sv pt ta p where "parseStructValue pv t bs 2 = Ok sv" "fieldOf ''tab'' sv = Ok (PtrValue pt ta p)"
    using run by (auto simp: parseInterfaceValue_def bindO_Ok)
  with run show ?thesis
    using parseImpl_conforms [OF assms(1-3)] cf_nil_interface [OF assms(2,3)]
    by (cases p; cases "mapRuntimeType b") (auto simp: parseInterfaceValue_def bindO_Ok)
qed

lemma parseEmptyInterfaceValue_conforms:
  assumes "sound T pv" and "t = StructType name n fs" and "name \<in> {''runtime.iface'', ''runtime.eface''}"
    and run: "parseEmptyInterfaceValue b pv t bs d = Ok v"
  shows "conforms T t v"
proof -
  obtain sv pt da p where "parseStructValue pv t bs 1 = Ok sv" "fieldOf ''data'' sv = Ok (PtrValue pt da p)"
    using run by (auto simp: parseEmptyInterfaceValue_def bindO_Ok)
  with run show ?thesis
    using parseImpl_conforms [OF assms(1-3)] cf_nil_interface [OF assms(2,3)]
    by (cases "da = 0"; cases "mapRuntimeType b") (auto simp: parseEmptyInterfaceValue_def bindO_Ok)
qed

lemma parseElems_conform:
  assumes "sound T pv" and "parseElems pv elem bs d is = Ok vs"
  shows "length vs = length is \<and> list_all (conforms T elem) vs"
  using assms(2) soundD [OF assms(1)]
  by (induction "is" arbitrary: vs) (auto simp: bindO_Ok)

section \<open>Maps\<close>

definition entryFits :: "(nat \<Rightarrow> dtype) \<Rightarrow> (dtype \<times> dtype) option \<Rightarrow> val \<times> val \<Rightarrow> bool" where
  "entryFits T types kv \<longleftrightarrow> (\<exists>kt vt. types = Some (kt, vt) \<and> conforms T kt (fst kv) \<and> conforms T vt (snd kv))"

abbreviation entriesFit :: "(nat \<Rightarrow> dtype) \<Rightarrow> dtype \<Rightarrow> (val \<times> val) list \<Rightarrow> bool" where
  "entriesFit T bt \<equiv> list_all (entryFits T (bucketTypes T bt))"

lemma mapPut_all: "mapPut k v acc = Ok kvs \<Longrightarrow> list_all P acc \<Longrightarrow> P (k, v) \<Longrightarrow> list_all P kvs"
  by (auto simp: mapPut_def list_all_iff split: if_splits)

lemma mapPutAll_all: "mapPutAll new acc = Ok kvs \<Longrightarrow> list_all P new \<Longrightarrow> list_all P acc \<Longrightarrow> list_all P kvs"
proof (induction new arbitrary: acc)
  case (Cons kv new)
  then obtain acc' where "mapPut (fst kv) (snd kv) acc = Ok acc'" "mapPutAll new acc' = Ok kvs"
    by (cases kv) (auto simp: bindO_Ok)
  with Cons mapPut_all [of "fst kv" "snd kv" acc acc' P] show ?case by simp
qed simp

lemma bucketItems_all:
  assumes "bucketItems hs ks vs j acc = Ok kvs" and "list_all P acc"
    and "\<forall>i. i < length ks \<longrightarrow> i < length vs \<longrightarrow> P (ks ! i, vs ! i)"
  shows "list_all P kvs"
  using assms
proof (induction hs arbitrary: j acc)
  case (Cons h hs)
  then obtain w where w: "asUint8 h = Ok w" by (auto simp: bindO_Ok)
  show ?case
  proof (cases "w = 0")
    case True
    with Cons w show ?thesis by (auto simp: bindO_Ok)
  next
    case False
    then have j: "j < length ks" "j < length vs" using Cons.prems(1) w by (auto split: if_splits)
    then obtain acc' where "mapPut (ks ! j) (vs ! j) acc = Ok acc'" "bucketItems hs ks vs (Suc j) acc' = Ok kvs"
      using Cons.prems(1) w False by (auto simp: bindO_Ok)
    with Cons j mapPut_all [of "ks ! j" "vs ! j" acc acc' P] show ?thesis by blast
  qed
qed simp

lemma conforms_abbreviated: "conforms T t (StructValue st us True) \<Longrightarrow> us = []"
  by (induction t "StructValue st us True" rule: conforms.induct) simp_all

lemma parseBucket_fits:
  assumes "sound T pv" and "parseBucket fuel pv bt a p d = Ok kvs"
    and "conforms T bt (PtrValue bt a p)"
  shows "entriesFit T bt kvs"
  using assms(2,3)
proof (induction fuel arbitrary: bt a p kvs)
  case 0
  then show ?case by simp
next
  case (Suc fuel)
  show ?case
  proof (cases "a = 0")
    case True
    then show ?thesis using Suc.prems by simp
  next
    case False
    then obtain bucket hs ks vs kt vt own ot oa op where p: "p = Some bucket"
      and ks: "fieldOf ''keys'' bucket = Ok (ArrayValue kt ks)"
      and vs: "fieldOf ''values'' bucket = Ok (ArrayValue vt vs)"
      and own: "bucketItems hs ks vs 0 [] = Ok own"
      and over: "(if oa = 0 then Ok own
          else bindO (bindO (pv bt (PutUint64 oa) (d + 1)) asPtr) (\<lambda>(bt', a', p').
            bindO (parseBucket fuel pv bt' a' p' d) (\<lambda>rest. mapPutAll rest own))) = Ok kvs"
      using Suc.prems(1) by (auto simp: bindO_Ok pointedBy_def split: option.splits prod.splits)
    obtain e where e: "pointee T bt = Some e" "conforms T e bucket"
      using conforms_ptr [OF Suc.prems(2)] p by auto
    obtain st us abbr where st: "bucket = StructValue st us abbr"
      using ks by (auto simp: fieldOf_def split: val.splits)
    have "\<not> abbr" using conforms_abbreviated [of T e st us] e(2) ks by (cases abbr) (auto simp: st fieldOf_def)
    then have fits: "fieldsFit T (fieldsOf (underlying e)) us" using conforms_struct [of T e st us] e(2) by (cases abbr) (simp_all add: st)
    obtain kft where kft: "fieldTypeOf (fieldsOf (underlying e)) ''keys'' = Some kft" "conforms T kft (ArrayValue kt ks)"
      using fieldsFit_at [OF fits, of "''keys''"] ks by (auto simp: st fieldOf_def split: option.splits)
    obtain vft where vft: "fieldTypeOf (fieldsOf (underlying e)) ''values'' = Some vft" "conforms T vft (ArrayValue vt vs)"
      using fieldsFit_at [OF fits, of "''values''"] vs by (auto simp: st fieldOf_def split: option.splits)
    obtain k v where kv: "elemOf kft = Some k" "list_all (conforms T k) ks" "elemOf vft = Some v" "list_all (conforms T v) vs"
      using conforms_array kft(2) vft(2) by blast
    have "bucketTypes T bt = Some (k, v)" by (simp add: bucketTypes_def e kft vft kv)
    then have "\<forall>i. i < length ks \<longrightarrow> i < length vs \<longrightarrow> entryFits T (bucketTypes T bt) (ks ! i, vs ! i)"
      using kv(2,4) by (simp add: entryFits_def list_all_length)
    then have own: "entriesFit T bt own" using bucketItems_all [OF own] by simp
    show ?thesis
    proof (cases "oa = 0")
      case True
      then show ?thesis using own over by simp
    next
      case False
      then obtain bt' a' p' rest where nxt: "pv bt (PutUint64 oa) (d + 1) = Ok (PtrValue bt' a' p')"
        and rest: "parseBucket fuel pv bt' a' p' d = Ok rest" and put: "mapPutAll rest own = Ok kvs"
        using over by (auto simp: bindO_Ok)
      have "conforms T bt (PtrValue bt' a' p')" using assms(1) nxt by (rule soundD)
      moreover have "bt' = bt"
        using conforms_ptr [OF calculation, THEN conjunct1] conforms_ptr [OF Suc.prems(2), THEN conjunct1] by (rule trans [OF _ sym])
      ultimately have bt': "bt' = bt" "conforms T bt (PtrValue bt a' p')" by simp_all
      show ?thesis using mapPutAll_all [OF put Suc.IH [OF rest [unfolded bt'(1)] bt'(2)] own] .
    qed
  qed
qed

lemma bucketLoop_fits:
  assumes "sound T pv" and "bucketLoop fuel pv n i bt a p d acc = Ok kvs"
    and "conforms T bt (PtrValue bt a p)" and "entriesFit T bt acc"
  shows "entriesFit T bt kvs"
  using assms(2-4)
proof (induction fuel arbitrary: i bt a p acc)
  case 0
  then show ?case by simp
next
  case (Suc fuel)
  then obtain items acc' where items: "parseBucket fuel pv bt a p d = Ok items" and acc': "mapPutAll items acc = Ok acc'"
    by (auto simp: bindO_Ok)
  have fit: "entriesFit T bt acc'"
    using mapPutAll_all [OF acc' parseBucket_fits [OF assms(1) items Suc.prems(2)] Suc.prems(3)] .
  show ?case
  proof (cases "i + 1 = n")
    case True
    then show ?thesis using Suc.prems(1) items acc' fit by simp
  next
    case False
    then obtain bucket where "pointedBy p = Ok bucket"
      using Suc.prems(1) items acc' by (auto simp: bindO_Ok)
    with False obtain st bt' a' p' where nxt: "pv bt (PutUint64 (a + of_int (typeSize st))) (d + 1) = Ok (PtrValue bt' a' p')"
      and rest: "bucketLoop fuel pv n (i + 1) bt' a' p' d acc' = Ok kvs"
      using Suc.prems(1) items acc' by (cases bucket) (auto simp: bindO_Ok)
    have "conforms T bt (PtrValue bt' a' p')" using assms(1) nxt by (rule soundD)
    moreover have "bt' = bt"
        using conforms_ptr [OF calculation, THEN conjunct1] conforms_ptr [OF Suc.prems(2), THEN conjunct1] by (rule trans [OF _ sym])
    ultimately have bt': "bt' = bt" "conforms T bt (PtrValue bt a' p')" by simp_all
    from Suc.IH [OF rest [unfolded bt'(1)] bt'(2) fit] show ?thesis .
  qed
qed

lemma parseMapValue_conforms:
  assumes "sound T pv" and t: "t = TypedefType name inner" and "HasPrefix name ''map[''"
    and run: "parseMapValue fuel pv t inner bs d = Ok v"
  shows "conforms T t v"
proof -
  obtain pt a m where m: "pv inner bs (d + 2) = Ok (PtrValue pt a m)"
    using run by (auto simp: parseMapValue_def bindO_Ok)
  show ?thesis
  proof (cases m)
    case None
    then have "v = MapValue t []" using run m by (simp add: parseMapValue_def)
    then show ?thesis using cf_map [OF t assms(3), of T "[]"] by simp
  next
    case (Some hmap)
    then obtain B bt ba p kvs where buckets: "fieldOf ''buckets'' hmap = Ok (PtrValue bt ba p)"
      and loop: "bucketLoop fuel pv (sint (push_bit (unat (B :: u8)) 1 :: u64)) 0 bt ba p d [] = Ok kvs"
      and v: "v = MapValue t kvs"
      using run m by (auto simp: parseMapValue_def bindO_Ok)
    obtain h where h: "pointee T inner = Some h" "conforms T h hmap"
      using conforms_ptr [OF soundD [OF assms(1) m]] Some by auto
    obtain st us abbr where st: "hmap = StructValue st us abbr"
      using buckets by (auto simp: fieldOf_def split: val.splits)
    have "\<not> abbr" using conforms_abbreviated [of T h st us] h(2) buckets by (cases abbr) (auto simp: st fieldOf_def)
    then have fits: "fieldsFit T (fieldsOf (underlying h)) us" using conforms_struct [of T h st us] h(2) by (cases abbr) (simp_all add: st)
    then obtain ft where ft: "fieldTypeOf (fieldsOf (underlying h)) ''buckets'' = Some ft" "conforms T ft (PtrValue bt ba p)"
      using fieldsFit_at [OF fits, of "''buckets''"] buckets by (auto simp: st fieldOf_def split: option.splits)
    have bt: "bt = underlying ft" using conforms_ptr [OF ft(2)] by simp
    have "conforms T bt (PtrValue bt ba p)"
      using ft(2) unfolding bt by (induction ft "PtrValue (underlying ft) ba p" rule: conforms.induct) (auto intro: conforms.intros)
    from bucketLoop_fits [OF assms(1) loop this] have "entriesFit T bt kvs" by simp
    moreover have "entryTypes T inner = bucketTypes T bt" by (simp add: entryTypes_def h ft bt)
    ultimately show ?thesis
      unfolding v by (intro cf_map [OF t assms(3)]) (simp add: list_all_iff entryFits_def)
  qed
qed

section \<open>Every type\<close>

lemma parsePtr_conforms:
  assumes "sound (vpTypeAt b) pv" and "parsePtr b pv (PtrType n r) r bs d = Ok v"
  shows "conforms (vpTypeAt b) (PtrType n r) v"
proof (cases r)
  case (Ref k)
  obtain a where a: "Uint64 bs = Ok a" using assms(2) by (auto simp: parsePtr_def bindO_Ok)
  have "(\<exists>c. v = PtrValue (PtrType n r) c None)
      \<or> (\<exists>buff w. pv (vpTypeAt b k) buff d = Ok w \<and> v = PtrValue (PtrType n r) a (Some w))"
    using assms(2) a Ref by (auto simp: parsePtr_def bindO_Ok readOr_Ok split: if_splits)
  then show ?thesis
    using soundD [OF assms(1)] Ref by (auto intro: cf_nil cf_pointer)
qed (use assms(2) in \<open>auto simp: parsePtr_def bindO_Ok intro: cf_nil split: if_splits\<close>)

lemma plainStruct_iff:
  "plainStruct name \<longleftrightarrow> name \<noteq> ''string'' \<and> \<not> HasPrefix name ''[]'' \<and> name \<notin> {''runtime.iface'', ''runtime.eface''}"
  by (auto simp: plainStruct_def)

lemma parseStep_conforms:
  assumes "sound (vpTypeAt b) pv" and run: "parseStep fuel b pv t bs d = Ok v"
  shows "conforms (vpTypeAt b) t v"
proof (cases t)
  case (StructType name n fs)
  consider "name = ''string''" | "HasPrefix name ''[]''" "name \<noteq> ''string''" | "name = ''runtime.iface''"
    | "name = ''runtime.eface''" | "plainStruct name"
    by (auto simp: plainStruct_iff)
  then show ?thesis
  proof cases
    case 1
    then have "\<exists>s. v = Scalar t (StringValue s)"
      using run StructType by (auto simp: parseStep_def parseStringValue_def bindO_Ok readOr_Ok)
    then show ?thesis using 1 StructType by (auto intro: cf_scalar)
  next
    case 2
    then show ?thesis
      using run StructType parseSliceValue_conforms [OF assms(1) StructType] by (simp add: parseStep_def)
  next
    case 3
    then show ?thesis
      using run StructType parseInterfaceValue_conforms [OF assms(1) StructType] by (simp add: parseStep_def HasPrefix_def)
  next
    case 4
    then show ?thesis
      using run StructType parseEmptyInterfaceValue_conforms [OF assms(1) StructType] by (simp add: parseStep_def HasPrefix_def)
  next
    case 5
    then have "parseStructValue pv t bs d = Ok v" using run StructType by (auto simp: parseStep_def plainStruct_def)
    from parseStructValue_fits [OF assms(1) this] show ?thesis
      using cf_abbreviated [OF StructType 5] cf_struct [OF StructType 5] StructType
      by (auto simp: fieldsFit_def list_all_iff)
  qed
next
  case (PtrType n r)
  then show ?thesis using run parsePtr_conforms [OF assms(1)] by (simp add: parseStep_def)
next
  case (ArrayType cnt elem)
  show ?thesis
  proof (cases "cnt = -1")
    case True
    then show ?thesis using run ArrayType by (auto simp: parseStep_def intro: cf_scalar)
  next
    case False
    then obtain vs where "parseElems pv elem bs d [0..<nat cnt] = Ok vs" "v = ArrayValue t vs"
      using run ArrayType by (auto simp: parseStep_def bindO_Ok)
    with parseElems_conform [OF assms(1)] show ?thesis
      by (auto intro!: cf_array [OF ArrayType False])
  qed
next
  case (TypedefType name t')
  show ?thesis
  proof (cases "HasPrefix name ''map[''")
    case True
    then show ?thesis
      using run TypedefType parseMapValue_conforms [OF assms(1) TypedefType] by (simp add: parseStep_def)
  next
    case False
    then show ?thesis
      using run TypedefType soundD [OF assms(1)] by (auto simp: parseStep_def intro: cf_named)
  qed
qed (use run in \<open>auto simp: parseStep_def bindO_Ok intro!: cf_scalar split: if_splits\<close>)

lemma parseValue_sound: "sound (vpTypeAt b) (parseValue fuel b)"
proof (induction fuel)
  case 0
  then show ?case by (simp add: sound_def)
next
  case (Suc fuel)
  then show ?case using parseStep_conforms by (auto simp: sound_def)
qed

text \<open>
  C12: whatever bytes the parser is given, and whatever the memory behind them holds, a value it
  returns has the shape of its DWARF type: the number of its width, a pointer to a value of the
  type pointed to, a struct with exactly the fields of the type, each of its type, or left out,
  an array of the length and element type, a slice and a map with elements, keys and values of
  one type, an interface with a value of its dynamic type. The type assertions on the parts of
  parsed values therefore fail only where a type is not the one of the Go runtime.
\<close>

theorem parsed_values_conform:
  assumes "parseValue fuel b t bs d = Ok v"
  shows "conforms (vpTypeAt b) t v"
  using soundD [OF parseValue_sound assms] .

theorem parsed_values_conform_witness:
  "conforms (\<lambda>_. IntType 8) (intSliceType 7) (SliceValue (intSliceType 7)
       [Some (Scalar (IntType 8) (Int64Value 16)), Some (Scalar (IntType 8) (Int64Value 1))])"
  using parsed_values_conform [OF int_slice_reads_its_array_witness] by simp

end
