(* ===== verification/ValueTermination.thy ===== *)
theory ValueTermination
  imports ValueTypes
begin

text \<open>
  Termination of the parser (tracee/value.go), for types without interfaces and maps. The remaining
  depth falls at the fields of a struct only, so the parser returns for the types whose other
  parts - targets of pointers, elements of arrays and slices - lead down a rank; a type that leads
  to itself without a struct between is followed for ever when the memory is cyclic. Interfaces and
  maps are left out because the memory decides how far they are followed: an interface can hold a
  pointer to itself, and the overflow buckets of a map can form a cycle.
\<close>

section \<open>Calls that return\<close>

definition returns :: "'a outcome \<Rightarrow> bool" where
  "returns r \<longleftrightarrow> r \<noteq> OutOfFuel"

definition returnsAt :: "parser \<Rightarrow> dtype \<Rightarrow> int \<Rightarrow> bool" where
  "returnsAt pv t d \<longleftrightarrow> (\<forall>bs. returns (pv t bs d))"

named_theorems returning \<open>introduction rules for observations that return\<close>

lemma outcome_returns [simp]: "returns (Ok a)" "returns (Fail e)" "returns Panic" "\<not> returns OutOfFuel"
  by (simp_all add: returns_def)

lemma bindO_returns [returning]: "returns r \<Longrightarrow> (\<And>a. r = Ok a \<Longrightarrow> returns (f a)) \<Longrightarrow> returns (bindO r f)"
  by (cases r) auto

lemma returnsAtD: "returnsAt pv t d \<Longrightarrow> returns (pv t bs d)"
  by (simp add: returnsAt_def)

lemma words_return [returning]:
  "returns (Uint16 bs)" "returns (Uint32 bs)" "returns (Uint64 bs)" "returns (firstByte bs)"
  by (auto simp: Uint16_def Uint32_def Uint64_def firstByte_def split: list.splits)

lemma slices_return [returning]:
  "returns (subslice bs lo hi)" "returns (makeSize n)" "returns (sliceField bs f)" "returns (bufferSize t)"
  by (auto simp: subslice_def makeSize_def sliceField_def bufferSize_def Let_def)

lemma assertions_return [returning]:
  "returns (asPtr v)" "returns (asInt64 v)" "returns (fieldOf name v)" "returns (pointedBy p)"
proof -
  show "returns (asPtr v)" by (cases v) auto
  show "returns (asInt64 v)" by (induction v rule: asInt64.induct) auto
  show "returns (fieldOf name v)" by (auto simp: fieldOf_def split: val.splits option.splits)
  show "returns (pointedBy p)" by (cases p) (auto simp: pointedBy_def)
qed

definition readsReturn :: "valueParser \<Rightarrow> bool" where
  "readsReturn b \<longleftrightarrow> (\<forall>a n. returns (reader b a n))"

lemma readOr_returns [returning]:
  assumes "readsReturn b" and "\<And>buff. returns (k buff)"
  shows "returns (readOr b a n v k)"
proof -
  have "returns (reader b a n)" using assms(1) by (simp add: readsReturn_def)
  then show ?thesis using assms(2) by (cases "reader b a n") (auto simp: readOr_def)
qed

section \<open>The parts of a type\<close>

text \<open>
  The types whose values are parsed at the depth of the type itself, those parsed one level
  down, and the types whose parsing does not depend on types found in memory and whose loops
  are bounded: all but interfaces and maps.
\<close>

definition sameDepth :: "(nat \<Rightarrow> dtype) \<Rightarrow> dtype \<Rightarrow> dtype list" where
  "sameDepth T t = (case t of
       PtrType n (Ref k) \<Rightarrow> [T k]
     | ArrayType cnt elem \<Rightarrow> if cnt = -1 then [] else [elem]
     | TypedefType name u \<Rightarrow> [u]
     | StructType name n fs \<Rightarrow> if HasPrefix name ''[]'' then map fieldType fs else []
     | _ \<Rightarrow> [])"

definition oneDeeper :: "dtype \<Rightarrow> dtype list" where
  "oneDeeper t = (case t of StructType name n fs \<Rightarrow> if plainStruct name then map fieldType fs else [] | _ \<Rightarrow> [])"

definition staticType :: "dtype \<Rightarrow> bool" where
  "staticType t = (case t of
       StructType name n fs \<Rightarrow> name \<notin> {''runtime.iface'', ''runtime.eface''}
     | TypedefType name u \<Rightarrow> \<not> HasPrefix name ''map[''
     | _ \<Rightarrow> True)"

lemma parseFields_returns:
  "\<forall>f\<in>set fs. returnsAt pv (fieldType f) d \<Longrightarrow> returns (parseFields pv fs bs d acc)"
  by (induction fs arbitrary: acc) (auto intro!: returning intro: returnsAtD)

lemma parseStructValue_returns:
  "0 < d \<longrightarrow> (\<forall>f\<in>set (fieldsOf t). returnsAt pv (fieldType f) (d - 1)) \<Longrightarrow> returns (parseStructValue pv t bs d)"
  unfolding parseStructValue_def by (auto intro!: returning parseFields_returns)

lemma parseElems_returns: "returnsAt pv elem d \<Longrightarrow> returns (parseElems pv elem bs d is)"
  by (induction "is") (auto intro!: returning intro: returnsAtD)

lemma sliceElems_returns: "returnsAt pv pt d \<Longrightarrow> returns (sliceElems pv pt a first d is)"
  by (induction "is") (auto intro!: returning intro: returnsAtD split: prod.splits)

lemma parseSliceValue_returns:
  assumes "sound T pv"
    and fields: "\<forall>f\<in>set (fieldsOf t). returnsAt pv (fieldType f) d \<and> returnsAt pv (underlying (fieldType f)) d"
  shows "returns (parseSliceValue pv t bs d)"
  unfolding parseSliceValue_def
proof (intro returning)
  show "returns (parseStructValue pv t bs (d + 1))" using fields by (intro parseStructValue_returns) simp
next
  fix sv len
  assume sv: "parseStructValue pv t bs (d + 1) = Ok sv"
  have elems: "returns (case arr of (pt, a, p) \<Rightarrow> bindO (sliceElems pv pt a p d [1..<nat len]) (\<lambda>rest. Ok (SliceValue t (p # rest))))"
    if arr: "bindO (fieldOf ''array'' sv) asPtr = Ok arr" for arr
  proof -
    obtain pt a p where "arr = (pt, a, p)" by (cases arr)
    with arr have ptr: "fieldOf ''array'' sv = Ok (PtrValue pt a p)" by (auto simp: bindO_Ok)
    from fieldOf_fits [OF parseStructValue_fits [OF assms(1) sv] ptr] obtain ft where
      ft: "fieldTypeOf (fieldsOf t) ''array'' = Some ft" "conforms T ft (PtrValue pt a p)" by blast
    from ft(1) obtain f where "f \<in> set (fieldsOf t)" "fieldType f = ft"
      by (fastforce simp: fieldTypeOf_def dest!: map_of_SomeD)
    moreover have "pt = underlying ft" using conforms_ptr [OF ft(2)] by simp
    ultimately have "returnsAt pv pt d" using fields by blast
    then show ?thesis using \<open>arr = (pt, a, p)\<close> by (auto intro!: returning sliceElems_returns)
  qed
  show "returns (if len = 0 then Ok (SliceValue t [])
       else bindO (bindO (fieldOf ''array'' sv) asPtr) (\<lambda>(pt, a, p).
              bindO (sliceElems pv pt a p d [1..<nat len]) (\<lambda>rest. Ok (SliceValue t (p # rest)))))"
    by (cases "len = 0") (simp, simp only: if_False, intro bindO_returns assertions_return elems)
qed

lemma parseStep_returns:
  assumes "sound T pv" and T: "T = vpTypeAt b" and "readsReturn b" and "staticType t"
    and same: "\<forall>u\<in>set (sameDepth T t). returnsAt pv u d \<and> returnsAt pv (underlying u) d"
    and deeper: "0 < d \<longrightarrow> (\<forall>u\<in>set (oneDeeper t). returnsAt pv u (d - 1))"
  shows "returns (parseStep fuel b pv t bs d)"
proof (cases t)
  case (StructType name n fs)
  consider "name = ''string''" | "HasPrefix name ''[]''" "name \<noteq> ''string''" | "plainStruct name"
    using assms(4) StructType by (auto simp: plainStruct_iff staticType_def)
  then show ?thesis
  proof cases
    case 1
    then show ?thesis using StructType assms(3)
      by (auto simp: parseStep_def parseStringValue_def intro!: returning)
  next
    case 2
    have "returns (parseSliceValue pv t bs d)"
      using same 2 StructType by (intro parseSliceValue_returns [OF assms(1)]) (simp add: sameDepth_def)
    then show ?thesis using 2 StructType by (simp add: parseStep_def)
  next
    case 3
    then have "returns (parseStructValue pv t bs d)"
      using deeper StructType by (intro parseStructValue_returns) (simp add: oneDeeper_def)
    then show ?thesis using 3 StructType by (auto simp: parseStep_def plainStruct_def)
  qed
next
  case (PtrType n r)
  then show ?thesis
    using same assms(3) T unfolding parseStep_def parsePtr_def
    by (cases r) (auto simp: sameDepth_def intro!: returning intro: returnsAtD)
next
  case (ArrayType cnt elem)
  then show ?thesis
    using same by (auto simp: parseStep_def sameDepth_def intro!: returning parseElems_returns)
next
  case (TypedefType name u)
  then show ?thesis
    using same assms(4) by (auto simp: parseStep_def sameDepth_def staticType_def intro: returnsAtD)
qed (auto simp: parseStep_def intro!: returning)

section \<open>Ranked types\<close>

text \<open>
  A set of types that is closed under the parts the parser follows, with a rank of at most \<open>R\<close>
  that falls at the parts of the same depth. It may rise again at the fields of a struct: a list
  node that points to the next one is of rank 0, its pointer of rank 1.
\<close>

definition ranked :: "(nat \<Rightarrow> dtype) \<Rightarrow> dtype set \<Rightarrow> (dtype \<Rightarrow> nat) \<Rightarrow> nat \<Rightarrow> bool" where
  "ranked T U rank R \<longleftrightarrow> (\<forall>t\<in>U. staticType t \<and> rank t \<le> R
     \<and> (\<forall>u\<in>set (sameDepth T t). u \<in> U \<and> rank u < rank t) \<and> set (oneDeeper t) \<subseteq> U)"

lemma ranked_underlying:
  assumes "ranked T U rank R"
  shows "t \<in> U \<Longrightarrow> underlying t \<in> U \<and> rank (underlying t) \<le> rank t"
proof (induction t)
  case (TypedefType name t)
  then have "t \<in> U" "rank t < rank (TypedefType name t)"
    using assms by (auto simp: ranked_def sameDepth_def)
  with TypedefType show ?case by auto
qed auto

text \<open>
  C13: For every type of a ranked set, none of which is an interface or a map, the parser returns, whatever the bytes and the memory behind
  them are, once its fuel exceeds the remaining depth times the number of ranks, plus the rank
  of the type: a linked list, a tree or any other structure of pointers, arrays, slices, strings
  and numbers that leads back to itself only through a declared struct is cut off at the depth,
  also when the memory holds a cycle. Nothing is claimed of types that reach an interface or a map.
\<close>

theorem parsing_returns:
  assumes "ranked (vpTypeAt b) U rank R" and "readsReturn b"
    and "t \<in> U" and "nat d * Suc R + rank t < fuel"
  shows "parseValue fuel b t bs d \<noteq> OutOfFuel"
  using assms(3,4)
proof (induction fuel arbitrary: t bs d)
  case 0
  then show ?case by simp
next
  case (Suc fuel)
  have t: "staticType t" "rank t \<le> R" "\<forall>u\<in>set (sameDepth (vpTypeAt b) t). u \<in> U \<and> rank u < rank t"
    "set (oneDeeper t) \<subseteq> U" using assms(1) Suc.prems(1) by (auto simp: ranked_def)
  have same: "returnsAt (parseValue fuel b) u d" if "u \<in> U" "rank u < rank t" for u
    using Suc.IH [OF that(1)] that(2) Suc.prems(2) by (simp add: returnsAt_def returns_def)
  have "returns (parseStep fuel b (parseValue fuel b) t bs d)"
  proof (rule parseStep_returns [OF parseValue_sound refl assms(2) t(1)])
    show "\<forall>u\<in>set (sameDepth (vpTypeAt b) t). returnsAt (parseValue fuel b) u d \<and> returnsAt (parseValue fuel b) (underlying u) d"
      using same t(3) ranked_underlying [OF assms(1)] by (meson order_le_less_trans)
  next
    show "0 < d \<longrightarrow> (\<forall>u\<in>set (oneDeeper t). returnsAt (parseValue fuel b) u (d - 1))"
    proof (intro impI ballI)
      fix u
      assume d: "0 < d" and u: "u \<in> set (oneDeeper t)"
      then have "u \<in> U" "rank u \<le> R" using t(4) assms(1) by (auto simp: ranked_def)
      moreover have "nat d * Suc R = nat (d - 1) * Suc R + Suc R"
        using d by (metis Suc_nat_eq_nat_zadd1 add.commute diff_add_cancel mult_Suc zle_diff1_eq)
      ultimately show "returnsAt (parseValue fuel b) u (d - 1)"
        using Suc.IH [of u "d - 1"] Suc.prems(2) by (simp add: returnsAt_def returns_def)
    qed
  qed
  then show ?case by (simp add: returns_def)
qed

text \<open>A list node that points to itself, parsed down to the second level.\<close>

definition nodeType :: dtype where
  "nodeType = StructType ''main.node'' 16 [(''next'', 0, PtrType 8 (Ref 3)), (''val'', 8, IntType 8)]"

definition ringMemory :: valueParser where
  "ringMemory = \<lparr>reader = (\<lambda>a n. Ok (PutUint64 64 @ PutUint64 5)), vpTypeAt = (\<lambda>_. nodeType), mapRuntimeType = None\<rparr>"

lemma ring_ranked:
  "ranked (vpTypeAt ringMemory) {PtrType 8 (Ref 3), nodeType, IntType 8} (\<lambda>t. if t = PtrType 8 (Ref 3) then 1 else 0) 1"
  by (auto simp: ranked_def ringMemory_def staticType_def sameDepth_def oneDeeper_def nodeType_def plainStruct_def HasPrefix_def)

theorem parsing_returns_witness:
  "parseValue 6 ringMemory (PtrType 8 (Ref 3)) (PutUint64 64) 2 \<noteq> OutOfFuel"
proof (rule parsing_returns [OF ring_ranked])
  show "readsReturn ringMemory" by (simp add: readsReturn_def ringMemory_def)
qed simp_all

end
