(* ===== verification/LinuxProxy.thy ===== *)
theory LinuxProxy
  imports LinuxClient
begin

text \<open>
  debugapi/client_linux.go: the type Client, which every go routine of the tracer may call while
  ptrace only works from one thread. A method hands a closure to the go routine that is locked
  to that thread and waits for its end; both channels are unbuffered, so that a send and a
  receive happen together. Here the go routines that call, the go routine that serves them and
  the steps of both are explicit, and the proxy refines a client whose methods are atomic.
\<close>

section \<open>Requests\<close>

text \<open>
  One constructor per method, with its arguments; the launched program is the argument \<open>start\<close> of
  LaunchProcess. The closure assigns the method's results, which are one \<open>answer\<close> here.
\<close>

datatype request =
    LaunchReq
  | AttachReq int
  | DetachReq
  | ReadMemoryReq u64 nat
  | WriteMemoryReq u64 "u8 list"
  | ReadRegistersReq int
  | WriteRegistersReq int Registers
  | ReadTLSReq int u32
  | ContinueReq
  | StepReq int

datatype answer = NoAnswer | BytesAnswer "u8 list" | RegsAnswer Registers | AddrAnswer u64 | EventAnswer Event

definition answering :: "('a \<Rightarrow> answer) \<Rightarrow> ('s, 'a) prog \<Rightarrow> ('s, answer) prog" where
  "answering f m = bindM m (\<lambda>a. returnM (f a))"

fun closure :: "nat \<Rightarrow> 'k ptrace \<Rightarrow> ('k, int) prog \<Rightarrow> request \<Rightarrow> ('k rawClient, answer) prog" where
  "closure fuel os start LaunchReq = answering (\<lambda>_. NoAnswer) (LaunchProcess os start)"
| "closure fuel os start (AttachReq pid) = answering (\<lambda>_. NoAnswer) (AttachProcess os pid)"
| "closure fuel os start DetachReq = answering (\<lambda>_. NoAnswer) (rawDetachProcess fuel os)"
| "closure fuel os start (ReadMemoryReq a n) = answering BytesAnswer (readM (rawReadMemory os a n))"
| "closure fuel os start (WriteMemoryReq a bs) = answering (\<lambda>_. NoAnswer) (rawWriteMemory os a bs)"
| "closure fuel os start (ReadRegistersReq tid) = answering RegsAnswer (readM (rawReadRegisters os tid))"
| "closure fuel os start (WriteRegistersReq tid regs) = answering (\<lambda>_. NoAnswer) (rawWriteRegisters os tid regs)"
| "closure fuel os start (ReadTLSReq tid off) = answering AddrAnswer (rawReadTLS os tid off)"
| "closure fuel os start ContinueReq = answering EventAnswer (continueAndWait fuel os 0)"
| "closure fuel os start (StepReq tid) = answering EventAnswer (rawStepAndWait fuel os tid)"

section \<open>The proxy\<close>

text \<open>
  A caller is outside the methods, with what the last one returned; blocked in the send to reqCh;
  or blocked in the receive from doneCh, with the result variables the closure assigns. The
  serving go routine receives from reqCh, is about to run a caller's closure, or sends to doneCh.
\<close>

datatype caller = Outside "answer outcome option" | Requesting request | Waiting "answer outcome option"

datatype server = Receiving | Running nat request | Signalling

record 'k proxy =
  rawOf :: "'k rawClient"
  server :: server
  callers :: "nat \<Rightarrow> caller"

definition newRawClient :: "'k \<Rightarrow> 'k rawClient" where
  "newRawClient k = \<lparr>kernel = k, tracingProcessID = 0, tracingThreadIDs = [], trappedThreadIDs = [], killOnDetach = False\<rparr>"

definition newProxy :: "'k \<Rightarrow> 'k proxy" where
  "newProxy k = \<lparr>rawOf = newRawClient k, server = Receiving, callers = (\<lambda>i. Outside None)\<rparr>"

definition setCaller :: "nat \<Rightarrow> caller \<Rightarrow> 'k proxy \<Rightarrow> 'k proxy" where
  "setCaller i c p = p\<lparr>callers := (callers p)(i := c)\<rparr>"

text \<open>
  The steps. A caller blocked on doneCh may be any, as far as the channel is concerned: it pairs
  the serving go routine with whoever receives. A closure that panics ends the program and one
  that never returns keeps the go routine, so that neither has a step.
\<close>

datatype callEvent = Call nat request | Return nat "answer outcome option"

definition callMethod :: "nat \<Rightarrow> request \<Rightarrow> 'k proxy \<Rightarrow> 'k proxy option" where
  "callMethod i r p = (case callers p i of Outside x \<Rightarrow> Some (setCaller i (Requesting r) p) | _ \<Rightarrow> None)"

definition acceptRequest :: "nat \<Rightarrow> 'k proxy \<Rightarrow> 'k proxy option" where
  "acceptRequest i p = (case (server p, callers p i) of
       (Receiving, Requesting r) \<Rightarrow> Some (setCaller i (Waiting None) (p\<lparr>server := Running i r\<rparr>))
     | _ \<Rightarrow> None)"

definition returns :: "'a outcome \<Rightarrow> bool" where
  "returns r \<longleftrightarrow> r \<noteq> Panic \<and> r \<noteq> OutOfFuel"

definition runClosure :: "(request \<Rightarrow> ('k rawClient, answer) prog) \<Rightarrow> 'k proxy \<Rightarrow> 'k proxy option" where
  "runClosure run p = (case server p of
       Running i r \<Rightarrow>
         (let (x, c) = run r (rawOf p) in
          if returns x then Some (setCaller i (Waiting (Some x)) (p\<lparr>rawOf := c, server := Signalling\<rparr>)) else None)
     | _ \<Rightarrow> None)"

definition signalDone :: "nat \<Rightarrow> 'k proxy \<Rightarrow> (answer outcome option \<times> 'k proxy) option" where
  "signalDone j p = (case (server p, callers p j) of
       (Signalling, Waiting x) \<Rightarrow> Some (x, setCaller j (Outside x) (p\<lparr>server := Receiving\<rparr>))
     | _ \<Rightarrow> None)"

inductive proxyRun ::
  "(request \<Rightarrow> ('k rawClient, answer) prog) \<Rightarrow> 'k \<Rightarrow> callEvent list \<Rightarrow> 'k proxy \<Rightarrow> bool" for run k where
  init: "proxyRun run k [] (newProxy k)"
| call: "proxyRun run k es p \<Longrightarrow> callMethod i r p = Some p' \<Longrightarrow> proxyRun run k (es @ [Call i r]) p'"
| accept: "proxyRun run k es p \<Longrightarrow> acceptRequest i p = Some p' \<Longrightarrow> proxyRun run k es p'"
| closure: "proxyRun run k es p \<Longrightarrow> runClosure run p = Some p' \<Longrightarrow> proxyRun run k es p'"
| signal: "proxyRun run k es p \<Longrightarrow> signalDone j p = Some (x, p') \<Longrightarrow> proxyRun run k (es @ [Return j x]) p'"

section \<open>The abstract client\<close>

text \<open>
  What a caller may rely on: between its call and its return the operation of the raw client
  happens once, at one moment, and the caller gets the result of its own operation.
\<close>

datatype atomicCaller = Idle | Called request | Answered "answer outcome"

inductive atomicRun ::
  "(request \<Rightarrow> ('k rawClient, answer) prog) \<Rightarrow> 'k \<Rightarrow> callEvent list \<Rightarrow> 'k rawClient \<Rightarrow> (nat \<Rightarrow> atomicCaller) \<Rightarrow> bool"
  for run k where
  init: "atomicRun run k [] (newRawClient k) (\<lambda>i. Idle)"
| call: "atomicRun run k es c q \<Longrightarrow> q i = Idle \<Longrightarrow> atomicRun run k (es @ [Call i r]) c (q(i := Called r))"
| perform:
    "atomicRun run k es c q \<Longrightarrow> q i = Called r \<Longrightarrow> run r c = (x, c') \<Longrightarrow> returns x
     \<Longrightarrow> atomicRun run k es c' (q(i := Answered x))"
| return: "atomicRun run k es c q \<Longrightarrow> q i = Answered x \<Longrightarrow> atomicRun run k (es @ [Return i (Some x)]) c (q(i := Idle))"

section \<open>Refinement\<close>

text \<open>At most one caller waits, and it is the one that is served.\<close>

fun waits :: "caller \<Rightarrow> answer outcome option option" where
  "waits (Waiting x) = Some x"
| "waits _ = None"

definition waiting :: "(nat \<Rightarrow> caller) \<Rightarrow> nat \<rightharpoonup> answer outcome option" where
  "waiting q = waits \<circ> q"

definition served :: "'k proxy \<Rightarrow> bool" where
  "served p \<longleftrightarrow> (case server p of
       Receiving \<Rightarrow> waiting (callers p) = Map.empty
     | Running i r \<Rightarrow> waiting (callers p) = [i \<mapsto> None]
     | Signalling \<Rightarrow> (\<exists>i v. waiting (callers p) = [i \<mapsto> Some v]))"

definition atomicOf :: "server \<Rightarrow> caller \<Rightarrow> atomicCaller" where
  "atomicOf s c = (case c of
       Outside x \<Rightarrow> Idle
     | Requesting r \<Rightarrow> Called r
     | Waiting (Some x) \<Rightarrow> Answered x
     | Waiting None \<Rightarrow> (case s of Running i r \<Rightarrow> Called r | _ \<Rightarrow> Idle))"

definition atomicOfProxy :: "'k proxy \<Rightarrow> nat \<Rightarrow> atomicCaller" where
  "atomicOfProxy p i = atomicOf (server p) (callers p i)"

lemma waiting_upd [simp]: "waiting (q(i := c)) = (waiting q)(i := waits c)"
  by (auto simp: waiting_def)

lemma waits_Some [simp]: "waits c = Some x \<longleftrightarrow> c = Waiting x"
  by (cases c) auto

lemma waiting_at: "q i = Waiting x \<Longrightarrow> waiting q i = Some x"
  by (simp add: waiting_def)

lemma setCaller_simps [simp]:
  "server (setCaller i c p) = server p" "callers (setCaller i c p) = (callers p)(i := c)"
  "rawOf (setCaller i c p) = rawOf p"
  by (simp_all add: setCaller_def)

text \<open>The other callers look the same, whatever the server does, unless they wait for their result.\<close>

lemma atomicOf_server: "c \<noteq> Waiting None \<Longrightarrow> atomicOf s c = atomicOf s' c"
  by (auto simp: atomicOf_def split: caller.splits option.splits)

lemma callMethod_atomic:
  assumes "callMethod i r p = Some p'" and "served p"
  shows "served p' \<and> atomicOfProxy p i = Idle \<and> atomicOfProxy p' = (atomicOfProxy p)(i := Called r) \<and> rawOf p' = rawOf p"
proof -
  obtain x where c: "callers p i = Outside x" and p': "p' = setCaller i (Requesting r) p"
    using assms(1) by (auto simp: callMethod_def split: caller.splits)
  have "waiting (callers p) i = None" by (simp add: waiting_def c)
  then have "waiting (callers p') = waiting (callers p)" by (simp add: p' fun_upd_idem)
  moreover have "server p' = server p" by (simp add: p')
  ultimately have "served p'" using assms(2) by (cases "server p") (simp_all add: served_def)
  then show ?thesis by (auto simp: p' atomicOfProxy_def atomicOf_def c)
qed

lemma acceptRequest_atomic:
  assumes "acceptRequest i p = Some p'" and "served p"
  shows "served p' \<and> atomicOfProxy p' = atomicOfProxy p \<and> rawOf p' = rawOf p"
proof -
  obtain r where c: "callers p i = Requesting r" "server p = Receiving"
    and p': "p' = setCaller i (Waiting None) (p\<lparr>server := Running i r\<rparr>)"
    using assms(1) by (auto simp: acceptRequest_def split: server.splits caller.splits)
  have none: "waiting (callers p) = Map.empty" using assms(2) c by (simp add: served_def)
  then have "callers p j \<noteq> Waiting None" for j using waiting_at [of "callers p" j] by auto
  then have "atomicOfProxy p' = atomicOfProxy p"
    by (auto simp: p' atomicOfProxy_def c fun_eq_iff intro: atomicOf_server) (simp add: atomicOf_def)
  then show ?thesis using none by (simp add: p' served_def)
qed

lemma runClosure_atomic:
  assumes "runClosure run p = Some p'" and "served p"
  shows "served p' \<and> (\<exists>i r x. atomicOfProxy p i = Called r \<and> run r (rawOf p) = (x, rawOf p') \<and> returns x
     \<and> atomicOfProxy p' = (atomicOfProxy p)(i := Answered x))"
proof -
  obtain i r x c where s: "server p = Running i r" and run: "run r (rawOf p) = (x, c)" "returns x"
    and p': "p' = setCaller i (Waiting (Some x)) (p\<lparr>rawOf := c, server := Signalling\<rparr>)"
    using assms(1) by (auto simp: runClosure_def Let_def split: server.splits prod.splits if_splits)
  have w: "waiting (callers p) = [i \<mapsto> None]" using assms(2) s by (simp add: served_def)
  then have i: "callers p i = Waiting None" and other: "callers p j \<noteq> Waiting None" if "j \<noteq> i" for j
    using that waiting_at [of "callers p" j] by (auto simp: waiting_def fun_eq_iff split: if_splits)
  have at: "callers p i = Waiting None"
    using w by (metis comp_apply fun_upd_same waiting_def waits_Some)
  have "atomicOfProxy p' = (atomicOfProxy p)(i := Answered x)"
    using other by (auto simp: p' atomicOfProxy_def fun_eq_iff intro: atomicOf_server) (simp add: atomicOf_def)
  moreover have "atomicOfProxy p i = Called r" by (simp add: atomicOfProxy_def at s atomicOf_def)
  moreover have "served p'" using w by (auto simp: served_def p')
  ultimately show ?thesis using run by (auto simp: p')
qed

lemma signalDone_atomic:
  assumes "signalDone j p = Some (x, p')" and "served p"
  shows "served p' \<and> (\<exists>v. x = Some v \<and> atomicOfProxy p j = Answered v)
     \<and> atomicOfProxy p' = (atomicOfProxy p)(j := Idle) \<and> rawOf p' = rawOf p"
proof -
  have s: "server p = Signalling" "callers p j = Waiting x"
    and p': "p' = setCaller j (Outside x) (p\<lparr>server := Receiving\<rparr>)"
    using assms(1) by (auto simp: signalDone_def split: server.splits caller.splits)
  obtain i v where w: "waiting (callers p) = [i \<mapsto> Some v]" using assms(2) s by (auto simp: served_def)
  with waiting_at [of "callers p" j x, OF s(2)] have i: "i = j" "x = Some v" by (auto split: if_splits)
  have other: "callers p l \<noteq> Waiting None" for l using w waiting_at [of "callers p" l] by (auto split: if_splits)
  have "atomicOfProxy p' = (atomicOfProxy p)(j := Idle)"
    using other by (auto simp: p' atomicOfProxy_def fun_eq_iff intro: atomicOf_server) (simp add: atomicOf_def)
  moreover have "atomicOfProxy p j = Answered v" by (simp add: atomicOfProxy_def atomicOf_def s i)
  moreover have "served p'" using w i by (auto simp: served_def p')
  ultimately show ?thesis using i by (simp add: p')
qed

lemma proxyRun_atomic:
  "proxyRun run k es p \<Longrightarrow> served p \<and> atomicRun run k es (rawOf p) (atomicOfProxy p)"
proof (induction rule: proxyRun.induct)
  case init
  have "atomicOfProxy (newProxy k) = (\<lambda>i. Idle)"
    by (simp add: fun_eq_iff atomicOfProxy_def atomicOf_def newProxy_def)
  then show ?case
    using atomicRun.init [of run k] by (simp add: served_def newProxy_def waiting_def fun_eq_iff)
next
  case (call es p i r p')
  with callMethod_atomic [of i r p p'] atomicRun.call show ?case by metis
next
  case (accept es p i p')
  with acceptRequest_atomic [of i p p'] show ?case by auto
next
  case (closure es p p')
  with runClosure_atomic [of run p p'] atomicRun.perform show ?case by metis
next
  case (signal es p j x p')
  with signalDone_atomic [of j p x p'] atomicRun.return show ?case by metis
qed

text \<open>
  C33: the proxy serialises the calls of all go routines. Whatever their order and interleaving,
  what they see of it (which calls are made and what they return) is what a client would show
  whose methods each happen at one moment between call and return: every caller gets the result
  of its own request, although the channel doneCh does not tell the callers apart, and the raw
  client has done the requests one after the other. And the proxy does not lose a caller: while
  one waits, the go routine takes its next step, unless the closure it runs does not return.
\<close>

theorem proxy_makes_calls_atomic:
  assumes "proxyRun (closure fuel os start) k es p"
  shows "atomicRun (closure fuel os start) k es (rawOf p) (atomicOfProxy p)
    \<and> (callers p i \<in> range Outside \<or> (\<exists>j. acceptRequest j p \<noteq> None) \<or> (\<exists>j. signalDone j p \<noteq> None)
       \<or> runClosure (closure fuel os start) p \<noteq> None
       \<or> (\<exists>j r. server p = Running j r \<and> \<not> returns (fst (closure fuel os start r (rawOf p)))))"
proof -
  have run: "served p" "atomicRun (closure fuel os start) k es (rawOf p) (atomicOfProxy p)"
    using proxyRun_atomic [OF assms] by auto
  show ?thesis
  proof (cases "server p")
    case Receiving
    with run(1) have "callers p i \<noteq> Waiting x" for x
      using waiting_at [of "callers p" i] by (auto simp: served_def)
    then have "callers p i \<in> range Outside \<or> acceptRequest i p \<noteq> None"
      using Receiving by (cases "callers p i") (auto simp: acceptRequest_def)
    with run(2) show ?thesis by blast
  next
    case (Running j r)
    with run(2) show ?thesis by (auto simp: runClosure_def Let_def split: prod.splits)
  next
    case Signalling
    with run(1) obtain j v where "waiting (callers p) = [j \<mapsto> Some v]" by (auto simp: served_def)
    then have "callers p j = Waiting (Some v)"
      by (metis comp_apply fun_upd_same waiting_def waits_Some)
    then have "signalDone j p \<noteq> None" using Signalling by (simp add: signalDone_def)
    with run(2) show ?thesis by blast
  qed
qed

text \<open>Two go routines call at once; the second is served first.\<close>

theorem proxy_makes_calls_atomic_witness:
  "\<exists>p. proxyRun (closure 1 simOS (returnM 7)) (kernel (startedMachine []))
      [Call 0 (ReadMemoryReq 0 1), Call 1 DetachReq, Return 1 (Some (Ok NoAnswer))] p
    \<and> atomicRun (closure 1 simOS (returnM 7)) (kernel (startedMachine []))
      [Call 0 (ReadMemoryReq 0 1), Call 1 DetachReq, Return 1 (Some (Ok NoAnswer))] (rawOf p) (atomicOfProxy p)"
proof -
  define k where "k = kernel (startedMachine [])"
  let ?run = "closure 1 simOS (returnM 7)" and ?read = "ReadMemoryReq 0 1"
  define p1 where "p1 = setCaller 0 (Requesting ?read) (newProxy k)"
  define p2 where "p2 = setCaller 1 (Requesting DetachReq) p1"
  define p3 where "p3 = setCaller 1 (Waiting None) (p2\<lparr>server := Running 1 DetachReq\<rparr>)"
  define p4 where "p4 = setCaller 1 (Waiting (Some (Ok NoAnswer))) (p3\<lparr>rawOf := newRawClient k, server := Signalling\<rparr>)"
  define p5 where "p5 = setCaller 1 (Outside (Some (Ok NoAnswer))) (p4\<lparr>server := Receiving\<rparr>)"
  have "callMethod 0 ?read (newProxy k) = Some p1" by (simp add: callMethod_def p1_def newProxy_def)
  from proxyRun.call [OF proxyRun.init this] have 1: "proxyRun ?run k [Call 0 ?read] p1" by simp
  have "callMethod 1 DetachReq p1 = Some p2" by (simp add: callMethod_def p1_def p2_def newProxy_def)
  from proxyRun.call [OF 1 this] have 2: "proxyRun ?run k [Call 0 ?read, Call 1 DetachReq] p2" by simp
  have "acceptRequest 1 p2 = Some p3" by (simp add: acceptRequest_def p1_def p2_def p3_def newProxy_def)
  from proxyRun.accept [OF 2 this] have 3: "proxyRun ?run k [Call 0 ?read, Call 1 DetachReq] p3" .
  have "?run DetachReq (newRawClient k) = (Ok NoAnswer, newRawClient k)"
    by (simp add: answering_def rawDetachProcess_def newRawClient_def bindM_def)
  then have "runClosure ?run p3 = Some p4"
    by (simp add: runClosure_def returns_def p1_def p2_def p3_def p4_def newProxy_def)
  from proxyRun.closure [OF 3 this] have 4: "proxyRun ?run k [Call 0 ?read, Call 1 DetachReq] p4" .
  have "signalDone 1 p4 = Some (Some (Ok NoAnswer), p5)" by (simp add: signalDone_def p4_def p5_def)
  from proxyRun.signal [OF 4 this]
  have "proxyRun ?run k [Call 0 ?read, Call 1 DetachReq, Return 1 (Some (Ok NoAnswer))] p5" by simp
  from this proxy_makes_calls_atomic [OF this] show ?thesis unfolding k_def by blast
qed

end
