(* ===== verification/LocationDesc.thy ===== *)
theory LocationDesc
  imports Prelude
begin

text \<open>
  The location parts of tracee/binary.go: decodeSignedLEB128, parseLocationDesc and
  buildLocationList, which read the raw bytes of the DWARF sections, with the encodings the
  DWARF standard gives as their reference. A slice expression out of range is a panic; the
  section data is taken to have no spare capacity behind its length.
\<close>

unbundle bit_operations_syntax

definition slice :: "u8 list \<Rightarrow> nat \<Rightarrow> nat \<Rightarrow> u8 list outcome" where
  "slice xs lo hi = (if lo \<le> hi \<and> hi \<le> length xs then Ok (take (hi - lo) (drop lo xs)) else Panic)"

lemma slice_append [simp]: "slice (pre @ mid @ suf) (length pre) (length pre + length mid) = Ok mid"
  by (simp add: slice_def)

section \<open>Signed LEB128\<close>

text \<open>
  The code's int is 64 bits wide. The loop reads one byte after another: an index out of range
  is a panic, and a shift by 64 or more is zero, as Go has it.
\<close>

function leb128Loop :: "u8 list \<Rightarrow> nat \<Rightarrow> u64 \<Rightarrow> (u64 \<times> nat) outcome" where
  "leb128Loop input i val =
     (if i < length input then
        let val' = val OR push_bit (7 * i) (ucast (input ! i) AND 0x7F) in
        (if drop_bit 7 (input ! i) AND 0x1 = 0 then Ok (val', i) else leb128Loop input (i + 1) val')
      else Panic)"
  by pat_completeness auto
termination by (relation "measure (\<lambda>(input, i, val). length input - i)") auto

declare leb128Loop.simps [simp del]

definition decodeSignedLEB128 :: "u8 list \<Rightarrow> u64 outcome" where
  "decodeSignedLEB128 input =
     bindO (leb128Loop input 0 0) (\<lambda>(val, i).
       if drop_bit 6 (input ! i) AND 0x1 = 1 then Ok (push_bit ((i + 1) * 7) (NOT 0) + val)
       else Ok val)"

text \<open>The reference: the encoding of an integer, as the DWARF standard describes it.\<close>

function encodeSLEB128 :: "int \<Rightarrow> u8 list" where
  "encodeSLEB128 x =
     (if x div 128 = 0 \<and> x mod 128 < 64 \<or> x div 128 = - 1 \<and> 64 \<le> x mod 128
      then [of_int (x mod 128)]
      else of_int (x mod 128 + 128) # encodeSLEB128 (x div 128))"
  by pat_completeness auto
termination
proof (relation "measure (\<lambda>x. nat \<bar>x\<bar>)", goal_cases)
  case 1
  then show ?case by simp
next
  case (2 x)
  then have "x \<noteq> 0" "x \<noteq> - 1" by auto
  then show ?case by (cases "0 < x") (auto simp: abs_if)
qed

declare encodeSLEB128.simps [simp del]

lemma encodeSLEB128_not_Nil [simp]: "encodeSLEB128 x \<noteq> []"
  by (simp add: encodeSLEB128.simps [of x])

lemma top_bit: "drop_bit 7 (w :: u8) AND 0x1 = 0 \<longleftrightarrow> unat w < 128"
proof -
  have "unat w < 2 * 128" using unsigned_less [of w] by simp
  then have "unat w div 128 < 2" by (rule less_mult_imp_div_less)
  then have "unat (drop_bit 7 w AND 1) = unat w div 128"
    by (simp add: and_one_eq unat_mod_distrib unat_div_distrib drop_bit_eq_div)
  then show ?thesis by (metis div_eq_0_iff unat_eq_0 zero_neq_numeral)
qed

lemma sign_bit: "drop_bit 6 (w :: u8) AND 0x1 = 1 \<longleftrightarrow> unat w mod 128 \<ge> 64"
proof -
  have "unat (drop_bit 6 w AND 1) = unat w div 64 mod 2"
    by (simp add: and_one_eq unat_mod_distrib unat_div_distrib drop_bit_eq_div)
  moreover have "unat w mod 128 = 64 * (unat w div 64 mod 2) + unat w mod 64"
    using mod_mult2_eq [of "unat w" 64 2] by simp
  moreover have "unat w div 64 mod 2 < 2" "unat w mod 64 < 64" by simp_all
  ultimately have "unat (drop_bit 6 w AND 1) = 1 \<longleftrightarrow> unat w mod 128 \<ge> 64" by linarith
  then show ?thesis by (metis unat_1 word_unat_eq_iff)
qed

lemma low_bits: "(ucast (w :: u8) AND 0x7F :: u64) = take_bit 7 (of_nat (unat w mod 128))"
proof -
  have u: "(ucast w :: u64) = of_nat (unat w)" by simp
  have t: "take_bit 7 (unat w) = take_bit 7 (unat w mod 128)" by (simp add: take_bit_eq_mod)
  have "(ucast w AND 0x7F :: u64) = take_bit 7 (ucast w)"
    by (simp add: take_bit_eq_mask mask_eq_exp_minus_1)
  then show ?thesis by (simp only: u take_bit_of_nat t)
qed

lemma small_take: "n < 128 \<Longrightarrow> take_bit 7 (of_nat n :: u64) = of_nat n"
  by (simp only: take_bit_of_nat) (simp add: take_bit_nat_eq_self)

lemma or_shifted:
  assumes "\<forall>n. bit (val :: u64) n \<longrightarrow> n < k" 
  shows "val OR push_bit k x = val + push_bit k x"
  using assms
  by (intro disjunctive_add [symmetric]) (auto simp: bit_push_bit_iff)

lemma or_shifted_bits:
  assumes "\<forall>n. bit (val :: u64) n \<longrightarrow> n < k" 
  shows "bit (val OR push_bit k (take_bit j x)) n \<Longrightarrow> n < k + j"
  using assms by (fastforce simp: bit_or_iff bit_push_bit_iff bit_take_bit_iff)


lemma push_eq: "push_bit k (x::u64) = x * 2 ^ k" by (simp add: push_bit_eq_mult)

lemma decode_loop:
  assumes "\<forall>n. bit val n \<longrightarrow> n < 7 * length pre"
  shows "\<exists>val' k. leb128Loop (pre @ encodeSLEB128 x @ suf) (length pre) val = Ok (val', k) \<and>
     (if drop_bit 6 ((pre @ encodeSLEB128 x @ suf) ! k) AND 0x1 = 1
      then push_bit ((k + 1) * 7) (NOT 0) + val' else val') = val + push_bit (7 * length pre) (of_int x)"
  using assms
proof (induction x arbitrary: pre val rule: encodeSLEB128.induct)
  case (1 x)
  let ?d = "x mod 128" and ?i = "length pre"
  have d: "0 \<le> ?d" "?d < 128" by auto
  define D where "D = nat ?d"
  have D: "D < 128" "?d = int D" using d by (auto simp: D_def)
  show ?case
  proof (cases "x div 128 = 0 \<and> ?d < 64 \<or> x div 128 = - 1 \<and> 64 \<le> ?d")
    case True
    have enc: "encodeSLEB128 x = [of_nat D]" using True D by (simp add: encodeSLEB128.simps [of x])
    have u: "unat (of_nat D :: u8) = D" using D by (simp add: unat_of_nat)
    let ?v = "val + push_bit (7 * ?i) (of_nat D)"
    have loop: "leb128Loop (pre @ encodeSLEB128 x @ suf) ?i val = Ok (?v, ?i)"
      using "1.prems" D u
      by (simp add: leb128Loop.simps [of _ ?i val] enc nth_append top_bit low_bits or_shifted Let_def small_take)
    have "x = 128 * (x div 128) + int D" using D by (metis mult_div_mod_eq)
    moreover have "x div 128 = (if 64 \<le> D then -1 else 0)" using True D by auto
    ultimately have x: "x = (if 64 \<le> D then int D - 128 else int D)" by simp
    show ?thesis
    proof (intro exI conjI)
      show "leb128Loop (pre @ encodeSLEB128 x @ suf) ?i val = Ok (?v, ?i)" by (rule loop)
      have at: "(pre @ encodeSLEB128 x @ suf) ! ?i = of_nat D" by (simp add: enc)
      have cond: "drop_bit 6 (of_nat D :: u8) AND 0x1 = 1 \<longleftrightarrow> 64 \<le> D"
        using D by (simp add: sign_bit u)
      have neg: "push_bit ((?i + 1) * 7) (NOT 0) = - (128 * 2 ^ (7 * ?i) :: u64)"
        by (simp add: push_eq power_add algebra_simps)
      show "(if drop_bit 6 ((pre @ encodeSLEB128 x @ suf) ! ?i) AND 0x1 = 1
          then push_bit ((?i + 1) * 7) (NOT 0) + ?v else ?v) = val + push_bit (7 * ?i) (of_int x)"
        by (simp only: at cond neg) (simp add: x push_eq algebra_simps)
    qed
  next
    case False
    have enc: "encodeSLEB128 x = of_nat (D + 128) # encodeSLEB128 (x div 128)"
      using False D by (simp add: encodeSLEB128.simps [of x])
    have u: "unat (of_nat (D + 128) :: u8) = D + 128" using D by (simp add: unat_of_nat del: of_nat_add)
    let ?pre = "pre @ [of_nat (D + 128)]"
    let ?v = "val OR push_bit (7 * ?i) (take_bit 7 (of_nat D))"
    have v: "?v = val + push_bit (7 * ?i) (of_nat D)"
      using "1.prems" D by (simp add: or_shifted small_take)
    have at: "?pre @ encodeSLEB128 (x div 128) @ suf = pre @ encodeSLEB128 x @ suf"
      by (simp add: enc)
    have loop: "leb128Loop (pre @ encodeSLEB128 x @ suf) ?i val
      = leb128Loop (pre @ encodeSLEB128 x @ suf) (length ?pre) ?v"
      using D u
      by (simp add: leb128Loop.simps [of _ ?i val] enc nth_append top_bit low_bits Let_def del: of_nat_add)
    have bits: "\<forall>n. bit ?v n \<longrightarrow> n < 7 * length ?pre"
      using or_shifted_bits [OF "1.prems", of 7] by fastforce
    have x: "x = 128 * (x div 128) + int D" using D by (metis mult_div_mod_eq)
    have sum: "?v + push_bit (7 * length ?pre) (of_int (x div 128)) = val + push_bit (7 * ?i) (of_int x)"
      unfolding v by (subst (2) x) (simp add: push_eq algebra_simps power_add)
    from "1.IH" [OF False bits] show ?thesis by (simp only: at loop sum)
  qed
qed

text \<open>
  decodeSignedLEB128 inverts the encoding of the DWARF standard: for every integer, and
  whatever bytes follow its encoding, the result is the integer modulo 2 to the 64, which is
  the integer itself for every value of the code's 64-bit int, negative ones and the extreme
  ones of ten bytes included.
\<close>

theorem decode_inverts_encode:
  "decodeSignedLEB128 (encodeSLEB128 x @ suf) = Ok (of_int x)"
  using decode_loop [of 0 "[]" x suf]
  by (auto simp: decodeSignedLEB128_def algebra_simps)

section \<open>Location descriptions\<close>

definition parseLocationDesc :: "u8 list \<Rightarrow> int outcome" where
  "parseLocationDesc loc =
     (case loc of
        [] \<Rightarrow> Fail (ErrMsg ''location description is empty'')
      | op # rest \<Rightarrow>
          (if op = 0x9c then Ok 0
           else if op = 0x91 then bindO (decodeSignedLEB128 rest) (\<lambda>val. Ok (sint val))
           else Fail (ErrMsg ''unknown operation'')))"

section \<open>Location lists\<close>

record locationListEntry =
  beginOffset :: int
  endOffset :: int
  locationDesc :: "u8 list"

record locationList =
  baseAddress :: u64
  locListEntries :: "locationListEntry list"

function locationListLoop :: "u8 list \<Rightarrow> nat \<Rightarrow> locationList \<Rightarrow> locationList outcome" where
  "locationListLoop locSectionData offset locList =
     bindO (bindO (slice locSectionData offset (offset + 8)) Uint64) (\<lambda>beginOff.
     bindO (bindO (slice locSectionData (offset + 8) (offset + 16)) Uint64) (\<lambda>endOff.
       if beginOff = 0x0 \<and> endOff = 0x0 then Ok locList
       else if beginOff = NOT 0 then
         locationListLoop locSectionData (offset + 16) (locList\<lparr>baseAddress := endOff\<rparr>)
       else
         bindO (bindO (slice locSectionData (offset + 16) (offset + 18)) Uint16) (\<lambda>descLen.
         bindO (slice locSectionData (offset + 18) (offset + 18 + unat descLen)) (\<lambda>desc.
           locationListLoop locSectionData (offset + 18 + unat descLen)
             (locList\<lparr>locListEntries := locListEntries locList @
                [\<lparr>beginOffset = sint beginOff, endOffset = sint endOff, locationDesc = desc\<rparr>]\<rparr>)))))"
  by pat_completeness auto
termination
  by (relation "measure (\<lambda>(d, off, ll). length d - off)")
     (auto simp: slice_def bindO_Ok split: if_splits)

declare locationListLoop.simps [simp del]

text \<open>The offset is a Go int taken from the attribute; a negative one is out of range.\<close>

definition buildLocationList :: "u8 list \<Rightarrow> int \<Rightarrow> locationList outcome" where
  "buildLocationList locSectionData offset =
     (if offset < 0 then Panic
      else locationListLoop locSectionData (nat offset) \<lparr>baseAddress = 0, locListEntries = []\<rparr>)"

text \<open>
  The reference: a location list as the DWARF standard lays it out, a sequence of base address
  selections and ranges with a description, closed by two zeros.
\<close>

datatype locItem = BaseSelection u64 | Range u64 u64 "u8 list"

fun encodeItem :: "locItem \<Rightarrow> u8 list" where
  "encodeItem (BaseSelection base) = PutUint64 (NOT 0) @ PutUint64 base"
| "encodeItem (Range b e desc) = PutUint64 b @ PutUint64 e @ le_bytes 2 (length desc) @ desc"

definition encodeLocationList :: "locItem list \<Rightarrow> u8 list" where
  "encodeLocationList items = concat (map encodeItem items) @ PutUint64 0 @ PutUint64 0"

text \<open>What the format can carry: no range that looks like a terminator or a base selection.\<close>

fun encodable :: "locItem \<Rightarrow> bool" where
  "encodable (BaseSelection base) = True"
| "encodable (Range b e desc) = (b \<noteq> NOT 0 \<and> (b, e) \<noteq> (0, 0) \<and> length desc < 2 ^ 16)"

fun addItem :: "locationList \<Rightarrow> locItem \<Rightarrow> locationList" where
  "addItem ll (BaseSelection base) = ll\<lparr>baseAddress := base\<rparr>"
| "addItem ll (Range b e desc) =
     ll\<lparr>locListEntries := locListEntries ll @
        [\<lparr>beginOffset = sint b, endOffset = sint e, locationDesc = desc\<rparr>]\<rparr>"

lemma slice_at:
  "n = length pre \<Longrightarrow> k = length pre + length mid \<Longrightarrow> slice (pre @ mid @ suf) n k = Ok mid"
  by simp

lemma read64: "n = length pre \<Longrightarrow> k = n + 8 \<Longrightarrow>
    bindO (slice (pre @ PutUint64 x @ suf) n k) Uint64 = Ok x"
  by (simp add: slice_at)

lemma read16:
  assumes "l < 2 ^ 16" and "n = length pre" and "k = n + 2"
  shows "bindO (slice (pre @ le_bytes 2 l @ suf) n k) Uint16 = Ok (of_nat l)"
proof -
  have "le_nat (le_bytes 2 l) = l" using assms(1) by (intro le_nat_le_bytes) simp
  with assms show ?thesis by (simp add: slice_at Uint16_def)
qed

lemma locationListLoop_encode:
  assumes "list_all encodable items" and "n = length pre"
  shows "locationListLoop (pre @ encodeLocationList items @ suf) n ll = Ok (foldl addItem ll items)"
  using assms
proof (induction items arbitrary: pre n ll)
  case Nil
  have "bindO (slice (pre @ PutUint64 0 @ PutUint64 0 @ suf) n (n + 8)) Uint64 = Ok 0"
    using Nil by (intro read64) simp_all
  moreover have "bindO (slice ((pre @ PutUint64 0) @ PutUint64 0 @ suf) (n + 8) (n + 16)) Uint64 = Ok 0"
    using Nil by (intro read64) simp_all
  ultimately show ?case
    by (subst locationListLoop.simps) (simp add: encodeLocationList_def)
next
  case (Cons item items)
  let ?rest = "encodeLocationList items @ suf"
  have enc: "encodeLocationList (item # items) @ suf = encodeItem item @ ?rest"
    by (simp add: encodeLocationList_def)
  show ?case
  proof (cases item)
    case (BaseSelection base)
    have 1: "bindO (slice (pre @ PutUint64 (NOT 0) @ PutUint64 base @ ?rest) n (n + 8)) Uint64 = Ok (NOT 0)"
      using Cons.prems by (intro read64) simp_all
    have 2: "bindO (slice ((pre @ PutUint64 (NOT 0)) @ PutUint64 base @ ?rest) (n + 8) (n + 16)) Uint64 = Ok base"
      using Cons.prems by (intro read64) simp_all
    have "locationListLoop ((pre @ encodeItem item) @ ?rest) (n + 16) (ll\<lparr>baseAddress := base\<rparr>)
        = Ok (foldl addItem (ll\<lparr>baseAddress := base\<rparr>) items)"
      using Cons.prems BaseSelection by (intro Cons.IH) simp_all
    then show ?thesis
      unfolding enc using 1 2
      by (subst locationListLoop.simps) (simp add: BaseSelection)
  next
    case (Range b e desc)
    have ok: "b \<noteq> NOT 0" "\<not> (b = 0 \<and> e = 0)" "length desc < 2 ^ 16"
      using Cons.prems Range by auto
    let ?D = "le_bytes 2 (length desc) @ desc @ ?rest"
    have 1: "bindO (slice (pre @ PutUint64 b @ PutUint64 e @ ?D) n (n + 8)) Uint64 = Ok b"
      using Cons.prems by (intro read64) simp_all
    have 2: "bindO (slice ((pre @ PutUint64 b) @ PutUint64 e @ ?D) (n + 8) (n + 16)) Uint64 = Ok e"
      using Cons.prems by (intro read64) simp_all
    have 3: "bindO (slice ((pre @ PutUint64 b @ PutUint64 e) @ ?D) (n + 16) (n + 18)) Uint16
        = Ok (of_nat (length desc))"
      using Cons.prems ok by (intro read16) simp_all
    have len: "unat (of_nat (length desc) :: u16) = length desc"
      using ok by (simp add: unat_of_nat)
    have 4: "slice ((pre @ PutUint64 b @ PutUint64 e @ le_bytes 2 (length desc)) @ desc @ ?rest)
        (n + 18) (n + 18 + length desc) = Ok desc"
      using Cons.prems by (intro slice_at) simp_all
    have "locationListLoop ((pre @ encodeItem item) @ ?rest) (n + 18 + length desc) (addItem ll item)
        = Ok (foldl addItem (addItem ll item) items)"
      using Cons.prems Range by (intro Cons.IH) simp_all
    then show ?thesis
      unfolding enc using 1 2 3 4 ok len
      by (subst locationListLoop.simps) (auto simp: Range)
  qed
qed

text \<open>
  C28: buildLocationList reads back every location list the DWARF format can carry, at any
  offset of the section and whatever follows: the entries in their order with their own
  descriptions, and the last base address selected; and the description of a parameter at a
  frame offset, whose bytes are the opcode and the signed LEB128 of the offset, is decoded to
  that offset. So the first entry's offset is what findLocationByLocationList reports.
\<close>

theorem location_list_roundtrip:
  assumes "list_all encodable items" and "- (2 ^ 63) \<le> x" and "x < 2 ^ 63"
  shows "buildLocationList (pre @ encodeLocationList items @ suf) (int (length pre))
      = Ok (foldl addItem \<lparr>baseAddress = 0, locListEntries = []\<rparr> items)
    \<and> parseLocationDesc (0x91 # encodeSLEB128 x) = Ok x"
proof -
  have "decodeSignedLEB128 (encodeSLEB128 x) = Ok (of_int x)"
    using decode_loop [of 0 "[]" x "[]"] by (auto simp: decodeSignedLEB128_def algebra_simps)
  with assms show ?thesis
    by (simp add: buildLocationList_def locationListLoop_encode parseLocationDesc_def sint_of_int)
qed

theorem location_list_roundtrip_witness:
  "buildLocationList ([1, 2, 3] @ encodeLocationList [BaseSelection 0x1000, Range 0 8 [0x9c]] @ [7]) 3
    = Ok \<lparr>baseAddress = 0x1000, locListEntries = [\<lparr>beginOffset = 0, endOffset = 8, locationDesc = [0x9c]\<rparr>]\<rparr>"
proof -
  have wf: "list_all encodable [BaseSelection 0x1000, Range 0 8 [0x9c]]" by simp
  show ?thesis
    using location_list_roundtrip [OF wf, of "- 8" "[1, 2, 3]" "[7]"] by simp
qed

lemma leb128Loop_total:
  "if \<exists>j. i \<le> j \<and> j < length input \<and> unat (input ! j) < 128
   then \<exists>val' k. leb128Loop input i val = Ok (val', k) else leb128Loop input i val = Panic"
proof (induction input i val rule: leb128Loop.induct)
  case (1 input i val)
  let ?v = "val OR push_bit (7 * i) (ucast (input ! i) AND 0x7F)"
  show ?case
  proof (cases "i < length input \<and> \<not> unat (input ! i) < 128")
    case True
    then have more: "(\<exists>j. i \<le> j \<and> j < length input \<and> unat (input ! j) < 128)
        \<longleftrightarrow> (\<exists>j. i + 1 \<le> j \<and> j < length input \<and> unat (input ! j) < 128)"
      by (metis Suc_eq_plus1 Suc_leD Suc_leI le_neq_implies_less)
    have step: "leb128Loop input i val = leb128Loop input (i + 1) ?v"
      using True by (subst leb128Loop.simps) (simp only: top_bit Let_def if_True if_False)
    from True have "i < length input" "drop_bit 7 (input ! i) AND 0x1 \<noteq> 0" by (simp_all only: top_bit not_False_eq_True)
    from "1" [OF this(1) HOL.refl this(2)] show ?thesis by (simp only: step more)
  next
    case False
    then show ?thesis
      by (auto simp: leb128Loop.simps [of input i val] top_bit Let_def)
  qed
qed

text \<open>
  decodeSignedLEB128 never fails softly: it indexes past the end of its input, a panic,
  exactly when no byte of the input has a clear top bit (in particular when it is empty), and
  returns a value in every other case; parseLocationDesc passes a truncated operand on to it,
  and refuses an empty description and an unknown operation with an error.
\<close>

theorem truncated_operand_panics:
  "(parseLocationDesc loc = Panic \<longleftrightarrow>
      (\<exists>rest. loc = 0x91 # rest \<and> \<not> (\<exists>b \<in> set rest. unat b < 128)))
   \<and> ((\<exists>e. parseLocationDesc loc = Fail e) \<longleftrightarrow> loc = [] \<or> hd loc \<notin> {0x9c, 0x91})"
proof -
  have total: "if \<exists>b \<in> set rest. unat b < 128 then \<exists>v. decodeSignedLEB128 rest = Ok v
      else decodeSignedLEB128 rest = Panic" for rest
  proof -
    have "(\<exists>j. 0 \<le> j \<and> j < length rest \<and> unat (rest ! j) < 128) \<longleftrightarrow> (\<exists>b \<in> set rest. unat b < 128)"
      by (metis in_set_conv_nth zero_le)
    then show ?thesis
      using leb128Loop_total [of 0 rest 0] by (auto simp: decodeSignedLEB128_def split: if_splits)
  qed
  show ?thesis
  proof (cases loc)
    case Nil
    then show ?thesis by (simp add: parseLocationDesc_def)
  next
    case (Cons op rest)
    with total [of rest] show ?thesis
      by (auto simp: parseLocationDesc_def split: if_splits)
  qed
qed

theorem truncated_operand_panics_witness:
  "parseLocationDesc [0x91, 0x80] = Panic \<and> parseLocationDesc [0x91, 0x78] \<noteq> Panic"
  using truncated_operand_panics [of "[0x91, 0x80]"] truncated_operand_panics [of "[0x91, 0x78]"] by simp

end
