(* ===== verification/DwarfReader.thy ===== *)
theory DwarfReader
  imports Binary LocationDesc
begin

text \<open>
  The reader of the DWARF entries in tracee/binary.go, and the opening of a program file in
  tracee/binary_linux.go and tracee/binary_darwin.go. The package debug/dwarf of the Go library
  decodes the bytes of the section: what it decodes from an offset on is part of the model's
  data (\<open>decodeFrom\<close>), and so are the ranges of a compilation unit and the types it builds.
  Its Reader, which walks over the decoded entries, is defined here.
\<close>

section \<open>Entries\<close>

datatype tag =
    TagNull
  | TagCompileUnit
  | TagArrayType
  | TagPointerType
  | TagStructType
  | TagSubroutineType
  | TagBaseType
  | TagTypedef
  | TagSubprogram
  | TagFormalParameter
  | OtherTag nat

datatype attr =
    AttrName
  | AttrType
  | AttrLowpc
  | AttrHighpc
  | AttrFrameBase
  | AttrInline
  | AttrLocation
  | AttrAbstractOrigin
  | attrVariableParameter
  | attrGoRuntimeType
  | OtherAttr nat

text \<open>A field's Class and Val: the class decides the type of the value.\<close>

datatype fieldVal =
    AddressVal u64
  | StringVal string
  | ReferenceVal nat
  | ExprLocVal "u8 list"
  | LocListPtrVal int
  | FlagVal bool
  | OtherVal nat

record Entry =
  entOffset :: nat
  Tag :: tag
  Children :: bool
  Fields :: "(attr \<times> fieldVal) list"

text \<open>AttrField answers the first field of the name.\<close>

definition AttrField :: "Entry \<Rightarrow> attr \<Rightarrow> fieldVal option" where
  "AttrField entry a = map_of (Fields entry) a"

text \<open>The entry with tag zero, which ends a list of siblings, has no fields and offset zero.\<close>

definition nullEntry :: Entry where
  "nullEntry = \<lparr>entOffset = 0, Tag = TagNull, Children = False, Fields = []\<rparr>"

section \<open>The Reader of the library\<close>

datatype item = Decoded Entry | Undecodable error

text \<open>
  \<open>decodeFrom off\<close> is what the library decodes from the offset to the end of the section; the
  offset 0 is its start, and an offset out of range is an error at once. \<open>units\<close> are the offsets
  of the first entries of the compilation units. \<open>locListSection\<close> is the field locationList of
  the code's dwarfData, None for a nil slice.
\<close>

record dwarfData =
  decodeFrom :: "nat \<Rightarrow> item list"
  units :: "nat list"
  Ranges :: "Entry \<Rightarrow> (u64 \<times> u64) list outcome"
  dwarfType :: "nat \<Rightarrow> dtype outcome"
  typeRefs :: "nat \<Rightarrow> dtype"
  locListSection :: "u8 list option"

record Reader =
  rest :: "item list"
  lastChildren :: bool

definition newReader :: "dwarfData \<Rightarrow> Reader" where
  "newReader d = \<lparr>rest = decodeFrom d 0, lastChildren = False\<rparr>"

definition readerSeek :: "dwarfData \<Rightarrow> nat \<Rightarrow> Reader" where
  "readerSeek d off = \<lparr>rest = decodeFrom d off, lastChildren = False\<rparr>"

text \<open>Next: None at the end of the section. An error is kept, so the position stays before it.\<close>

fun readerNext :: "(Reader, Entry option) prog" where
  "readerNext r = (case rest r of
       [] \<Rightarrow> (Ok None, r)
     | Undecodable e # _ \<Rightarrow> (Fail e, r)
     | Decoded entry # items \<Rightarrow> (Ok (Some entry), \<lparr>rest = items, lastChildren = Children entry\<rparr>))"

text \<open>
  SkipChildren reads up to the entry that ends the list of the last entry's children. The
  attribute DW\_AT\_sibling, from which the library takes the position at once, is left out: it
  is the position this loop reaches.
\<close>

function skipLoop :: "item list \<Rightarrow> item list" where
  "skipLoop [] = []"
| "skipLoop (Undecodable e # items) = Undecodable e # items"
| "skipLoop (Decoded entry # items) =
     (if Tag entry = TagNull then items
      else if Children entry then skipLoop (skipLoop items)
      else skipLoop items)"
  by pat_completeness auto

termination
proof (relation "measure length", goal_cases)
  case (3 entry items)
  from 3(3) have "length (skipLoop items) \<le> length items"
    by (induction rule: skipLoop.pinduct) (force simp: skipLoop.psimps)+
  then show ?case by simp
qed simp_all

definition SkipChildren :: "Reader \<Rightarrow> Reader" where
  "SkipChildren r =
     (if lastChildren r then \<lparr>rest = skipLoop (rest r), lastChildren = False\<rparr> else r)"

text \<open>
  SeekPC looks for the unit that contains the program counter and leaves the reader behind the
  unit's first entry. A unit without an entry is a nil dereference in Ranges.
\<close>

fun seekUnits :: "dwarfData \<Rightarrow> u64 \<Rightarrow> nat list \<Rightarrow> (Reader, Entry) prog" where
  "seekUnits d pc [] r = (Fail (ErrMsg ''ErrUnknownPC''), r)"
| "seekUnits d pc (u # us) r = (case readerNext (readerSeek d u) of
       (Ok None, r') \<Rightarrow> (Panic, r')
     | (Ok (Some entry), r') \<Rightarrow> (case Ranges d entry of
           Ok ranges \<Rightarrow>
             if \<exists>(lo, hi) \<in> set ranges. lo \<le> pc \<and> pc < hi then (Ok entry, r')
             else seekUnits d pc us r'
         | Fail e \<Rightarrow> (Fail e, r')
         | Panic \<Rightarrow> (Panic, r')
         | OutOfFuel \<Rightarrow> (OutOfFuel, r'))
     | (Fail e, r') \<Rightarrow> (Fail e, r')
     | (Panic, r') \<Rightarrow> (Panic, r')
     | (OutOfFuel, r') \<Rightarrow> (OutOfFuel, r'))"

definition SeekPC :: "dwarfData \<Rightarrow> u64 \<Rightarrow> (Reader, Entry) prog" where
  "SeekPC d pc = seekUnits d pc (units d)"

section \<open>Attributes by class\<close>

definition attrNotFound :: error where
  "attrNotFound = ErrMsg ''attr not found''"

definition addressClassAttr :: "Entry \<Rightarrow> attr \<Rightarrow> u64 outcome" where
  "addressClassAttr entry a = (case AttrField entry a of
       None \<Rightarrow> Fail attrNotFound
     | Some (AddressVal v) \<Rightarrow> Ok v
     | Some _ \<Rightarrow> Fail (ErrMsg ''invalid class''))"

definition stringClassAttr :: "Entry \<Rightarrow> attr \<Rightarrow> string outcome" where
  "stringClassAttr entry a = (case AttrField entry a of
       None \<Rightarrow> Fail attrNotFound
     | Some (StringVal v) \<Rightarrow> Ok v
     | Some _ \<Rightarrow> Fail (ErrMsg ''invalid class''))"

definition referenceClassAttr :: "Entry \<Rightarrow> attr \<Rightarrow> nat outcome" where
  "referenceClassAttr entry a = (case AttrField entry a of
       None \<Rightarrow> Fail attrNotFound
     | Some (ReferenceVal v) \<Rightarrow> Ok v
     | Some _ \<Rightarrow> Fail (ErrMsg ''invalid class''))"

definition locationClassAttr :: "Entry \<Rightarrow> attr \<Rightarrow> u8 list outcome" where
  "locationClassAttr entry a = (case AttrField entry a of
       None \<Rightarrow> Fail attrNotFound
     | Some (ExprLocVal v) \<Rightarrow> Ok v
     | Some _ \<Rightarrow> Fail (ErrMsg ''invalid class''))"

definition locationListClassAttr :: "Entry \<Rightarrow> attr \<Rightarrow> int outcome" where
  "locationListClassAttr entry a = (case AttrField entry a of
       None \<Rightarrow> Fail attrNotFound
     | Some (LocListPtrVal v) \<Rightarrow> Ok v
     | Some _ \<Rightarrow> Fail (ErrMsg ''invalid class''))"

definition flagClassAttr :: "Entry \<Rightarrow> attr \<Rightarrow> bool outcome" where
  "flagClassAttr entry a = (case AttrField entry a of
       None \<Rightarrow> Fail attrNotFound
     | Some (FlagVal v) \<Rightarrow> Ok v
     | Some _ \<Rightarrow> Fail (ErrMsg ''invalid class''))"

section \<open>Abstract origins\<close>

definition findAbstractOrigin :: "Entry \<Rightarrow> dwarfData \<Rightarrow> Entry option" where
  "findAbstractOrigin entry d = (case referenceClassAttr entry AttrAbstractOrigin of
       Ok ref \<Rightarrow> (case fst (readerNext (readerSeek d ref)) of Ok originEntry \<Rightarrow> originEntry | _ \<Rightarrow> None)
     | _ \<Rightarrow> None)"

text \<open>
  walkUpOrigins follows the origins until \<open>walkFn\<close>, a closure that writes what it found into
  variables of its caller and says whether it is done, returns true: here it returns what it
  found. Origins may form a cycle; the fuel bounds their number.
\<close>

fun walkUpOrigins :: "nat \<Rightarrow> Entry \<Rightarrow> dwarfData \<Rightarrow> (Entry \<Rightarrow> 'a option) \<Rightarrow> 'a outcome" where
  "walkUpOrigins 0 entry d walkFn = OutOfFuel"
| "walkUpOrigins (Suc fuel) entry d walkFn = (case walkFn entry of
       Some a \<Rightarrow> Ok a
     | None \<Rightarrow> (case findAbstractOrigin entry d of
           None \<Rightarrow> Fail (ErrMsg ''failed to find abstract origin'')
         | Some origin \<Rightarrow> walkUpOrigins fuel origin d walkFn))"

section \<open>Functions\<close>

definition includesPC :: "Entry \<Rightarrow> u64 \<Rightarrow> bool" where
  "includesPC subprogram pc = (case addressClassAttr subprogram AttrLowpc of
       Ok lowPC \<Rightarrow> (case addressClassAttr subprogram AttrHighpc of
           Ok highPC \<Rightarrow> \<not> (pc < lowPC \<or> highPC \<le> pc)
         | _ \<Rightarrow> False)
     | _ \<Rightarrow> False)"

definition isInline :: "Entry \<Rightarrow> bool" where
  "isInline subprogram \<longleftrightarrow> AttrField subprogram AttrInline \<noteq> None"

fun okOption :: "'a outcome \<Rightarrow> 'a option" where
  "okOption (Ok a) = Some a"
| "okOption _ = None"

text \<open>The error of a call put behind a name by fmt.Errorf.\<close>

fun named :: "string \<Rightarrow> 'a outcome \<Rightarrow> 'a outcome" where
  "named name (Fail e) = Fail (Wrapped name e)"
| "named name r = r"

definition originName :: "nat \<Rightarrow> dwarfData \<Rightarrow> Entry \<Rightarrow> string outcome" where
  "originName fuel d subprogram =
     (case walkUpOrigins fuel subprogram d (\<lambda>entry. okOption (stringClassAttr entry AttrName)) of
        Fail e \<Rightarrow> Fail (ErrMsg ''name attr not found'')
      | r \<Rightarrow> r)"

definition buildFunction :: "nat \<Rightarrow> dwarfData \<Rightarrow> Entry \<Rightarrow> Function outcome" where
  "buildFunction fuel d subprogram =
     bindO (originName fuel d subprogram) (\<lambda>name.
     bindO (named name (addressClassAttr subprogram AttrLowpc)) (\<lambda>lowPC.
     bindO (named name (addressClassAttr subprogram AttrHighpc)) (\<lambda>highPC.
     bindO (named name (locationClassAttr subprogram AttrFrameBase)) (\<lambda>frameBase.
       Ok \<lparr>Name = name, StartAddr = lowPC, EndAddr = highPC, Parameters = []\<rparr>))))"

section \<open>Parameters\<close>

text \<open>An offset and the flag Exist. A description that does not parse is logged, not returned.\<close>

definition parsedLocation :: "u8 list \<Rightarrow> (int \<times> bool) outcome" where
  "parsedLocation loc = (case parseLocationDesc loc of
       Fail e \<Rightarrow> Ok (0, False)
     | Ok offset \<Rightarrow> Ok (offset, True)
     | Panic \<Rightarrow> Panic
     | OutOfFuel \<Rightarrow> OutOfFuel)"

definition findLocationByLocationDesc :: "Entry \<Rightarrow> (int \<times> bool) outcome" where
  "findLocationByLocationDesc param =
     bindO (named ''loc attr not found'' (locationClassAttr param AttrLocation)) (\<lambda>loc.
       if length loc = 0 then Ok (0, False) else parsedLocation loc)"

definition findLocationByLocationList :: "u8 list \<Rightarrow> Entry \<Rightarrow> (int \<times> bool) outcome" where
  "findLocationByLocationList section param =
     bindO (named ''loc list attr not found'' (locationListClassAttr param AttrLocation)) (\<lambda>loc.
     bindO (buildLocationList section loc) (\<lambda>locList.
       (case locListEntries locList of
          [] \<Rightarrow> Fail (ErrMsg ''no location list entry'')
        | entry # _ \<Rightarrow> parsedLocation (locationDesc entry))))"

definition findLocation :: "dwarfData \<Rightarrow> Entry \<Rightarrow> (int \<times> bool) outcome" where
  "findLocation d param = (case findLocationByLocationDesc param of
       Fail e \<Rightarrow> (case locListSection d of
           None \<Rightarrow> Fail e
         | Some section \<Rightarrow> findLocationByLocationList section param)
     | r \<Rightarrow> r)"

text \<open>The closure of buildParameter: the three attributes of one entry.\<close>

definition parameterAttrs :: "Entry \<Rightarrow> (string \<times> nat \<times> bool) option" where
  "parameterAttrs entry = okOption
     (bindO (stringClassAttr entry AttrName) (\<lambda>name.
      bindO (referenceClassAttr entry AttrType) (\<lambda>typeOffset.
      bindO (flagClassAttr entry attrVariableParameter) (\<lambda>isOutput.
        Ok (name, typeOffset, isOutput)))))"

definition buildParameter :: "nat \<Rightarrow> dwarfData \<Rightarrow> Entry \<Rightarrow> Parameter outcome" where
  "buildParameter fuel d param =
     bindO (walkUpOrigins fuel param d parameterAttrs) (\<lambda>(name, typeOffset, isOutput).
     bindO (dwarfType d typeOffset) (\<lambda>typ.
     bindO (findLocation d param) (\<lambda>(offset, exist).
       Ok \<lparr>pName = name, Typ = typ, Offset = offset, Exists = exist, IsOutput = isOutput\<rparr>)))"

lemma skipLoop_length: "length (skipLoop items) \<le> length items"
  by (induction items rule: skipLoop.induct) auto

lemma SkipChildren_length: "length (rest (SkipChildren r)) \<le> length (rest r)"
  by (simp add: SkipChildren_def skipLoop_length)

lemma readerNext_length: "readerNext r = (Ok (Some entry), r') \<Longrightarrow> length (rest r') < length (rest r)"
  by (auto split: list.splits item.splits)

declare readerNext.simps [simp del]

text \<open>The code uses the entry without asking for nil, so the end of the section is a panic.\<close>

function nextParameter :: "nat \<Rightarrow> dwarfData \<Rightarrow> (Reader, Parameter option) prog" where
  "nextParameter fuel d r = (case readerNext r of
       (Fail e, r') \<Rightarrow> (Fail e, r')
     | (Ok None, r') \<Rightarrow> (Panic, r')
     | (Ok (Some param), r') \<Rightarrow>
         if Tag param = TagNull then (Ok None, r')
         else if Tag param \<noteq> TagFormalParameter then nextParameter fuel d (SkipChildren r')
         else bindM (readM (\<lambda>_. buildParameter fuel d param)) (\<lambda>p. returnM (Some p)) r'
     | (Panic, r') \<Rightarrow> (Panic, r')
     | (OutOfFuel, r') \<Rightarrow> (OutOfFuel, r'))"
  by pat_completeness auto
termination
proof (relation "measure (\<lambda>(fuel, d, r). length (rest r))", goal_cases)
  case (2 fuel d r x r' y param)
  then show ?case using readerNext_length [of r param r'] SkipChildren_length [of r'] by simp
qed simp

declare nextParameter.simps [simp del]

lemma nextParameter_length:
  "nextParameter fuel d r = (Ok (Some p), r') \<Longrightarrow> length (rest r') < length (rest r)"
proof (induction fuel d r rule: nextParameter.induct)
  case (1 fuel d r)
  obtain res r1 where next1: "readerNext r = (res, r1)" by (cases "readerNext r")
  show ?case
  proof (cases "\<exists>param. res = Ok (Some param)")
    case True
    then obtain param where res: "res = Ok (Some param)" by blast
    have less: "length (rest r1) < length (rest r)" using next1 res readerNext_length by simp
    consider "Tag param = TagNull" | "Tag param = TagFormalParameter"
      | "Tag param \<noteq> TagNull" "Tag param \<noteq> TagFormalParameter" by blast
    then show ?thesis
    proof cases
      case 3
      have "nextParameter fuel d (SkipChildren r1) = (Ok (Some p), r')"
        using "1.prems" 3 res next1 by (simp add: nextParameter.simps [of fuel d r])
      with 3 less SkipChildren_length [of r1] show ?thesis
        using "1.IH" [OF next1 [symmetric] _ _ 3(1)] res by fastforce
    qed (use "1.prems" next1 res less in
        \<open>auto simp: nextParameter.simps [of fuel d r] bindM_readM split: outcome.splits\<close>)
  next
    case False
    then show ?thesis using "1.prems" next1
      by (auto simp: nextParameter.simps [of fuel d r] split: outcome.splits option.splits)
  qed
qed

text \<open>
  sort.Slice is taken to be stable: up to twelve elements it is an insertion sort.
\<close>

function parametersLoop :: "nat \<Rightarrow> dwarfData \<Rightarrow> Parameter list \<Rightarrow> (Reader, Parameter list) prog" where
  "parametersLoop fuel d params r = (case nextParameter fuel d r of
       (Ok (Some param), r') \<Rightarrow> parametersLoop fuel d (params @ [param]) (SkipChildren r')
     | (Ok None, r') \<Rightarrow> (Ok (sort_key Offset params), r')
     | (Fail e, r') \<Rightarrow> (Fail e, r')
     | (Panic, r') \<Rightarrow> (Panic, r')
     | (OutOfFuel, r') \<Rightarrow> (OutOfFuel, r'))"
  by pat_completeness auto
termination
proof (relation "measure (\<lambda>(fuel, d, params, r). length (rest r))", goal_cases)
  case (2 fuel d params r x r' y param)
  then show ?case using nextParameter_length [of fuel d r param r'] SkipChildren_length [of r'] by simp
qed simp

declare parametersLoop.simps [simp del]

definition parameters :: "nat \<Rightarrow> dwarfData \<Rightarrow> (Reader, Parameter list) prog" where
  "parameters fuel d = parametersLoop fuel d []"

section \<open>The subprogramReader\<close>

function subprogramNext :: "nat \<Rightarrow> dwarfData \<Rightarrow> bool \<Rightarrow> (Reader, Function option) prog" where
  "subprogramNext fuel d setParameters r = (case readerNext r of
       (Ok (Some entry), r') \<Rightarrow>
         if Tag entry \<noteq> TagSubprogram \<or> isInline entry then subprogramNext fuel d setParameters r'
         else bindM (readM (\<lambda>_. buildFunction fuel d entry)) (\<lambda>function.
           if setParameters
           then bindM (parameters fuel d) (\<lambda>ps. returnM (Some (function\<lparr>Parameters := ps\<rparr>)))
           else returnM (Some function)) r'
     | (Ok None, r') \<Rightarrow> (Ok None, r')
     | (Fail e, r') \<Rightarrow> (Fail e, r')
     | (Panic, r') \<Rightarrow> (Panic, r')
     | (OutOfFuel, r') \<Rightarrow> (OutOfFuel, r'))"
  by pat_completeness auto
termination
  by (relation "measure (\<lambda>(fuel, d, setParameters, r). length (rest r))")
    (auto dest!: readerNext_length [OF sym])

declare subprogramNext.simps [simp del]

function subprogramSeekLoop :: "nat \<Rightarrow> dwarfData \<Rightarrow> u64 \<Rightarrow> (Reader, Function) prog" where
  "subprogramSeekLoop fuel d pc r = (case readerNext r of
       (Ok (Some subprogram), r') \<Rightarrow>
         if Tag subprogram \<noteq> TagSubprogram \<or> \<not> includesPC subprogram pc
         then subprogramSeekLoop fuel d pc (SkipChildren r')
         else bindM (readM (\<lambda>_. buildFunction fuel d subprogram)) (\<lambda>function.
              bindM (parameters fuel d) (\<lambda>ps. returnM (function\<lparr>Parameters := ps\<rparr>))) r'
     | (Ok None, r') \<Rightarrow> (Fail (ErrMsg ''subprogram not found''), r')
     | (Fail e, r') \<Rightarrow> (Fail e, r')
     | (Panic, r') \<Rightarrow> (Panic, r')
     | (OutOfFuel, r') \<Rightarrow> (OutOfFuel, r'))"
  by pat_completeness auto
termination
proof (relation "measure (\<lambda>(fuel, d, pc, r). length (rest r))", goal_cases)
  case (2 fuel d pc r x r' y subprogram)
  then show ?case using readerNext_length [of r subprogram r'] SkipChildren_length [of r'] by simp
qed simp

declare subprogramSeekLoop.simps [simp del]

definition subprogramSeek :: "nat \<Rightarrow> dwarfData \<Rightarrow> u64 \<Rightarrow> (Reader, Function) prog" where
  "subprogramSeek fuel d pc = bindM (SeekPC d pc) (\<lambda>_. subprogramSeekLoop fuel d pc)"

end
