(* ===== verification/DebuggableBinary.thy ===== *)
theory DebuggableBinary
  imports DwarfReader Version
begin

text \<open>
  The program file with DWARF sections (the debuggableBinaryFile of tracee/binary.go) and
  openBinaryFile of tracee/binary_linux.go and tracee/binary_darwin.go, which chooses between
  it and the file without DWARF sections. The packages debug/elf and debug/macho of the Go
  library are read as a record of what a file of theirs answers, compress/zlib as a function
  on byte lists.
\<close>

section \<open>The types of the runtime\<close>

abbreviation runtimeTypeTags :: "tag list" where
  "runtimeTypeTags \<equiv> [TagArrayType, TagPointerType, TagStructType, TagSubroutineType, TagBaseType, TagTypedef]"

text \<open>The body of the loop of buildTypes for one entry.\<close>

definition addType :: "Entry \<Rightarrow> (u64 \<Rightarrow> nat option) \<Rightarrow> u64 \<Rightarrow> nat option" where
  "addType entry types =
     (if Tag entry \<in> set runtimeTypeTags then
        (case addressClassAttr entry attrGoRuntimeType of
           Ok val \<Rightarrow> if val = 0 then types else types(val \<mapsto> entOffset entry)
         | _ \<Rightarrow> types)
      else types)"

function typesLoop :: "(u64 \<Rightarrow> nat option) \<Rightarrow> (Reader, u64 \<Rightarrow> nat option) prog" where
  "typesLoop types r = (case readerNext r of
       (Ok (Some entry), r') \<Rightarrow> typesLoop (addType entry types) r'
     | (Ok None, r') \<Rightarrow> (Ok types, r')
     | (Fail e, r') \<Rightarrow> (Fail e, r')
     | (Panic, r') \<Rightarrow> (Panic, r')
     | (OutOfFuel, r') \<Rightarrow> (OutOfFuel, r'))"
  by pat_completeness auto
termination
  by (relation "measure (\<lambda>(types, r). length (rest r))") (auto dest!: readerNext_length [OF sym])

declare typesLoop.simps [simp del]

text \<open>A nil map is the empty one: it is only read.\<close>

definition buildTypes :: "dwarfData \<Rightarrow> GoVersion \<Rightarrow> (u64 \<Rightarrow> nat option) outcome" where
  "buildTypes d goVersion =
     (if \<not> LaterThan goVersion \<lparr>Raw = [], Devel = False, MajorVersion = 1, MinorVersion = 11, PatchVersion = 0\<rparr> then Ok Map.empty
      else fst (typesLoop Map.empty (newReader d)))"

section \<open>Types by name\<close>

function findEntryLoop :: "(Entry \<Rightarrow> bool) \<Rightarrow> (Reader, Entry) prog" where
  "findEntryLoop match r = (case readerNext r of
       (Ok (Some entry), r') \<Rightarrow> if match entry then (Ok entry, r') else findEntryLoop match r'
     | (Ok None, r') \<Rightarrow> (Fail (ErrMsg ''failed to find a matched entry''), r')
     | (Fail e, r') \<Rightarrow> (Fail e, r')
     | (Panic, r') \<Rightarrow> (Panic, r')
     | (OutOfFuel, r') \<Rightarrow> (OutOfFuel, r'))"
  by pat_completeness auto
termination
  by (relation "measure (\<lambda>(match, r). length (rest r))") (auto dest!: readerNext_length [OF sym])

declare findEntryLoop.simps [simp del]

definition findDWARFEntryByName :: "dwarfData \<Rightarrow> (Entry \<Rightarrow> bool) \<Rightarrow> Entry outcome" where
  "findDWARFEntryByName d match = fst (findEntryLoop match (newReader d))"

definition findType :: "dwarfData \<Rightarrow> tag \<Rightarrow> string \<Rightarrow> dtype outcome" where
  "findType d targetTag targetName =
     bindO (findDWARFEntryByName d
       (\<lambda>entry. Tag entry = targetTag \<and> stringClassAttr entry AttrName = Ok targetName))
     (\<lambda>entry. dwarfType d (entOffset entry))"

definition findModuleDataType :: "dwarfData \<Rightarrow> dtype outcome" where
  "findModuleDataType d = findType d TagStructType ''runtime.moduledata''"

definition findRuntimeGType :: "dwarfData \<Rightarrow> dtype outcome" where
  "findRuntimeGType d = findType d TagStructType ''runtime.g''"

section \<open>The file with DWARF sections\<close>

definition debuggableFindFunction :: "nat \<Rightarrow> dwarfData \<Rightarrow> u64 \<Rightarrow> Function outcome" where
  "debuggableFindFunction fuel d pc = fst (subprogramSeek fuel d pc (newReader d))"

text \<open>The lookup in the Go map answers offset 0 for a missing key.\<close>

definition debuggableTypeByAddr :: "dwarfData \<Rightarrow> (u64 \<Rightarrow> nat option) \<Rightarrow> u64 \<Rightarrow> dtype outcome" where
  "debuggableTypeByAddr d types typeAddr =
     dwarfType d (case types typeAddr of None \<Rightarrow> 0 | Some implTypOffset \<Rightarrow> implTypOffset)"

definition newDebuggableBinaryFile ::
  "nat \<Rightarrow> dwarfData \<Rightarrow> GoVersion \<Rightarrow> (nat \<Rightarrow> unit outcome) \<Rightarrow> BinaryFile outcome" where
  "newDebuggableBinaryFile fuel d goVersion closer =
     bindO (buildTypes d goVersion) (\<lambda>types.
     bindO (findModuleDataType d) (\<lambda>cachedModuleDataType.
     bindO (findRuntimeGType d) (\<lambda>cachedRuntimeGType.
       Ok \<lparr>bfFindFunction = debuggableFindFunction fuel d,
           bfClose = closer,
           findDwarfTypeByAddr = debuggableTypeByAddr d types,
           moduleDataType = cachedModuleDataType,
           runtimeGType = cachedRuntimeGType,
           typeAt = typeRefs d\<rparr>)))"

section \<open>Opening a file\<close>

text \<open>
  \<open>sectionOf\<close> answers the contents of a section, or the error of reading them, and None when there
  is no such section; \<open>dwarfOf\<close> the decoded sections other than the location lists.
\<close>

record programFile =
  sectionOf :: "string \<Rightarrow> u8 list outcome option"
  dwarfOf :: "dwarfData outcome"
  fileCloser :: "nat \<Rightarrow> unit outcome"

definition locationListSectionNames_linux :: "string list" where
  "locationListSectionNames_linux = [''.zdebug_loc'', ''.debug_loc'']"

definition locationListSectionNames_darwin :: "string list" where
  "locationListSectionNames_darwin = [''__zdebug_loc'', ''__debug_loc'']"

fun findSection :: "programFile \<Rightarrow> string list \<Rightarrow> u8 list outcome option" where
  "findSection f [] = None"
| "findSection f (name # names) = (case sectionOf f name of
       None \<Rightarrow> findSection f names
     | Some sec \<Rightarrow> Some sec)"

definition beUint64 :: "u8 list \<Rightarrow> nat" where
  "beUint64 bs = le_nat (rev bs)"

text \<open>
  A compressed section starts with the letters ZLIB and the length of its contents. \<open>zlib\<close> is
  an error when the stream has no header, and else what the decompressor gives before it ends
  or fails; io.ReadFull fails when that is shorter than the buffer. A buffer longer than the
  address space (2 to the power of 48) is a panic of make.
\<close>

definition zlibMagic :: "u8 list" where
  "zlibMagic = [0x5a, 0x4c, 0x49, 0x42]"

definition buildLocationListData ::
  "(u8 list \<Rightarrow> u8 list outcome) \<Rightarrow> u8 list outcome option \<Rightarrow> u8 list option outcome" where
  "buildLocationListData zlib section = (case section of
       None \<Rightarrow> Ok None
     | Some sec \<Rightarrow>
         bindO sec (\<lambda>rawData.
         bindO (slice rawData 0 4) (\<lambda>magic.
           if magic \<noteq> zlibMagic \<or> length rawData < 12 then Ok (Some rawData)
           else
             (let dlen = beUint64 (take 8 (drop 4 rawData)) in
              if 2 ^ 48 < dlen then Panic
              else bindO (zlib (drop 12 rawData)) (\<lambda>contents.
                if length contents < dlen then Fail (ErrMsg ''unexpected EOF'')
                else Ok (Some (take dlen contents)))))))"

definition findDWARF ::
  "string list \<Rightarrow> (u8 list \<Rightarrow> u8 list outcome) \<Rightarrow> programFile \<Rightarrow> dwarfData outcome" where
  "findDWARF locationListSectionNames zlib f =
     bindO (buildLocationListData zlib (findSection f locationListSectionNames)) (\<lambda>locList.
     bindO (dwarfOf f) (\<lambda>d. Ok (d\<lparr>locListSection := locList\<rparr>)))"

definition openBinaryFile ::
  "nat \<Rightarrow> string list \<Rightarrow> (u8 list \<Rightarrow> u8 list outcome) \<Rightarrow> programFile outcome \<Rightarrow> GoVersion \<Rightarrow> BinaryFile outcome" where
  "openBinaryFile fuel locationListSectionNames zlib opened goVersion =
     bindO opened (\<lambda>f.
       case findDWARF locationListSectionNames zlib f of
         Fail e \<Rightarrow> Ok (nonDebuggableBinaryFile (fileCloser f))
       | Ok d \<Rightarrow> newDebuggableBinaryFile fuel d goVersion (fileCloser f)
       | Panic \<Rightarrow> Panic
       | OutOfFuel \<Rightarrow> OutOfFuel)"

text \<open>The two systems: the executables are ELF files on Linux and Mach-O files on macOS.\<close>

definition openBinaryFile_linux ::
  "nat \<Rightarrow> (u8 list \<Rightarrow> u8 list outcome) \<Rightarrow> programFile outcome \<Rightarrow> GoVersion \<Rightarrow> BinaryFile outcome" where
  "openBinaryFile_linux fuel = openBinaryFile fuel locationListSectionNames_linux"

definition findDWARF_darwin :: "(u8 list \<Rightarrow> u8 list outcome) \<Rightarrow> programFile \<Rightarrow> dwarfData outcome" where
  "findDWARF_darwin = findDWARF locationListSectionNames_darwin"

definition openBinaryFile_darwin ::
  "nat \<Rightarrow> (u8 list \<Rightarrow> u8 list outcome) \<Rightarrow> programFile outcome \<Rightarrow> GoVersion \<Rightarrow> BinaryFile outcome" where
  "openBinaryFile_darwin fuel zlib machoOpened goVersion =
     bindO machoOpened (\<lambda>machoFile.
       case findDWARF_darwin zlib machoFile of
         Fail e \<Rightarrow> Ok (nonDebuggableBinaryFile (fileCloser machoFile))
       | Ok d \<Rightarrow> newDebuggableBinaryFile fuel d goVersion (fileCloser machoFile)
       | Panic \<Rightarrow> Panic
       | OutOfFuel \<Rightarrow> OutOfFuel)"

section \<open>Properties\<close>

definition hasRuntimeType :: "u64 \<Rightarrow> Entry \<Rightarrow> bool" where
  "hasRuntimeType a entry \<longleftrightarrow>
     a \<noteq> 0 \<and> Tag entry \<in> set runtimeTypeTags \<and> addressClassAttr entry attrGoRuntimeType = Ok a"

lemma addType_at:
  "addType entry types a = (if hasRuntimeType a entry then Some (entOffset entry) else types a)"
  by (auto simp: addType_def hasRuntimeType_def split: outcome.splits)

lemma typesLoop_decoded:
  "typesLoop types \<lparr>rest = map Decoded es, lastChildren = b\<rparr>
     = (Ok (fold addType es types), \<lparr>rest = [], lastChildren = (if es = [] then b else Children (last es))\<rparr>)"
proof (induction es arbitrary: types b)
  case Nil
  show ?case by (subst typesLoop.simps) (simp add: readerNext.simps)
next
  case (Cons e es)
  then show ?case by (subst typesLoop.simps) (simp add: readerNext.simps)
qed

lemma typesLoop_undecoded:
  "typesLoop types \<lparr>rest = map Decoded es @ Undecodable err # items, lastChildren = b\<rparr>
     = (Fail err, \<lparr>rest = Undecodable err # items, lastChildren = (if es = [] then b else Children (last es))\<rparr>)"
proof (induction es arbitrary: types b)
  case Nil
  show ?case by (subst typesLoop.simps) (simp add: readerNext.simps)
next
  case (Cons e es)
  then show ?case by (subst typesLoop.simps) (simp add: readerNext.simps)
qed

lemma fold_addType:
  "fold addType es types a = (case find (hasRuntimeType a) (rev es) of
     None \<Rightarrow> types a | Some entry \<Rightarrow> Some (entOffset entry))"
  by (induction es rule: rev_induct) (auto simp: addType_at)

definition version_1_11 :: GoVersion where
  "version_1_11 = \<lparr>Raw = [], Devel = False, MajorVersion = 1, MinorVersion = 11, PatchVersion = 0\<rparr>"

text \<open>
  For a program of a Go version that writes the runtime types into DWARF (1.11 and later),
  findDwarfTypeByAddr answers the type of the last entry, among those of a kind that may carry
  it, whose attribute names the address, whatever entries come between; for an older version,
  and for an address no entry names, it asks for the type at offset 0.
\<close>

theorem runtime_types_are_found_by_address:
  assumes "decodeFrom d 0 = map Decoded es" and "buildTypes d v = Ok types"
  shows "debuggableTypeByAddr d types a =
    (case find (hasRuntimeType a) (if LaterThan v version_1_11 then rev es else []) of
       Some entry \<Rightarrow> dwarfType d (entOffset entry)
     | None \<Rightarrow> dwarfType d 0)"
  using assms
  by (auto simp: buildTypes_def version_1_11_def newReader_def typesLoop_decoded fold_addType
      debuggableTypeByAddr_def split: if_splits option.splits)

definition typeEntry :: "nat \<Rightarrow> tag \<Rightarrow> u64 \<Rightarrow> Entry" where
  "typeEntry off t a = \<lparr>entOffset = off, Tag = t, Children = False, Fields = [(attrGoRuntimeType, AddressVal a)]\<rparr>"

definition typesData :: dwarfData where
  "typesData = \<lparr>decodeFrom = (\<lambda>off. map Decoded [typeEntry 3 TagBaseType 64, nullEntry, typeEntry 7 TagSubprogram 64, typeEntry 9 TagTypedef 0]),
     units = [], Ranges = (\<lambda>e. Ok []), dwarfType = (\<lambda>off. Ok (IntType (int off))),
     typeRefs = (\<lambda>_. VoidType), locListSection = None\<rparr>"

theorem runtime_types_are_found_by_address_witness:
  "\<exists>types. buildTypes typesData version_1_11 = Ok types
     \<and> debuggableTypeByAddr typesData types 64 = Ok (IntType 3)"
proof -
  have later: "LaterThan version_1_11 version_1_11" by (simp add: version_1_11_def LaterThan_def)
  have "\<exists>types. buildTypes typesData version_1_11 = Ok types"
    using later by (simp add: buildTypes_def version_1_11_def newReader_def typesData_def typesLoop_decoded del: list.map)
  then obtain types where t: "buildTypes typesData version_1_11 = Ok types" by blast
  have "decodeFrom typesData 0
      = map Decoded [typeEntry 3 TagBaseType 64, nullEntry, typeEntry 7 TagSubprogram 64, typeEntry 9 TagTypedef 0]"
    by (simp add: typesData_def)
  from runtime_types_are_found_by_address [OF this t, of 64] later t show ?thesis
    by (simp add: hasRuntimeType_def typeEntry_def addressClassAttr_def AttrField_def nullEntry_def)
      (simp add: typesData_def)
qed

lemma slice_front: "slice xs 0 n = (if n \<le> length xs then Ok (take n xs) else Panic)"
  by (simp add: slice_def)

lemma beUint64_rev: "n < 2 ^ 64 \<Longrightarrow> beUint64 (rev (le_bytes 8 n)) = n"
  by (simp add: beUint64_def le_nat_le_bytes)

text \<open>
  C29: buildLocationListData expands a section compressed in the format of the Go linker (the
  letters ZLIB, the length in eight bytes, the stream) to its contents, and passes a section of
  at least four bytes that is not compressed through; but it slices off four bytes before it
  looks at the length, so a program file whose location list section is shorter (an empty one
  too) makes openBinaryFile panic on either system, where it would be read without location lists otherwise.
\<close>

theorem location_sections_are_expanded_or_panic:
  assumes "zlib stream = Ok contents" and "length contents \<le> 2 ^ 48"
    and "sectionOf f ''.zdebug_loc'' = None" and "sectionOf f ''.debug_loc'' = Some (Ok short)"
    and "sectionOf g ''__zdebug_loc'' = None" and "sectionOf g ''__debug_loc'' = Some (Ok short)"
    and "length short < 4" and "4 \<le> length raw" and "take 4 raw \<noteq> zlibMagic"
  shows "buildLocationListData zlib
      (Some (Ok (zlibMagic @ rev (le_bytes 8 (length contents)) @ stream))) = Ok (Some contents)
    \<and> buildLocationListData zlib (Some (Ok raw)) = Ok (Some raw)
    \<and> openBinaryFile_linux fuel zlib (Ok f) goVersion = Panic
    \<and> openBinaryFile_darwin fuel zlib (Ok g) goVersion = Panic"
proof -
  have len: "length zlibMagic = 4" by (simp add: zlibMagic_def)
  have n: "length contents < 2 ^ 64" using assms(2) by simp
  have "buildLocationListData zlib
      (Some (Ok (zlibMagic @ rev (le_bytes 8 (length contents)) @ stream))) = Ok (Some contents)"
    using assms(1,2) len by (simp add: buildLocationListData_def slice_front beUint64_rev [OF n])
  moreover have "buildLocationListData zlib (Some (Ok raw)) = Ok (Some raw)"
    using assms(8,9) by (simp add: buildLocationListData_def slice_front)
  moreover have "openBinaryFile_linux fuel zlib (Ok f) goVersion = Panic"
    using assms(3,4,7)
    by (simp add: openBinaryFile_linux_def openBinaryFile_def findDWARF_def locationListSectionNames_linux_def
        buildLocationListData_def slice_front)
  moreover have "openBinaryFile_darwin fuel zlib (Ok g) goVersion = Panic"
    using assms(5-7)
    by (simp add: openBinaryFile_darwin_def findDWARF_darwin_def findDWARF_def locationListSectionNames_darwin_def
        buildLocationListData_def slice_front)
  ultimately show ?thesis by blast
qed

definition emptySectionFile :: programFile where
  "emptySectionFile = \<lparr>sectionOf = (\<lambda>n. if n = ''.debug_loc'' \<or> n = ''__debug_loc'' then Some (Ok []) else None),
     dwarfOf = Ok typesData, fileCloser = (\<lambda>_. Ok ())\<rparr>"

theorem location_sections_are_expanded_or_panic_witness:
  "buildLocationListData Ok (Some (Ok (zlibMagic @ [0, 0, 0, 0, 0, 0, 0, 2] @ [7, 8]))) = Ok (Some [7, 8])
   \<and> openBinaryFile_linux 5 Ok (Ok emptySectionFile) emptyVersion = Panic
   \<and> openBinaryFile_darwin 5 Ok (Ok emptySectionFile) emptyVersion = Panic"
proof -
  have bytes: "rev (le_bytes 8 (Suc (Suc 0))) = [0, 0, 0, 0, 0, 0, 0, 2]"
    by code_simp
  have n: "length [7, 8 :: u8] = Suc (Suc 0)" by simp
  have fits: "length [7, 8 :: u8] \<le> 2 ^ 48" unfolding n by (rule le_trans [of _ 2]) simp_all
  have none: "sectionOf emptySectionFile ''.zdebug_loc'' = None"
    and empty: "sectionOf emptySectionFile ''.debug_loc'' = Some (Ok [])"
    and none': "sectionOf emptySectionFile ''__zdebug_loc'' = None"
    and empty': "sectionOf emptySectionFile ''__debug_loc'' = Some (Ok [])"
    by (simp_all add: emptySectionFile_def)
  have short: "length ([] :: u8 list) < 4" and long: "4 \<le> length [0, 0, 0, 0 :: u8]"
    and other: "take 4 [0, 0, 0, 0] \<noteq> zlibMagic" by (simp_all add: zlibMagic_def)
  show ?thesis
    using location_sections_are_expanded_or_panic
      [of Ok "[7, 8]" "[7, 8]", OF HOL.refl fits none empty none' empty' short long other, of 5 emptyVersion]
    by (simp only: n bytes)
qed

end
