(* ===== verification/DwarfTree.thy ===== *)
theory DwarfTree
  imports DebuggableBinary
begin

text \<open>
  The entries of the DWARF section are a forest, written out in prefix order with an entry of
  tag zero behind the children of a node. The reader sees only the written-out list; the lemmas
  here relate its traversal to the forest.
\<close>

section \<open>The forest and its list\<close>

datatype die = Die Entry "die list"

fun root :: "die \<Rightarrow> Entry" where
  "root (Die e ds) = e"

fun flat :: "die \<Rightarrow> item list" and flats :: "die list \<Rightarrow> item list" where
  "flat (Die e ds) = Decoded e # (if Children e then flats ds @ [Decoded nullEntry] else [])"
| "flats [] = []"
| "flats (d # ds) = flat d @ flats ds"

fun wfDie :: "die \<Rightarrow> bool" and wfDies :: "die list \<Rightarrow> bool" where
  "wfDie (Die e ds) \<longleftrightarrow> Tag e \<noteq> TagNull \<and> (Children e \<or> ds = []) \<and> wfDies ds"
| "wfDies [] \<longleftrightarrow> True"
| "wfDies (d # ds) \<longleftrightarrow> wfDie d \<and> wfDies ds"

lemma nullEntry_sel [simp]: "Tag nullEntry = TagNull" "Children nullEntry = False"
  by (simp_all add: nullEntry_def)

lemma wfDies_iff: "wfDies ds \<longleftrightarrow> list_all wfDie ds"
  by (induction ds) auto

lemma skipLoop_flat:
  "wfDie d \<Longrightarrow> skipLoop (flat d @ items) = skipLoop items"
  "wfDies ds \<Longrightarrow> skipLoop (flats ds @ items) = skipLoop items"
  by (induction d and ds arbitrary: items and items rule: flat_flats.induct) auto

abbreviation at :: "item list \<Rightarrow> Reader" where
  "at items \<equiv> \<lparr>rest = items, lastChildren = False\<rparr>"

text \<open>The reader behind the first entry of a node, which then skips the node's children.\<close>

definition behind :: "die \<Rightarrow> item list \<Rightarrow> Reader" where
  "behind d items = \<lparr>rest = tl (flat d) @ items, lastChildren = Children (root d)\<rparr>"

lemma readerNext_flat [simp]:
  "readerNext \<lparr>rest = flat d @ items, lastChildren = b\<rparr> = (Ok (Some (root d)), behind d items)"
  by (cases d) (simp add: readerNext.simps behind_def)

lemma readerNext_Decoded [simp]:
  "readerNext \<lparr>rest = Decoded e # items, lastChildren = b\<rparr>
    = (Ok (Some e), \<lparr>rest = items, lastChildren = Children e\<rparr>)"
  "readerNext \<lparr>rest = [], lastChildren = b\<rparr> = (Ok None, \<lparr>rest = [], lastChildren = b\<rparr>)"
  by (simp_all add: readerNext.simps)

lemma SkipChildren_behind [simp]: "wfDie d \<Longrightarrow> SkipChildren (behind d items) = at items"
  by (cases d) (simp add: behind_def SkipChildren_def skipLoop_flat)

lemma SkipChildren_at [simp]: "SkipChildren (at items) = at items"
  by (simp add: SkipChildren_def)

section \<open>Parameters\<close>

fun buildParams :: "nat \<Rightarrow> dwarfData \<Rightarrow> Entry list \<Rightarrow> Parameter list outcome" where
  "buildParams fuel d [] = Ok []"
| "buildParams fuel d (e # es) =
     bindO (buildParameter fuel d e) (\<lambda>p. bindO (buildParams fuel d es) (\<lambda>ps. Ok (p # ps)))"

definition formalParameters :: "die list \<Rightarrow> Entry list" where
  "formalParameters ds = filter (\<lambda>e. Tag e = TagFormalParameter) (map root ds)"

lemma nextParameter_other:
  assumes "wfDie d" and "Tag (root d) \<noteq> TagFormalParameter"
  shows "nextParameter fuel dd \<lparr>rest = flat d @ items, lastChildren = b\<rparr> = nextParameter fuel dd (at items)"
proof -
  have "Tag (root d) \<noteq> TagNull" using assms(1) by (cases d) simp
  with assms show ?thesis by (subst nextParameter.simps) simp
qed

lemma parametersLoop_other:
  assumes "wfDie d" and "Tag (root d) \<noteq> TagFormalParameter"
  shows "parametersLoop fuel dd acc \<lparr>rest = flat d @ items, lastChildren = b\<rparr>
    = parametersLoop fuel dd acc (at items)"
  by (subst (1 2) parametersLoop.simps) (simp add: nextParameter_other assms)

lemma nextParameter_this:
  assumes "wfDie d" and "Tag (root d) = TagFormalParameter"
  shows "nextParameter fuel dd \<lparr>rest = flat d @ items, lastChildren = b\<rparr>
    = (bindO (buildParameter fuel dd (root d)) (\<lambda>p. Ok (Some p)), behind d items)"
  using assms
  by (subst nextParameter.simps)
    (simp add: bindM_readM split: outcome.splits)

lemma parametersLoop_flats:
  "wfDies ds \<Longrightarrow>
   fst (parametersLoop fuel dd acc \<lparr>rest = flats ds @ Decoded nullEntry # items, lastChildren = b\<rparr>)
     = bindO (buildParams fuel dd (formalParameters ds)) (\<lambda>ps. Ok (sort_key Offset (acc @ ps)))"
proof (induction ds arbitrary: acc b)
  case Nil
  show ?case by (subst parametersLoop.simps, subst nextParameter.simps) (simp add: formalParameters_def)
next
  case (Cons d ds)
  then have wf: "wfDie d" "wfDies ds" by simp_all
  show ?case
  proof (cases "Tag (root d) = TagFormalParameter")
    case False
    then show ?thesis
      using wf Cons.IH [of acc False] by (simp add: parametersLoop_other formalParameters_def)
  next
    case True
    have "fst (parametersLoop fuel dd acc
          \<lparr>rest = flats (d # ds) @ Decoded nullEntry # items, lastChildren = b\<rparr>)
        = bindO (buildParameter fuel dd (root d)) (\<lambda>p.
            fst (parametersLoop fuel dd (acc @ [p]) (at (flats ds @ Decoded nullEntry # items))))"
      using wf True
      by (subst parametersLoop.simps)
        (cases "buildParameter fuel dd (root d)"; simp add: nextParameter_this)
    then show ?thesis
      using True Cons.IH [OF wf(2)]
      by (cases "buildParameter fuel dd (root d)"; cases "buildParams fuel dd (formalParameters ds)")
        (simp_all add: formalParameters_def)
  qed
qed

section \<open>The search for a function\<close>

definition isFunctionAt :: "u64 \<Rightarrow> die \<Rightarrow> bool" where
  "isFunctionAt pc d \<longleftrightarrow> Tag (root d) = TagSubprogram \<and> includesPC (root d) pc"

text \<open>
  What the search finds among the children of a unit: the first subprogram that contains the
  program counter, with its direct formal parameters. A subprogram written without children
  has those of its later siblings.
\<close>

definition functionAmong :: "nat \<Rightarrow> dwarfData \<Rightarrow> u64 \<Rightarrow> die list \<Rightarrow> Function outcome" where
  "functionAmong fuel d pc ds = (case dropWhile (\<lambda>x. \<not> isFunctionAt pc x) ds of
       [] \<Rightarrow> Fail (ErrMsg ''subprogram not found'')
     | Die e ps # later \<Rightarrow>
         bindO (buildFunction fuel d e) (\<lambda>f.
         bindO (buildParams fuel d (formalParameters (if Children e then ps else later))) (\<lambda>params.
           Ok (f\<lparr>Parameters := sort_key Offset params\<rparr>))))"

lemma seek_other:
  assumes "wfDie x" and "\<not> isFunctionAt pc x"
  shows "subprogramSeekLoop fuel d pc \<lparr>rest = flat x @ items, lastChildren = b\<rparr>
    = subprogramSeekLoop fuel d pc (at items)"
  using assms by (subst subprogramSeekLoop.simps) (auto simp: isFunctionAt_def)

lemma seek_others:
  "wfDies xs \<Longrightarrow> list_all (\<lambda>x. \<not> isFunctionAt pc x) xs \<Longrightarrow>
   fst (subprogramSeekLoop fuel d pc \<lparr>rest = flats xs @ items, lastChildren = b\<rparr>)
     = fst (subprogramSeekLoop fuel d pc \<lparr>rest = items, lastChildren = b\<rparr>)"
proof (induction xs arbitrary: b)
  case (Cons x xs)
  have any: "fst (subprogramSeekLoop fuel d pc \<lparr>rest = items, lastChildren = False\<rparr>)
      = fst (subprogramSeekLoop fuel d pc \<lparr>rest = items, lastChildren = b\<rparr>)"
    by (subst (1 2) subprogramSeekLoop.simps)
      (cases items; simp add: readerNext.simps split: item.splits)
  from Cons show ?case by (simp add: seek_other any)
qed simp

lemma seek_this:
  assumes "isFunctionAt pc x"
  shows "fst (subprogramSeekLoop fuel d pc \<lparr>rest = flat x @ items, lastChildren = b\<rparr>)
    = bindO (buildFunction fuel d (root x)) (\<lambda>f.
        bindO (fst (parameters fuel d (behind x items))) (\<lambda>ps. Ok (f\<lparr>Parameters := ps\<rparr>)))"
  using assms
  by (subst subprogramSeekLoop.simps)
    (auto simp: isFunctionAt_def bindM_readM bindM_def split: outcome.splits prod.splits)

lemma seek_unit:
  assumes "wfDies ds"
    and "fst (subprogramSeekLoop fuel d pc (at items)) = Fail (ErrMsg ''subprogram not found'')"
  shows "fst (subprogramSeekLoop fuel d pc
      \<lparr>rest = flats ds @ Decoded nullEntry # items, lastChildren = b\<rparr>) = functionAmong fuel d pc ds"
  using assms(1)
proof (induction ds arbitrary: b)
  case Nil
  show ?case using assms(2) by (subst subprogramSeekLoop.simps) (simp add: functionAmong_def)
next
  case (Cons x ds)
  then have wf: "wfDie x" "wfDies ds" by simp_all
  show ?case
  proof (cases "isFunctionAt pc x")
    case False
    then show ?thesis using wf Cons.IH [of False] by (simp add: seek_other functionAmong_def)
  next
    case True
    obtain e ps where x: "x = Die e ps" by (cases x)
    have "fst (parameters fuel d (behind x (flats ds @ Decoded nullEntry # items)))
        = bindO (buildParams fuel d (formalParameters (if Children e then ps else ds)))
            (\<lambda>ps. Ok (sort_key Offset ps))"
      using wf x parametersLoop_flats [of _ fuel d "[]"] by (simp add: parameters_def behind_def)
    note params = this
    have "fst (subprogramSeekLoop fuel d pc
        \<lparr>rest = flats (x # ds) @ Decoded nullEntry # items, lastChildren = b\<rparr>)
      = bindO (buildFunction fuel d e) (\<lambda>f.
          bindO (bindO (buildParams fuel d (formalParameters (if Children e then ps else ds)))
            (\<lambda>ps. Ok (sort_key Offset ps))) (\<lambda>ps. Ok (f\<lparr>Parameters := ps\<rparr>)))"
      using seek_this [OF True, of fuel d "flats ds @ Decoded nullEntry # items" b]
      by (simp only: params) (simp add: x)
    then show ?thesis
      using True x by (simp add: functionAmong_def bindO_assoc)
  qed
qed

section \<open>Units\<close>

definition covers :: "dwarfData \<Rightarrow> u64 \<Rightarrow> die \<Rightarrow> bool" where
  "covers d pc u \<longleftrightarrow>
     (case Ranges d (root u) of Ok ranges \<Rightarrow> \<exists>(lo, hi) \<in> set ranges. lo \<le> pc \<and> pc < hi | _ \<Rightarrow> False)"

text \<open>
  The data holds a list of units: the offset of every unit decodes to this unit and the later
  ones, the ranges of every unit are known, and a unit is not itself a subprogram.
\<close>

fun presentsFrom :: "dwarfData \<Rightarrow> nat list \<Rightarrow> die list \<Rightarrow> bool" where
  "presentsFrom d [] us \<longleftrightarrow> us = []"
| "presentsFrom d (off # offs) us \<longleftrightarrow>
     decodeFrom d off = flats us \<and> us \<noteq> [] \<and> wfDies us \<and> Tag (root (hd us)) \<noteq> TagSubprogram
     \<and> isOk (Ranges d (root (hd us))) \<and> presentsFrom d offs (tl us)"

definition presents :: "dwarfData \<Rightarrow> die list \<Rightarrow> bool" where
  "presents d us \<longleftrightarrow> presentsFrom d (units d) us"

lemma presentsFrom_tags:
  "presentsFrom d offs us \<Longrightarrow> list_all (\<lambda>x. \<not> isFunctionAt pc x) us"
proof (induction d offs us rule: presentsFrom.induct)
  case (2 d off offs us)
  then show ?case by (cases us) (auto simp: isFunctionAt_def)
qed simp

lemma presentsFrom_wf: "presentsFrom d offs us \<Longrightarrow> wfDies us"
  by (cases offs) auto

definition functionInUnits :: "nat \<Rightarrow> dwarfData \<Rightarrow> u64 \<Rightarrow> die list \<Rightarrow> Function outcome" where
  "functionInUnits fuel d pc us = (case dropWhile (\<lambda>u. \<not> covers d pc u) us of
       [] \<Rightarrow> Fail (ErrMsg ''ErrUnknownPC'')
     | Die cu ds # later \<Rightarrow> functionAmong fuel d pc ds)"

lemma seek_nothing:
  "presentsFrom d offs us \<Longrightarrow>
   fst (subprogramSeekLoop fuel d pc (at (flats us))) = Fail (ErrMsg ''subprogram not found'')"
  using seek_others [of us pc fuel d "[]" False]
  by (simp add: presentsFrom_tags presentsFrom_wf) (subst subprogramSeekLoop.simps, simp)

lemma seek_in_units:
  "presentsFrom d offs us \<Longrightarrow>
   fst (bindM (seekUnits d pc offs) (\<lambda>_. subprogramSeekLoop fuel d pc) r) = functionInUnits fuel d pc us"
proof (induction d offs us arbitrary: r rule: presentsFrom.induct)
  case (1 d us)
  then show ?case by (simp add: bindM_def functionInUnits_def)
next
  case (2 d off offs us)
  then obtain u later where us: "us = u # later" by (cases us) auto
  from "2.prems" us obtain ranges where r: "Ranges d (root u) = Ok ranges" by (auto simp: isOk_iff)
  have seek: "readerNext (readerSeek d off) = (Ok (Some (root u)), behind u (flats later))"
    using "2.prems" us by (simp add: readerSeek_def)
  show ?case
  proof (cases "covers d pc u")
    case False
    then show ?thesis using "2.prems" "2.IH" us r seek
      by (simp add: covers_def functionInUnits_def bindM_def)
  next
    case True
    obtain cu ds where u: "u = Die cu ds" by (cases u)
    have wf: "wfDies ds" "Children cu \<or> ds = []" using "2.prems" us u by simp_all
    have later: "fst (subprogramSeekLoop fuel d pc (at (flats later))) = Fail (ErrMsg ''subprogram not found'')"
      using "2.prems" us seek_nothing [of d offs later fuel pc] by simp
    have "fst (subprogramSeekLoop fuel d pc (behind u (flats later))) = functionAmong fuel d pc ds"
      using wf later seek_unit [OF wf(1) later] u by (auto simp: behind_def functionAmong_def)
    with True r seek u us show ?thesis by (simp add: covers_def functionInUnits_def bindM_def)
  qed
qed

lemma debuggableFindFunction_in_units:
  "presents d us \<Longrightarrow> debuggableFindFunction fuel d pc = functionInUnits fuel d pc us"
  by (simp add: debuggableFindFunction_def subprogramSeek_def SeekPC_def presents_def seek_in_units)


text \<open>
  C14: FindFunction of a file with DWARF sections, which walks over one flat list of entries with
  one cursor, answers what a search in the forest answers: the first unit whose ranges contain
  the program counter, in it the first subprogram that contains the program counter, and the
  formal parameters that are direct children of that subprogram, sorted by their offsets; the
  first entry that cannot be read ends the search with its error. Nested blocks, inlined calls
  and the children of other functions do not contribute.
\<close>

theorem function_search_follows_the_tree:
  assumes "presents d us"
  shows "debuggableFindFunction fuel d pc = functionInUnits fuel d pc us"
  using assms by (rule debuggableFindFunction_in_units)

definition exampleParam :: "nat \<Rightarrow> string \<Rightarrow> u8 list \<Rightarrow> die" where
  "exampleParam off name loc = Die \<lparr>entOffset = off, Tag = TagFormalParameter, Children = False,
     Fields = [(AttrName, StringVal name), (AttrType, ReferenceVal 90),
       (attrVariableParameter, FlagVal False), (AttrLocation, ExprLocVal loc)]\<rparr> []"

definition exampleFunction :: "nat \<Rightarrow> string \<Rightarrow> u64 \<Rightarrow> u64 \<Rightarrow> die list \<Rightarrow> die" where
  "exampleFunction off name lo hi ds = Die \<lparr>entOffset = off, Tag = TagSubprogram, Children = True,
     Fields = [(AttrName, StringVal name), (AttrLowpc, AddressVal lo), (AttrHighpc, AddressVal hi),
       (AttrFrameBase, ExprLocVal [0x9c])]\<rparr> ds"

definition exampleUnit :: "nat \<Rightarrow> die list \<Rightarrow> die" where
  "exampleUnit off ds = Die \<lparr>entOffset = off, Tag = TagCompileUnit, Children = True, Fields = []\<rparr> ds"

definition exampleUnits :: "die list" where
  "exampleUnits =
     [exampleUnit 11 [exampleFunction 12 ''f'' 10 20 []],
      exampleUnit 31
        [exampleFunction 32 ''g'' 40 50 [exampleParam 33 ''a'' [0x9c]],
         exampleFunction 42 ''h'' 50 60
           [exampleParam 43 ''y'' [0x91, 8],
            Die \<lparr>entOffset = 44, Tag = OtherTag 0xb, Children = True, Fields = []\<rparr> [exampleParam 45 ''z'' [0x9c]],
            exampleParam 46 ''x'' [0x9c]]]]"

definition exampleData :: dwarfData where
  "exampleData = \<lparr>decodeFrom = (\<lambda>off. if off = 31 then flats (tl exampleUnits) else flats exampleUnits),
     units = [11, 31],
     Ranges = (\<lambda>e. Ok (if entOffset e = 11 then [(10, 20)] else [(40, 60)])),
     dwarfType = (\<lambda>off. Ok (IntType 8)), typeRefs = (\<lambda>_. VoidType), locListSection = None\<rparr>"

lemmas example_defs = exampleData_def exampleUnits_def exampleUnit_def exampleFunction_def exampleParam_def

theorem function_search_follows_the_tree_witness:
  "debuggableFindFunction 5 exampleData 55 = Ok \<lparr>Name = ''h'', StartAddr = 50, EndAddr = 60,
     Parameters = [\<lparr>pName = ''x'', Typ = IntType 8, Offset = 0, Exists = True, IsOutput = False\<rparr>,
       \<lparr>pName = ''y'', Typ = IntType 8, Offset = 8, Exists = True, IsOutput = False\<rparr>]\<rparr>"
proof -
  have wf: "presents exampleData exampleUnits" by (simp add: presents_def example_defs)
  have five: "5 = Suc 4" by simp
  have "functionInUnits 5 exampleData 55 exampleUnits = Ok \<lparr>Name = ''h'', StartAddr = 50, EndAddr = 60,
     Parameters = [\<lparr>pName = ''x'', Typ = IntType 8, Offset = 0, Exists = True, IsOutput = False\<rparr>,
       \<lparr>pName = ''y'', Typ = IntType 8, Offset = 8, Exists = True, IsOutput = False\<rparr>]\<rparr>"
    unfolding five by code_simp
  then show ?thesis by (simp only: function_search_follows_the_tree [OF wf])
qed

section \<open>Chains of origins\<close>

text \<open>The n-th origin of an entry.\<close>

fun originAt :: "dwarfData \<Rightarrow> nat \<Rightarrow> Entry \<Rightarrow> Entry option" where
  "originAt d 0 e = Some e"
| "originAt d (Suc n) e = Option.bind (findAbstractOrigin e d) (originAt d n)"

text \<open>
  C15: walkUpOrigins answers with the first entry on the chain of abstract origins that has what
  the caller looks for, so an out-of-line copy of an inlined function takes its name, and a
  parameter its name and type, from the nearest origin that has them; and it runs for ever, a
  stack overflow of the tracer, exactly when the chain never ends and never has it, as on a
  cycle of origins.
\<close>

theorem origins_are_walked_to_the_first_match:
  "(walkUpOrigins fuel e d f = Ok a \<longleftrightarrow>
      (\<exists>n < fuel. Option.bind (originAt d n e) f = Some a
         \<and> (\<forall>m < n. Option.bind (originAt d m e) f = None)))
   \<and> (walkUpOrigins fuel e d f = OutOfFuel \<longleftrightarrow>
      (\<forall>n < fuel. \<exists>x. originAt d n e = Some x \<and> f x = None \<and> findAbstractOrigin x d \<noteq> None))"
proof (induction fuel arbitrary: e)
  case (Suc fuel)
  show ?case
  proof (cases "f e")
    case None
    then show ?thesis
    proof (cases "findAbstractOrigin e d")
      case (Some x)
      have "originAt d (Suc n) e = originAt d n x" for n using Some by simp
      with None Some Suc [of x] show ?thesis
        by (simp add: Ex_less_Suc2 All_less_Suc2)
    qed (auto simp: Ex_less_Suc2 All_less_Suc2)
  qed (force simp: Ex_less_Suc2 All_less_Suc2)
qed simp

definition loopData :: dwarfData where
  "loopData = \<lparr>decodeFrom = (\<lambda>off.
       if off = 20 then [Decoded \<lparr>entOffset = 20, Tag = TagSubprogram, Children = False,
         Fields = [(AttrName, StringVal ''f'')]\<rparr>]
       else [Decoded \<lparr>entOffset = 30, Tag = TagSubprogram, Children = False,
         Fields = [(AttrAbstractOrigin, ReferenceVal 30)]\<rparr>]),
     units = [], Ranges = (\<lambda>e. Ok []), dwarfType = (\<lambda>off. Ok (IntType 8)),
     typeRefs = (\<lambda>_. VoidType), locListSection = None\<rparr>"

definition originRef :: "nat \<Rightarrow> Entry" where
  "originRef off = \<lparr>entOffset = 10, Tag = TagSubprogram, Children = False,
     Fields = [(AttrAbstractOrigin, ReferenceVal off)]\<rparr>"

abbreviation nameOf :: "Entry \<Rightarrow> string option" where
  "nameOf e \<equiv> okOption (stringClassAttr e AttrName)"

theorem origins_are_walked_to_the_first_match_witness:
  "walkUpOrigins 2 (originRef 20) loopData nameOf = Ok ''f''
   \<and> walkUpOrigins 3 (originRef 30) loopData nameOf = OutOfFuel"
proof
  have two: "2 = Suc (Suc 0)" "3 = Suc (Suc (Suc 0))" by simp_all
  show "walkUpOrigins 2 (originRef 20) loopData nameOf = Ok ''f''"
    using origins_are_walked_to_the_first_match [of 2 "originRef 20" loopData nameOf "''f''"]
    unfolding two
    by (auto simp: Ex_less_Suc2 All_less_Suc2 originRef_def loopData_def findAbstractOrigin_def
        referenceClassAttr_def stringClassAttr_def AttrField_def readerSeek_def attrNotFound_def)
  show "walkUpOrigins 3 (originRef 30) loopData nameOf = OutOfFuel"
    using origins_are_walked_to_the_first_match [of 3 "originRef 30" loopData nameOf]
    unfolding two
    by (auto simp: Ex_less_Suc2 All_less_Suc2 originRef_def loopData_def findAbstractOrigin_def
        referenceClassAttr_def stringClassAttr_def AttrField_def readerSeek_def attrNotFound_def)
qed

end
