(* ===== verification/LldbCodec.thy ===== *)
theory LldbCodec
  imports GoStrings
begin

text \<open>
  The textual layer of debugapi/client_darwin.go: hexadecimal numbers as the packages fmt and
  strconv of the Go library print and parse them, the conversions of the client built on them,
  checksums and packets. A Go string is a list of chars, one for each byte.
\<close>

section \<open>Hexadecimal numbers\<close>

definition hexChar :: "nat \<Rightarrow> char" where
  "hexChar d = (if d < 10 then char_of (48 + d) else char_of (87 + d))"

definition hexDigitVal :: "char \<Rightarrow> nat option" where
  "hexDigitVal c = (let n = of_char c :: nat in
     if 48 \<le> n \<and> n \<le> 57 then Some (n - 48)
     else if 97 \<le> n \<and> n \<le> 102 then Some (n - 87)
     else if 65 \<le> n \<and> n \<le> 70 then Some (n - 55)
     else None)"

text \<open>The verb \%x, and \%02x and \%016x for a number that is not negative.\<close>

fun hex_nat :: "nat \<Rightarrow> string" where
  "hex_nat n = (if n < 16 then [hexChar n] else hex_nat (n div 16) @ [hexChar (n mod 16)])"

declare hex_nat.simps [simp del]

definition hex_int :: "int \<Rightarrow> string" where
  "hex_int i = (if i < 0 then ''-'' @ hex_nat (nat (- i)) else hex_nat (nat i))"

definition hexPadded :: "nat \<Rightarrow> nat \<Rightarrow> string" where
  "hexPadded width n = replicate (width - length (hex_nat n)) (CHR ''0'') @ hex_nat n"

text \<open>A negative number fills the width of two with its sign and a digit.\<close>

definition hex02_int :: "int \<Rightarrow> string" where
  "hex02_int i = (if i < 0 then hex_int i else hexPadded 2 (nat i))"

fun hexDigits :: "nat \<Rightarrow> string \<Rightarrow> nat option" where
  "hexDigits acc [] = Some acc"
| "hexDigits acc (c # cs) = (case hexDigitVal c of None \<Rightarrow> None | Some d \<Rightarrow> hexDigits (16 * acc + d) cs)"

text \<open>strconv.ParseUint with base 16 and a bit size.\<close>

definition ParseHex :: "nat \<Rightarrow> string \<Rightarrow> nat outcome" where
  "ParseHex bits s =
     (if s = [] then Fail (ErrMsg ''invalid syntax'')
      else case hexDigits 0 s of
        None \<Rightarrow> Fail (ErrMsg ''invalid syntax'')
      | Some v \<Rightarrow> if 2 ^ bits \<le> v then Fail (ErrMsg ''value out of range'') else Ok v)"

lemma hexDigitVal_hexChar [simp]: "d < 16 \<Longrightarrow> hexDigitVal (hexChar d) = Some d"
  by (simp add: hexDigitVal_def hexChar_def Let_def)

lemma hexDigits_append:
  "hexDigits acc (s @ t) = (case hexDigits acc s of None \<Rightarrow> None | Some v \<Rightarrow> hexDigits v t)"
  by (induction s arbitrary: acc) (auto split: option.splits)

lemma hex_nat_not_Nil [simp]: "hex_nat n \<noteq> []"
  by (simp add: hex_nat.simps [of n])

lemma hexDigits_hex_nat: "hexDigits 0 (hex_nat n) = Some n"
proof (induction n rule: hex_nat.induct)
  case (1 n)
  then show ?case by (cases "n < 16") (simp_all add: hex_nat.simps [of n] hexDigits_append)
qed

lemma hexDigits_zeros: "hexDigits 0 (replicate k (CHR ''0'') @ s) = hexDigits 0 s"
  by (induction k) (simp_all add: hexDigitVal_def)

lemma hexDigits_padded: "hexDigits 0 (hexPadded w n) = Some n"
  by (simp add: hexPadded_def hexDigits_zeros hexDigits_hex_nat)

lemma hexPadded_not_Nil [simp]: "hexPadded w n \<noteq> []"
  by (simp add: hexPadded_def)

lemma length_hex_nat: "n < 16 ^ Suc k \<Longrightarrow> length (hex_nat n) \<le> Suc k"
proof (induction k arbitrary: n)
  case 0
  then show ?case by (simp add: hex_nat.simps [of n])
next
  case (Suc k)
  then have "n div 16 < 16 ^ Suc k" by (simp add: less_mult_imp_div_less mult.commute)
  from Suc.IH [OF this] show ?case by (simp add: hex_nat.simps [of n])
qed

lemma length_hexPadded: "n < 16 ^ Suc k \<Longrightarrow> length (hexPadded (Suc k) n) = Suc k"
  using length_hex_nat [of n k] by (simp add: hexPadded_def)

lemma length_hexPadded_ge: "w \<le> length (hexPadded w n)"
  by (simp add: hexPadded_def)

text \<open>Characters of a printed number: digits and the letters a to f.\<close>

definition hexLetter :: "char \<Rightarrow> bool" where
  "hexLetter c \<longleftrightarrow> hexDigitVal c \<noteq> None"

lemma hexLetter_hex_nat: "list_all hexLetter (hex_nat n)"
proof (induction n rule: hex_nat.induct)
  case (1 n)
  then show ?case by (simp add: hex_nat.simps [of n] hexLetter_def)
qed

lemma hexLetter_padded: "list_all hexLetter (hexPadded w n)"
  using hexLetter_hex_nat [of n]
  by (auto simp: hexPadded_def list_all_iff hexLetter_def hexDigitVal_def)

section \<open>Conversions of the client\<close>

text \<open>The loop that puts the pairs of hex digits in reverse order; a leading odd digit is dropped.\<close>

function reversedHex :: "string \<Rightarrow> string" where
  "reversedHex hex =
     (if length hex < 2 then []
      else drop (length hex - 2) hex @ reversedHex (take (length hex - 2) hex))"
  by pat_completeness auto
termination by (relation "measure length") auto

declare reversedHex.simps [simp del]

definition hexToUint64 :: "string \<Rightarrow> bool \<Rightarrow> u64 outcome" where
  "hexToUint64 hex littleEndian =
     bindO (ParseHex 64 (if littleEndian then reversedHex hex else hex)) (\<lambda>v. Ok (of_nat v))"

definition uint64ToHex :: "u64 \<Rightarrow> bool \<Rightarrow> string" where
  "uint64ToHex input littleEndian =
     (let hex = hexPadded 16 (unat input) in if littleEndian then reversedHex hex else hex)"

text \<open>A string of odd length is sliced beyond its end, a panic, unless a pair before is no number.\<close>

fun hexToByteArray :: "string \<Rightarrow> u8 list outcome" where
  "hexToByteArray [] = Ok []"
| "hexToByteArray [c] = Panic"
| "hexToByteArray (c # d # hex) =
     bindO (ParseHex 8 [c, d]) (\<lambda>value. bindO (hexToByteArray hex) (\<lambda>out. Ok (of_nat value # out)))"

definition byteToHex :: "u8 \<Rightarrow> string" where
  "byteToHex b = hexPadded 2 (unat b)"

text \<open>The loop of WriteMemory that prints the data.\<close>

definition bytesToHex :: "u8 list \<Rightarrow> string" where
  "bytesToHex bs = concat (map byteToHex bs)"

fun pairs :: "string \<Rightarrow> string list" where
  "pairs (c # d # s) = [c, d] # pairs s"
| "pairs _ = []"

lemma length_pairs: "even (length s) \<Longrightarrow> concat (pairs s) = s"
  by (induction s rule: pairs.induct) auto

lemma reversedHex_concat: "list_all (\<lambda>p. length p = 2) ps \<Longrightarrow> reversedHex (concat ps) = concat (rev ps)"
proof (induction ps rule: rev_induct)
  case Nil
  then show ?case by (simp add: reversedHex.simps)
next
  case (snoc p ps)
  then show ?case by (simp add: reversedHex.simps [of "concat ps @ p"])
qed

lemma pairs_length: "list_all (\<lambda>p. length p = 2) (pairs s)"
  by (induction s rule: pairs.induct) auto

lemma reversedHex_twice: "even (length s) \<Longrightarrow> reversedHex (reversedHex s) = s"
proof -
  assume "even (length s)"
  then have s: "s = concat (pairs s)" by (simp add: length_pairs)
  have "reversedHex s = concat (rev (pairs s))"
    by (subst s, rule reversedHex_concat) (rule pairs_length)
  moreover have "reversedHex (concat (rev (pairs s))) = concat (rev (rev (pairs s)))"
    by (rule reversedHex_concat) (simp add: list_all_rev pairs_length)
  ultimately show ?thesis using s by simp
qed

lemma length_reversedHex: "even (length s) \<Longrightarrow> length (reversedHex s) = length s"
proof (induction s rule: reversedHex.induct)
  case (1 s)
  show ?case
  proof (cases "length s < 2")
    case True
    with "1.prems" have "length s = 0" by presburger
    then show ?thesis by (simp add: reversedHex.simps)
  next
    case False
    have "even (length s - 2)" using "1.prems" by simp
    then show ?thesis using "1.IH" False by (simp add: reversedHex.simps [of s])
  qed
qed

lemma length_hex64: "length (hexPadded 16 (unat (x :: u64))) = 16"
proof -
  have "unat x < 16 ^ Suc 15" using unsigned_less [of x] by simp
  from length_hexPadded [OF this] show ?thesis by simp
qed

lemma length_uint64ToHex [simp]: "length (uint64ToHex x le) = 16"
  by (simp add: uint64ToHex_def Let_def length_hex64 length_reversedHex)

lemma hexToUint64_uint64ToHex [simp]: "hexToUint64 (uint64ToHex x le) le = Ok x"
proof -
  have rev: "(if le then reversedHex (uint64ToHex x le) else uint64ToHex x le) = hexPadded 16 (unat x)"
    by (simp add: uint64ToHex_def Let_def reversedHex_twice length_hex64)
  have "unat x < 2 ^ 64" using unsigned_less [of x] by simp
  then show ?thesis
    by (simp add: hexToUint64_def rev ParseHex_def hexDigits_padded)
qed

lemma byteToHex_pair: "\<exists>c d. byteToHex b = [c, d]"
proof -
  have "unat b < 16 ^ Suc 1" using unsigned_less [of b] by simp
  from length_hexPadded [OF this] have "length (byteToHex b) = 2"
    by (simp add: byteToHex_def numeral_2_eq_2)
  then show ?thesis by (auto simp: length_Suc_conv numeral_2_eq_2)
qed

lemma ParseHex_byteToHex: "ParseHex 8 (byteToHex b) = Ok (unat b)"
proof -
  have "unat b < 2 ^ 8" using unsigned_less [of b] by simp
  then show ?thesis by (simp add: ParseHex_def byteToHex_def hexDigits_padded)
qed

lemma bytesToHex_Cons: "bytesToHex (b # bs) = byteToHex b @ bytesToHex bs"
  by (simp add: bytesToHex_def)

lemma hexToByteArray_bytesToHex [simp]: "hexToByteArray (bytesToHex bs) = Ok bs"
proof (induction bs)
  case Nil
  then show ?case by (simp add: bytesToHex_def)
next
  case (Cons b bs)
  obtain c d where cd: "byteToHex b = [c, d]" using byteToHex_pair by blast
  then show ?case using Cons ParseHex_byteToHex [of b] by (simp add: bytesToHex_Cons)
qed

section \<open>Slices of strings\<close>

definition sliceStr :: "string \<Rightarrow> int \<Rightarrow> int \<Rightarrow> string outcome" where
  "sliceStr s lo hi =
     (if 0 \<le> lo \<and> lo \<le> hi \<and> hi \<le> int (length s)
      then Ok (take (nat (hi - lo)) (drop (nat lo) s)) else Panic)"

section \<open>Packets\<close>

definition calcChecksum :: "string \<Rightarrow> u8" where
  "calcChecksum buff = foldl (\<lambda>sum b. sum + of_char b) 0 buff"

text \<open>
  A packet as the protocol has it: the checksum in two digits. Without acknowledgements the
  client does not compute it.
\<close>

definition packetOf :: "bool \<Rightarrow> string \<Rightarrow> string" where
  "packetOf noAck command =
     ''$'' @ command @ ''#'' @ (if noAck then ''00'' else hexPadded 2 (unat (calcChecksum command)))"

definition verifyPacket :: "string \<Rightarrow> unit outcome" where
  "verifyPacket packet =
     bindO (sliceStr packet 0 1) (\<lambda>front.
     if front \<noteq> ''$'' then Fail (ErrMsg ''invalid head data'')
     else bindO (sliceStr packet (int (length packet) - 3) (int (length packet) - 2)) (\<lambda>mark.
     if mark \<noteq> ''#'' then Fail (ErrMsg ''invalid tail data'')
     else bindO (sliceStr packet 1 (int (length packet) - 3)) (\<lambda>body.
     bindO (sliceStr packet (int (length packet) - 2) (int (length packet))) (\<lambda>tailChecksum.
     if tailChecksum \<noteq> hex_nat (unat (calcChecksum body)) then Fail (ErrMsg ''invalid checksum'')
     else Ok ()))))"

lemma length_checksum: "length (hexPadded 2 (unat (x :: u8))) = 2"
  using byteToHex_pair [of x] by (auto simp: byteToHex_def)

lemma hexPadded_2: "hexPadded 2 n = hex_nat n \<longleftrightarrow> 16 \<le> n"
proof (cases "n < 16")
  case True
  then show ?thesis by (simp add: hexPadded_def hex_nat.simps [of n])
next
  case False
  then have "2 \<le> length (hex_nat n)"
    using hex_nat_not_Nil [of "n div 16"] by (simp add: hex_nat.simps [of n] Suc_le_eq)
  with False show ?thesis by (simp add: hexPadded_def)
qed

lemma sliceStr_parts [simp]:
  assumes "lo = int (length pre)" and "hi = int (length pre) + int (length mid)"
  shows "sliceStr (pre @ mid @ suf) lo hi = Ok mid"
  using assms by (simp add: sliceStr_def)

text \<open>
  Of the packets the protocol forms (the checksum in two hexadecimal digits), the client
  accepts exactly those whose checksum is at least 16: it prints the checksum it expects without
  padding, so a correct packet with a smaller one is refused as corrupt.
\<close>

theorem correct_packets_with_low_checksums_are_refused:
  "verifyPacket (packetOf False body) =
     (if 16 \<le> unat (calcChecksum body) then Ok () else Fail (ErrMsg ''invalid checksum''))"
proof -
  let ?sum = "hexPadded 2 (unat (calcChecksum body))"
  let ?p = "packetOf False body"
  have len: "length ?p = length body + 4" by (simp add: packetOf_def length_checksum)
  have "sliceStr ?p 0 1 = Ok ''$''"
    using sliceStr_parts [of 0 "[]" 1 "''$''" "body @ ''#'' @ ?sum"] by (simp add: packetOf_def)
  moreover have "sliceStr ?p (int (length ?p) - 3) (int (length ?p) - 2) = Ok ''#''"
    using sliceStr_parts [of _ "''$'' @ body" _ "''#''" ?sum] by (simp add: len) (simp add: packetOf_def)
  moreover have "sliceStr ?p 1 (int (length ?p) - 3) = Ok body"
    using sliceStr_parts [of 1 "''$''" _ body "''#'' @ ?sum"] by (simp add: len) (simp add: packetOf_def)
  moreover have "sliceStr ?p (int (length ?p) - 2) (int (length ?p)) = Ok ?sum"
    using sliceStr_parts [of _ "''$'' @ body @ ''#''" _ ?sum "[]"]
    by (simp add: len length_checksum) (simp add: packetOf_def add.commute)
  ultimately show ?thesis by (simp add: verifyPacket_def hexPadded_2)
qed

end
