(* ===== verification/LldbClient.thy ===== *)
theory LldbClient
  imports DebugApi LldbCodec
begin

text \<open>
  debugapi/client_darwin.go: the client that controls the tracee through the debugserver of lldb.
  The operating system (the connection, the listener, the started command, the output writer) is
  the record \<open>'k lldbOS\<close> over its own state \<open>'k\<close>. Loops that read until something arrives take
  a number of rounds. A read of the connection answers at least one byte or an error.
\<close>

section \<open>The operating system and the client's state\<close>

datatype connection = CommandExits | AcceptFails | Connected

record 'k lldbOS =
  connWrite :: "string \<Rightarrow> ('k, nat) prog"
  connRead :: "bool \<Rightarrow> nat \<Rightarrow> ('k, string) prog"
  connClose :: "('k, unit) prog"
  isTimeout :: "error \<Rightarrow> bool"
  netListen :: "('k, string) prog"
  pathExists :: "string \<Rightarrow> 'k \<Rightarrow> bool"
  startCmd :: "string \<Rightarrow> string list \<Rightarrow> ('k, int) prog"
  acceptOrExit :: "('k, connection) prog"
  writeOutput :: "u8 list \<Rightarrow> ('k, unit) prog"

record registerMetadata =
  regName :: string
  regId :: int
  regOffset :: int
  regSize :: int

text \<open>The connection is nil before the first one is accepted; then calling it is a panic.\<close>

record 'k lldbClient =
  osState :: 'k
  connected :: bool
  lldbPid :: int
  lldbKillOnDetach :: bool
  noAckMode :: bool
  registerMetadataList :: "registerMetadata list"
  readTLSFuncAddr :: u64
  currentTLSOffset :: u32
  pendingSignal :: int

definition maxPacketSize :: nat where "maxPacketSize = 4096"
definition excBadAccess :: int where "excBadAccess = 0x91"
definition sigTrap :: int where "sigTrap = 5"

definition NewClient :: "'k \<Rightarrow> 'k lldbClient" where
  "NewClient k = \<lparr>osState = k, connected = False, lldbPid = 0, lldbKillOnDetach = False,
     noAckMode = False, registerMetadataList = [], readTLSFuncAddr = 0, currentTLSOffset = 0,
     pendingSignal = 0\<rparr>"

definition onOS :: "('k, 'a) prog \<Rightarrow> ('k lldbClient, 'a) prog" where
  "onOS = zoomM osState (\<lambda>k c. c\<lparr>osState := k\<rparr>)"

definition onConn :: "('k, 'a) prog \<Rightarrow> ('k lldbClient, 'a) prog" where
  "onConn m = bindM (getsM connected) (\<lambda>open. if open then onOS m else panicM)"

text \<open>An error put behind a text by fmt.Errorf.\<close>

definition wrapErr :: "string \<Rightarrow> ('s, 'a) prog \<Rightarrow> ('s, 'a) prog" where
  "wrapErr msg m = catchM m (\<lambda>e. failM (Wrapped msg e))"

text \<open>A deferred call: it runs on every way out, and its own error is dropped.\<close>

definition deferM :: "('s, 'a) prog \<Rightarrow> ('s, unit) prog \<Rightarrow> ('s, 'a) prog" where
  "deferM m d = (\<lambda>s. case m s of
       (OutOfFuel, s1) \<Rightarrow> (OutOfFuel, s1)
     | (r, s1) \<Rightarrow> (case d s1 of
           (Panic, s2) \<Rightarrow> (Panic, s2)
         | (OutOfFuel, s2) \<Rightarrow> (OutOfFuel, s2)
         | (_, s2) \<Rightarrow> (r, s2)))"

section \<open>Packets on the connection\<close>

definition receiveAck :: "'k lldbOS \<Rightarrow> ('k lldbClient, unit) prog" where
  "receiveAck os = bindM (onConn (connRead os False 1)) (\<lambda>s.
     if take 1 s \<noteq> ''+'' then failM (ErrMsg ''failed to receive ack'') else returnM ())"

definition sendAck :: "'k lldbOS \<Rightarrow> ('k lldbClient, unit) prog" where
  "sendAck os = bindM (onConn (connWrite os ''+'')) (\<lambda>_. returnM ())"

definition send :: "'k lldbOS \<Rightarrow> string \<Rightarrow> ('k lldbClient, unit) prog" where
  "send os command =
     bindM (getsM noAckMode) (\<lambda>noAck.
     bindM (onConn (connWrite os (packetOf noAck command))) (\<lambda>n.
       if n \<noteq> length (packetOf noAck command) then failM (ErrMsg ''only part of the buffer is sent'')
       else if noAck then returnM ()
       else receiveAck os))"

text \<open>
  Reading goes on until the packet has four bytes and its third last byte is the mark.
  \<open>deadline\<close> says whether a read deadline is set on the connection.
\<close>

fun readPacket :: "nat \<Rightarrow> 'k lldbOS \<Rightarrow> bool \<Rightarrow> string \<Rightarrow> ('k lldbClient, string) prog" where
  "readPacket 0 os deadline rawPacket = outOfFuelM"
| "readPacket (Suc fuel) os deadline rawPacket =
     bindM (onConn (connRead os deadline maxPacketSize)) (\<lambda>s.
       let raw = rawPacket @ s in
       if length raw < 4 then readPacket fuel os deadline raw
       else if raw ! (length raw - 3) = CHR ''#'' then returnM raw
       else readPacket fuel os deadline raw)"

definition receivePacket :: "nat \<Rightarrow> 'k lldbOS \<Rightarrow> bool \<Rightarrow> ('k lldbClient, string) prog" where
  "receivePacket fuel os deadline =
     bindM (readPacket fuel os deadline []) (\<lambda>packet.
       let data = take (length packet - 4) (drop 1 packet) in
       bindM (getsM noAckMode) (\<lambda>noAck.
         if noAck then returnM data
         else seqM (readM (\<lambda>_. verifyPacket packet)) (seqM (sendAck os) (returnM data))))"

definition receive :: "nat \<Rightarrow> 'k lldbOS \<Rightarrow> ('k lldbClient, string) prog" where
  "receive fuel os = receivePacket fuel os False"

text \<open>With a deadline of ten seconds from now, which is taken off again.\<close>

definition receiveWithTimeout :: "nat \<Rightarrow> 'k lldbOS \<Rightarrow> ('k lldbClient, string) prog" where
  "receiveWithTimeout fuel os = receivePacket fuel os True"

definition receiveAndCheck :: "nat \<Rightarrow> 'k lldbOS \<Rightarrow> ('k lldbClient, unit) prog" where
  "receiveAndCheck fuel os = bindM (receive fuel os) (\<lambda>data.
     if data \<noteq> ''OK'' then failM (ErrMsg (''the error response is returned: '' @ data)) else returnM ())"

definition errorResponse :: "string \<Rightarrow> error" where
  "errorResponse data = ErrMsg (''error response: '' @ data)"

section \<open>Setting the connection up\<close>

definition setNoAckMode :: "nat \<Rightarrow> 'k lldbOS \<Rightarrow> ('k lldbClient, unit) prog" where
  "setNoAckMode fuel os =
     seqM (send os ''QStartNoAckMode'')
    (seqM (receiveAndCheck fuel os)
       (modifyM (\<lambda>c. c\<lparr>noAckMode := True\<rparr>)))"

definition qSupported :: "nat \<Rightarrow> 'k lldbOS \<Rightarrow> ('k lldbClient, unit) prog" where
  "qSupported fuel os =
     seqM (send os (''qSupported:'' @ joinWith '';'' [''swbreak+'', ''hwbreak+'', ''no-resumed+'']))
       (bindM (receive fuel os) (\<lambda>_. returnM ()))"

definition qThreadSuffixSupported :: "nat \<Rightarrow> 'k lldbOS \<Rightarrow> ('k lldbClient, unit) prog" where
  "qThreadSuffixSupported fuel os = seqM (send os ''QThreadSuffixSupported'') (receiveAndCheck fuel os)"

definition qListThreadsInStopReply :: "nat \<Rightarrow> 'k lldbOS \<Rightarrow> ('k lldbClient, unit) prog" where
  "qListThreadsInStopReply fuel os = seqM (send os ''QListThreadsInStopReply'') (receiveAndCheck fuel os)"

definition errEndOfList :: error where
  "errEndOfList = ErrMsg ''the end of list''"

text \<open>strings.SplitN at the first colon into two parts; None when there is no colon.\<close>

fun splitColon :: "string \<Rightarrow> (string \<times> string) option" where
  "splitColon [] = None"
| "splitColon (c # s) =
     (if c = CHR '':'' then Some ([], s)
      else case splitColon s of None \<Rightarrow> None | Some (key, value) \<Rightarrow> Some (c # key, value))"

text \<open>strconv.Atoi with its error.\<close>

definition AtoiErr :: "string \<Rightarrow> int outcome" where
  "AtoiErr s =
     (let neg = (take 1 s = ''-'');
          ds = (if take 1 s = ''-'' \<or> take 1 s = ''+'' then drop 1 s else s);
          v = (if neg then - int (decVal ds) else int (decVal ds))
      in if ds = [] \<or> \<not> list_all isDigit ds then Fail (ErrMsg ''invalid syntax'')
         else if v < - (2 ^ 63) \<or> 2 ^ 63 \<le> v then Fail (ErrMsg ''value out of range'')
         else Ok v)"

text \<open>The division of Go rounds toward zero.\<close>

definition bitsToBytes :: "int \<Rightarrow> int" where
  "bitsToBytes num = sgn num * (\<bar>num\<bar> div 8)"

fun metadataChunks :: "string list \<Rightarrow> registerMetadata \<Rightarrow> registerMetadata outcome" where
  "metadataChunks [] reg = Ok reg"
| "metadataChunks (chunk # chunks) reg = (case splitColon chunk of
       None \<Rightarrow> metadataChunks chunks reg
     | Some (key, value) \<Rightarrow>
         if key = ''name'' then metadataChunks chunks (reg\<lparr>regName := value\<rparr>)
         else if key = ''bitsize'' then
           bindO (AtoiErr value) (\<lambda>num. metadataChunks chunks (reg\<lparr>regSize := bitsToBytes num\<rparr>))
         else if key = ''offset'' then
           bindO (AtoiErr value) (\<lambda>num. metadataChunks chunks (reg\<lparr>regOffset := num\<rparr>))
         else metadataChunks chunks reg)"

definition parseRegisterMetaData :: "int \<Rightarrow> string \<Rightarrow> registerMetadata outcome" where
  "parseRegisterMetaData registerID data =
     metadataChunks (splitOn (CHR '';'') data)
       \<lparr>regName = [], regId = registerID, regOffset = 0, regSize = 0\<rparr>"

definition qRegisterInfo :: "nat \<Rightarrow> 'k lldbOS \<Rightarrow> int \<Rightarrow> ('k lldbClient, registerMetadata) prog" where
  "qRegisterInfo fuel os registerID =
     seqM (send os (''qRegisterInfo'' @ hex_int registerID))
    (bindM (receive fuel os) (\<lambda>data.
       if HasPrefix data ''E'' then
         (if data = ''E45'' then failM errEndOfList else failM (errorResponse data))
       else readM (\<lambda>_. parseRegisterMetaData registerID data)))"

fun metadataLoop ::
  "nat \<Rightarrow> nat \<Rightarrow> 'k lldbOS \<Rightarrow> int \<Rightarrow> registerMetadata list \<Rightarrow> ('k lldbClient, registerMetadata list) prog"
where
  "metadataLoop fuel 0 os i regs = outOfFuelM"
| "metadataLoop fuel (Suc rounds) os i regs =
     branchM (qRegisterInfo fuel os i)
       (\<lambda>reg. metadataLoop fuel rounds os (i + 1) (regs @ [reg]))
       (\<lambda>e. if e = errEndOfList then returnM regs else failM e)"

definition collectRegisterMetadata ::
  "nat \<Rightarrow> 'k lldbOS \<Rightarrow> ('k lldbClient, registerMetadata list) prog" where
  "collectRegisterMetadata fuel os = metadataLoop fuel fuel os 0 []"

definition allocateMemory :: "nat \<Rightarrow> 'k lldbOS \<Rightarrow> int \<Rightarrow> ('k lldbClient, u64) prog" where
  "allocateMemory fuel os n =
     seqM (send os (''_M'' @ hex_int n @ '',rwx''))
    (bindM (receive fuel os) (\<lambda>data.
       if data = [] \<or> HasPrefix data ''E'' then failM (errorResponse data)
       else readM (\<lambda>_. hexToUint64 data False)))"

definition deallocateMemory :: "nat \<Rightarrow> 'k lldbOS \<Rightarrow> u64 \<Rightarrow> ('k lldbClient, unit) prog" where
  "deallocateMemory fuel os a = seqM (send os (''_m'' @ hex_nat (unat a))) (receiveAndCheck fuel os)"

text \<open>mov rcx, gs:[offset] in machine code.\<close>

definition buildReadTLSFunction :: "u32 \<Rightarrow> u8 list" where
  "buildReadTLSFunction offset = [0x65, 0x48, 0x8b, 0x0c, 0x25] @ le_bytes 4 (unat offset)"

definition lldbInitialize :: "nat \<Rightarrow> 'k lldbOS \<Rightarrow> ('k lldbClient, unit) prog" where
  "lldbInitialize fuel os =
     seqM (setNoAckMode fuel os)
    (seqM (qSupported fuel os)
    (seqM (qThreadSuffixSupported fuel os)
    (bindM (collectRegisterMetadata fuel os) (\<lambda>regs.
     seqM (modifyM (\<lambda>c. c\<lparr>registerMetadataList := regs\<rparr>))
    (seqM (qListThreadsInStopReply fuel os)
    (bindM (allocateMemory fuel os (int (length (buildReadTLSFunction 0)))) (\<lambda>a.
       modifyM (\<lambda>c. c\<lparr>readTLSFuncAddr := a\<rparr>))))))))"

definition debugServerPathList :: "string list" where
  "debugServerPathList =
     [''/Library/Developer/CommandLineTools/Library/PrivateFrameworks/LLDB.framework/Versions/A/Resources/debugserver'',
      ''/Applications/Xcode.app/Contents/SharedFrameworks/LLDB.framework/Resources/debugserver'']"

definition debugServerPath :: "'k lldbOS \<Rightarrow> 'k lldbClient \<Rightarrow> string outcome" where
  "debugServerPath os c = (case find (\<lambda>path. pathExists os path (osState c)) debugServerPathList of
       Some path \<Rightarrow> Ok path
     | None \<Rightarrow> Fail (ErrMsg ''debugserver is not found in these paths''))"

text \<open>
  waitConnectOrExit selects between the exit of the command and a connection; which one comes
  first is the operating system's choice.
\<close>

definition waitConnectOrExit :: "'k lldbOS \<Rightarrow> ('k lldbClient, unit) prog" where
  "waitConnectOrExit os = bindM (onOS (acceptOrExit os)) (\<lambda>r. case r of
       CommandExits \<Rightarrow> failM (ErrMsg ''the command exits immediately'')
     | AcceptFails \<Rightarrow> failM (ErrMsg ''failed to accept the connection'')
     | Connected \<Rightarrow> returnM ())"

text \<open>
  The common part of LaunchProcess and AttachProcess: \<open>lastArgs\<close> are the arguments behind the
  address, \<open>kill\<close> says whether the tracee is killed on detach. A failed connection is nil.
\<close>

definition startDebugServer :: "'k lldbOS \<Rightarrow> string list \<Rightarrow> ('k lldbClient, int) prog" where
  "startDebugServer os lastArgs =
     bindM (onOS (netListen os)) (\<lambda>addr.
     bindM (readM (debugServerPath os)) (\<lambda>path.
     bindM (onOS (startCmd os path ([''-F'', ''-R'', addr] @ lastArgs))) (\<lambda>pid.
     branchM (waitConnectOrExit os)
       (\<lambda>_. seqM (modifyM (\<lambda>c. c\<lparr>connected := True\<rparr>)) (returnM pid))
       (\<lambda>e. seqM (modifyM (\<lambda>c. c\<lparr>connected := False\<rparr>)) (failM e)))))"

definition lldbLaunchProcess ::
  "nat \<Rightarrow> 'k lldbOS \<Rightarrow> string \<Rightarrow> string list \<Rightarrow> ('k lldbClient, unit) prog" where
  "lldbLaunchProcess fuel os name arg =
     bindM (startDebugServer os ([''--'', name] @ arg)) (\<lambda>pid.
     seqM (modifyM (\<lambda>c. c\<lparr>lldbPid := pid, lldbKillOnDetach := True\<rparr>)) (lldbInitialize fuel os))"

definition lldbAttachProcess :: "nat \<Rightarrow> 'k lldbOS \<Rightarrow> int \<Rightarrow> ('k lldbClient, unit) prog" where
  "lldbAttachProcess fuel os pid =
     bindM (startDebugServer os [''--attach='' @ dec_int pid]) (\<lambda>serverPid.
     seqM (modifyM (\<lambda>c. c\<lparr>lldbPid := serverPid\<rparr>)) (lldbInitialize fuel os))"

section \<open>Detaching\<close>

definition lldbKillProcess :: "nat \<Rightarrow> 'k lldbOS \<Rightarrow> ('k lldbClient, unit) prog" where
  "lldbKillProcess fuel os =
     seqM (send os ''k'')
    (bindM (receive fuel os) (\<lambda>data.
       if \<not> HasPrefix data ''X09'' then failM (ErrMsg (''unexpected reply: '' @ data)) else returnM ()))"

definition lldbClose :: "'k lldbOS \<Rightarrow> ('k lldbClient, unit) prog" where
  "lldbClose os = onConn (connClose os)"

definition lldbDetachProcess :: "nat \<Rightarrow> 'k lldbOS \<Rightarrow> ('k lldbClient, unit) prog" where
  "lldbDetachProcess fuel os = deferM
     (bindM (getsM lldbKillOnDetach) (\<lambda>kill.
        if kill then lldbKillProcess fuel os
        else seqM (send os ''D'') (receiveAndCheck fuel os)))
     (lldbClose os)"

section \<open>Registers\<close>

definition readRegisters :: "nat \<Rightarrow> 'k lldbOS \<Rightarrow> int \<Rightarrow> ('k lldbClient, string) prog" where
  "readRegisters fuel os threadID =
     seqM (send os (''g;thread:'' @ hex_int threadID @ '';''))
    (bindM (receive fuel os) (\<lambda>data.
       if HasPrefix data ''E'' then failM (errorResponse data) else returnM data))"

fun parseRegisterData :: "registerMetadata list \<Rightarrow> string \<Rightarrow> Registers \<Rightarrow> Registers outcome" where
  "parseRegisterData [] data regs = Ok regs"
| "parseRegisterData (metadata # mds) data regs =
     bindO (sliceStr data (regOffset metadata * 2) ((regOffset metadata + regSize metadata) * 2)) (\<lambda>rawValue.
       if regName metadata = ''rip'' then
         bindO (hexToUint64 rawValue True) (\<lambda>v. parseRegisterData mds data (regs\<lparr>Rip := v\<rparr>))
       else if regName metadata = ''rsp'' then
         bindO (hexToUint64 rawValue True) (\<lambda>v. parseRegisterData mds data (regs\<lparr>Rsp := v\<rparr>))
       else if regName metadata = ''rcx'' then
         bindO (hexToUint64 rawValue True) (\<lambda>v. parseRegisterData mds data (regs\<lparr>Rcx := v\<rparr>))
       else parseRegisterData mds data regs)"

definition noRegisters :: Registers where
  "noRegisters = \<lparr>Rip = 0, Rsp = 0, Rcx = 0\<rparr>"

definition lldbReadRegisters :: "nat \<Rightarrow> 'k lldbOS \<Rightarrow> int \<Rightarrow> ('k lldbClient, Registers) prog" where
  "lldbReadRegisters fuel os threadID =
     bindM (readRegisters fuel os threadID) (\<lambda>data.
       readM (\<lambda>c. parseRegisterData (registerMetadataList c) data noRegisters))"

text \<open>The loop of WriteRegisters that puts the values into the register block.\<close>

fun putRegisters :: "registerMetadata list \<Rightarrow> Registers \<Rightarrow> string \<Rightarrow> string outcome" where
  "putRegisters [] regs data = Ok data"
| "putRegisters (metadata # mds) regs data =
     bindO (sliceStr data 0 (regOffset metadata * 2)) (\<lambda>front.
     bindO (sliceStr data ((regOffset metadata + regSize metadata) * 2) (int (length data))) (\<lambda>rear.
       putRegisters mds regs
         (if regName metadata = ''rip'' then front @ uint64ToHex (Rip regs) True @ rear
          else if regName metadata = ''rsp'' then front @ uint64ToHex (Rsp regs) True @ rear
          else if regName metadata = ''rcx'' then front @ uint64ToHex (Rcx regs) True @ rear
          else data)))"

definition lldbWriteRegisters ::
  "nat \<Rightarrow> 'k lldbOS \<Rightarrow> int \<Rightarrow> Registers \<Rightarrow> ('k lldbClient, unit) prog" where
  "lldbWriteRegisters fuel os threadID regs =
     bindM (readRegisters fuel os threadID) (\<lambda>data.
     bindM (readM (\<lambda>c. putRegisters (registerMetadataList c) regs data)) (\<lambda>data'.
     seqM (send os (''G'' @ data' @ '';thread:'' @ hex_int threadID @ '';''))
       (receiveAndCheck fuel os)))"

section \<open>Memory\<close>

text \<open>Go's copy: as many bytes as both have.\<close>

definition copyInto :: "u8 list \<Rightarrow> u8 list \<Rightarrow> u8 list" where
  "copyInto out bs = take (length out) bs @ drop (length bs) out"

text \<open>ReadMemory answers what the caller's buffer \<open>out\<close> holds afterwards.\<close>

definition lldbReadMemory :: "nat \<Rightarrow> 'k lldbOS \<Rightarrow> u64 \<Rightarrow> u8 list \<Rightarrow> ('k lldbClient, u8 list) prog" where
  "lldbReadMemory fuel os a out =
     seqM (send os (''m'' @ hex_nat (unat a) @ '','' @ hex_nat (length out)))
    (bindM (receive fuel os) (\<lambda>data.
       if HasPrefix data ''E'' then failM (errorResponse data)
       else bindM (readM (\<lambda>_. hexToByteArray data)) (\<lambda>bs. returnM (copyInto out bs))))"

definition lldbWriteMemory :: "nat \<Rightarrow> 'k lldbOS \<Rightarrow> u64 \<Rightarrow> u8 list \<Rightarrow> ('k lldbClient, unit) prog" where
  "lldbWriteMemory fuel os a data =
     seqM (send os (''M'' @ hex_nat (unat a) @ '','' @ hex_nat (length data) @ '':'' @ bytesToHex data))
       (receiveAndCheck fuel os)"

section \<open>Threads\<close>

definition qfThreadInfo :: "nat \<Rightarrow> 'k lldbOS \<Rightarrow> ('k lldbClient, string) prog" where
  "qfThreadInfo fuel os =
     seqM (send os ''qfThreadInfo'')
    (bindM (receive fuel os) (\<lambda>data.
       if \<not> HasPrefix data ''m'' then failM (ErrMsg (''unexpected response: '' @ data))
       else returnM (drop 1 data)))"

text \<open>The conversion of a uint64 to int.\<close>

fun hexThreadIDs :: "string list \<Rightarrow> int list outcome" where
  "hexThreadIDs [] = Ok []"
| "hexThreadIDs (s # ss) =
     bindO (hexToUint64 s False) (\<lambda>v. bindO (hexThreadIDs ss) (\<lambda>ids. Ok (sint v # ids)))"

definition ThreadIDs :: "nat \<Rightarrow> 'k lldbOS \<Rightarrow> ('k lldbClient, int list) prog" where
  "ThreadIDs fuel os =
     bindM (qfThreadInfo fuel os) (\<lambda>rawThreadIDs.
       readM (\<lambda>_. hexThreadIDs (splitOn (CHR '','') rawThreadIDs)))"

definition qThreadStopInfo :: "nat \<Rightarrow> 'k lldbOS \<Rightarrow> int \<Rightarrow> ('k lldbClient, string) prog" where
  "qThreadStopInfo fuel os threadID =
     seqM (send os (''qThreadStopInfo'' @ hex02_int threadID))
    (bindM (receive fuel os) (\<lambda>data.
       if HasPrefix data ''E'' then failM (errorResponse data) else returnM data))"

text \<open>The number in the second and third character of a packet.\<close>

definition packetNumber :: "string \<Rightarrow> int outcome" where
  "packetNumber data =
     bindO (sliceStr data 1 3) (\<lambda>s. bindO (hexToUint64 s False) (\<lambda>v. Ok (sint v)))"

fun selectTrappedThreads :: "nat \<Rightarrow> 'k lldbOS \<Rightarrow> int list \<Rightarrow> ('k lldbClient, int list) prog" where
  "selectTrappedThreads fuel os [] = returnM []"
| "selectTrappedThreads fuel os (threadID # tids) =
     bindM (qThreadStopInfo fuel os threadID) (\<lambda>data.
     bindM (readM (\<lambda>_. packetNumber data)) (\<lambda>signalNumber.
     bindM (selectTrappedThreads fuel os tids) (\<lambda>trapped.
       returnM (if signalNumber = sigTrap then threadID # trapped else trapped))))"

fun firstStopped :: "nat \<Rightarrow> 'k lldbOS \<Rightarrow> int list \<Rightarrow> ('k lldbClient, string) prog" where
  "firstStopped fuel os [] = returnM []"
| "firstStopped fuel os (threadID # tids) =
     bindM (qThreadStopInfo fuel os threadID) (\<lambda>data.
       if \<not> HasPrefix data ''T00'' then returnM data else firstStopped fuel os tids)"

definition checkStopReply :: "nat \<Rightarrow> 'k lldbOS \<Rightarrow> ('k lldbClient, string) prog" where
  "checkStopReply fuel os = bindM (ThreadIDs fuel os) (firstStopped fuel os)"

section \<open>Waiting for a stop\<close>

fun waitData :: "nat \<Rightarrow> nat \<Rightarrow> 'k lldbOS \<Rightarrow> ('k lldbClient, string) prog" where
  "waitData fuel 0 os = outOfFuelM"
| "waitData fuel (Suc rounds) os =
     branchM (receiveWithTimeout fuel os)
       (\<lambda>data. if data \<noteq> [] then returnM data else waitData fuel rounds os)
       (\<lambda>e. if isTimeout os e then
              bindM (wrapErr ''failed to query stop reply'' (checkStopReply fuel os)) (\<lambda>data.
                if data \<noteq> [] then returnM data else waitData fuel rounds os)
            else failM (Wrapped ''receive error'' e))"

text \<open>Several packets may have been received at once; the last one lost its mark and checksum before.\<close>

fun trimReplies :: "string list \<Rightarrow> string list outcome" where
  "trimReplies [] = Ok []"
| "trimReplies (reply # replies) =
     (if length reply < 3 then Panic
      else bindO (trimReplies replies) (\<lambda>rest.
        Ok ((if reply ! (length reply - 3) = CHR ''#'' then take (length reply - 3) reply else reply) # rest)))"

definition buildStopReplies :: "string \<Rightarrow> string list outcome" where
  "buildStopReplies data = trimReplies (splitOn (CHR ''$'') data)"

fun processOutputPacket :: "'k lldbOS \<Rightarrow> string list \<Rightarrow> ('k lldbClient, string list) prog" where
  "processOutputPacket os [] = returnM []"
| "processOutputPacket os ([] # replies) = panicM"
| "processOutputPacket os ((c # s) # replies) =
     (if c \<noteq> CHR ''O'' then
        bindM (processOutputPacket os replies) (\<lambda>unprocessed. returnM ((c # s) # unprocessed))
      else bindM (readM (\<lambda>_. hexToByteArray s)) (\<lambda>out.
        seqM (catchM (onOS (writeOutput os out)) (\<lambda>e. returnM ())) (processOutputPacket os replies)))"

definition handleWPacket :: "string \<Rightarrow> Event outcome" where
  "handleWPacket packet = bindO (packetNumber packet) (\<lambda>exitStatus. Ok (Exited exitStatus))"

definition handleXPacket :: "string \<Rightarrow> Event outcome" where
  "handleXPacket packet = bindO (packetNumber packet) (\<lambda>signalNumber. Ok (Terminated signalNumber))"

text \<open>The pairs of a T packet: a pair without a colon is an index out of range.\<close>

fun stopThreads :: "string list \<Rightarrow> int list outcome" where
  "stopThreads [] = Ok []"
| "stopThreads (kv # kvs) = (case splitOn (CHR '':'') kv of
       key # value # _ \<Rightarrow>
         if key = ''threads'' then
           bindO (hexThreadIDs (splitOn (CHR '','') value)) (\<lambda>ids.
           bindO (stopThreads kvs) (\<lambda>more. Ok (ids @ more)))
         else stopThreads kvs
     | _ \<Rightarrow> Panic)"

definition parseTPacket :: "string \<Rightarrow> (int \<times> int list) outcome" where
  "parseTPacket packet =
     bindO (packetNumber packet) (\<lambda>signalNumber.
       if signalNumber = excBadAccess then Fail (ErrMsg ''bad memory access'')
       else bindO (sliceStr packet 3 (int (length packet) - 1)) (\<lambda>s.
         bindO (stopThreads (splitOn (CHR '';'') s)) (\<lambda>threadIDs. Ok (signalNumber, threadIDs))))"

definition continueCommand :: "int \<Rightarrow> string" where
  "continueCommand signalNumber =
     (if signalNumber = 0 then ''vCont;c'' else ''vCont;C'' @ hex02_int signalNumber)"

text \<open>continueAndWait, wait, handleStopReply and handleTPacket call each other.\<close>

fun lldbContinueAndWait :: "nat \<Rightarrow> 'k lldbOS \<Rightarrow> int \<Rightarrow> ('k lldbClient, Event) prog"
  and lldbWait :: "nat \<Rightarrow> 'k lldbOS \<Rightarrow> ('k lldbClient, Event) prog"
  and handleStopReply :: "nat \<Rightarrow> 'k lldbOS \<Rightarrow> string list \<Rightarrow> ('k lldbClient, Event) prog"
  and handleTPacket :: "nat \<Rightarrow> 'k lldbOS \<Rightarrow> string \<Rightarrow> ('k lldbClient, Event) prog"
where
  "lldbContinueAndWait 0 os signalNumber = outOfFuelM"
| "lldbContinueAndWait (Suc fuel) os signalNumber =
     seqM (wrapErr ''send error'' (send os (continueCommand signalNumber))) (lldbWait fuel os)"
| "lldbWait 0 os = outOfFuelM"
| "lldbWait (Suc fuel) os =
     bindM (waitData fuel fuel os) (\<lambda>data.
     bindM (readM (\<lambda>_. buildStopReplies data)) (\<lambda>replies.
     bindM (wrapErr ''failed to process output packet'' (processOutputPacket os replies)) (\<lambda>stopReplies.
       if stopReplies = [] then lldbWait fuel os else handleStopReply fuel os stopReplies)))"
| "handleStopReply 0 os stopReplies = outOfFuelM"
| "handleStopReply (Suc fuel) os stopReplies =
     bindM (case hd stopReplies of
         CHR ''T'' # _ \<Rightarrow> handleTPacket fuel os (hd stopReplies)
       | CHR ''W'' # _ \<Rightarrow> readM (\<lambda>_. handleWPacket (hd stopReplies))
       | CHR ''X'' # _ \<Rightarrow> readM (\<lambda>_. handleXPacket (hd stopReplies))
       | _ \<Rightarrow> failM (ErrMsg (''unknown packet type: '' @ hd stopReplies))) (\<lambda>event.
     if IsExitEvent (eventType event)
     then seqM (catchM (lldbClose os) (\<lambda>e. returnM ())) (returnM event)
     else returnM event)"
| "handleTPacket 0 os packet = outOfFuelM"
| "handleTPacket (Suc fuel) os packet =
     bindM (readM (\<lambda>_. parseTPacket packet)) (\<lambda>(signalNumber, threadIDs).
     bindM (selectTrappedThreads fuel os threadIDs) (\<lambda>trapped.
       if trapped = [] then lldbContinueAndWait fuel os signalNumber
       else seqM (modifyM (\<lambda>c. c\<lparr>pendingSignal := (if signalNumber \<noteq> sigTrap then signalNumber else 0)\<rparr>))
         (returnM (Trapped trapped))))"

definition lldbContinue :: "nat \<Rightarrow> 'k lldbOS \<Rightarrow> ('k lldbClient, Event) prog" where
  "lldbContinue fuel os = bindM (getsM pendingSignal) (lldbContinueAndWait fuel os)"

definition stepCommand :: "int \<Rightarrow> int \<Rightarrow> string" where
  "stepCommand signal threadID =
     (if signal = 0 then ''vCont;s:'' @ hex_int threadID
      else ''vCont;S'' @ hex02_int signal @ '':'' @ hex_int threadID)"

definition lldbStepAndWait :: "nat \<Rightarrow> 'k lldbOS \<Rightarrow> int \<Rightarrow> ('k lldbClient, Event) prog" where
  "lldbStepAndWait fuel os threadID =
     bindM (getsM pendingSignal) (\<lambda>signal.
     seqM (wrapErr ''send error'' (send os (stepCommand signal threadID)))
    (bindM (lldbWait fuel os) (\<lambda>event. case event of
         Trapped threadIDs \<Rightarrow>
           if threadIDs \<noteq> [threadID] then failM (UnspecifiedThreadError threadIDs) else returnM event
       | _ \<Rightarrow> failM (ErrMsg ''unexpected event''))))"

section \<open>Thread-local storage\<close>

definition updateReadTLSFunction :: "nat \<Rightarrow> 'k lldbOS \<Rightarrow> u32 \<Rightarrow> ('k lldbClient, unit) prog" where
  "updateReadTLSFunction fuel os offset =
     bindM (getsM currentTLSOffset) (\<lambda>current.
       if current = offset then returnM ()
       else bindM (getsM readTLSFuncAddr) (\<lambda>a.
         seqM (lldbWriteMemory fuel os a (buildReadTLSFunction offset))
           (modifyM (\<lambda>c. c\<lparr>currentTLSOffset := offset\<rparr>))))"

text \<open>
  The deferred function assigns the error of restoring the registers to a local variable, after
  the results have been taken: it is lost.
\<close>

definition lldbReadTLS :: "nat \<Rightarrow> 'k lldbOS \<Rightarrow> int \<Rightarrow> u32 \<Rightarrow> ('k lldbClient, u64) prog" where
  "lldbReadTLS fuel os threadID offset =
     seqM (updateReadTLSFunction fuel os offset)
    (bindM (lldbReadRegisters fuel os threadID) (\<lambda>originalRegs. deferM
       (bindM (getsM readTLSFuncAddr) (\<lambda>a.
        seqM (lldbWriteRegisters fuel os threadID (originalRegs\<lparr>Rip := a\<rparr>))
       (bindM (lldbStepAndWait fuel os threadID) (\<lambda>_.
        bindM (lldbReadRegisters fuel os threadID) (\<lambda>modifiedRegs. returnM (Rcx modifiedRegs))))))
       (lldbWriteRegisters fuel os threadID originalRegs)))"

end
