(* ===== verification/LldbProps.thy ===== *)
theory LldbProps
  imports LldbClient
begin

text \<open>
  Properties of the debugserver client: the register block, memory over a connection to a server
  that answers as the protocol documents, and the stop replies.
\<close>

section \<open>The register block\<close>

definition named :: "registerMetadata \<Rightarrow> bool" where
  "named m \<longleftrightarrow> regName m = ''rip'' \<or> regName m = ''rsp'' \<or> regName m = ''rcx''"

definition valueOf :: "Registers \<Rightarrow> string \<Rightarrow> u64" where
  "valueOf regs name = (if name = ''rip'' then Rip regs else if name = ''rsp'' then Rsp regs else Rcx regs)"

text \<open>The positions of a register's sixteen digits in the block.\<close>

definition slot :: "registerMetadata \<Rightarrow> nat set" where
  "slot m = {i. 2 * nat (regOffset m) \<le> i \<and> i < 2 * nat (regOffset m) + 16}"

definition fits :: "nat \<Rightarrow> registerMetadata \<Rightarrow> bool" where
  "fits n m \<longleftrightarrow> 0 \<le> regOffset m \<and> 0 \<le> regSize m \<and> (regOffset m + regSize m) * 2 \<le> int n
     \<and> (named m \<longrightarrow> regSize m = 8)"

fun apart :: "registerMetadata list \<Rightarrow> bool" where
  "apart [] \<longleftrightarrow> True"
| "apart (m # ms) \<longleftrightarrow>
     (\<forall>k \<in> set ms. named m \<and> named k \<longrightarrow> regName m \<noteq> regName k \<and> slot m \<inter> slot k = {}) \<and> apart ms"

text \<open>The three registers the client knows are in the block, each once; others may overlap.\<close>

definition registerLayout :: "registerMetadata list \<Rightarrow> nat \<Rightarrow> bool" where
  "registerLayout mds n \<longleftrightarrow> list_all (fits n) mds \<and> apart mds
     \<and> {''rip'', ''rsp'', ''rcx''} \<subseteq> regName ` set mds"

definition putAt :: "nat \<Rightarrow> string \<Rightarrow> string \<Rightarrow> string" where
  "putAt o' w data = take (2 * o') data @ w @ drop (2 * o' + 16) data"

lemma length_putAt: "length w = 16 \<Longrightarrow> 2 * o' + 16 \<le> length data \<Longrightarrow> length (putAt o' w data) = length data"
  by (simp add: putAt_def)

lemma nth_putAt:
  assumes "length w = 16" and "2 * o' + 16 \<le> length data" and "i < length data"
  shows "putAt o' w data ! i = (if 2 * o' \<le> i \<and> i < 2 * o' + 16 then w ! (i - 2 * o') else data ! i)"
  using assms by (auto simp: putAt_def nth_append)

lemma fits_named:
  assumes "fits n m" and "named m"
  shows "2 * nat (regOffset m) + 16 \<le> n"
  using assms by (simp add: fits_def) linarith

lemma putRegisters_Cons:
  assumes "fits (length data) m"
  shows "putRegisters (m # ms) regs data
    = putRegisters ms regs
        (if named m then putAt (nat (regOffset m)) (uint64ToHex (valueOf regs (regName m)) True) data else data)"
proof -
  have 1: "sliceStr data 0 (regOffset m * 2) = Ok (take (2 * nat (regOffset m)) data)"
    using assms by (simp add: sliceStr_def fits_def nat_mult_distrib mult.commute)
  have 2: "sliceStr data ((regOffset m + regSize m) * 2) (int (length data))
      = Ok (drop (2 * nat (regOffset m + regSize m)) data)"
  proof -
    have "nat ((regOffset m + regSize m) * 2) = 2 * nat (regOffset m + regSize m)"
      using assms by (simp add: fits_def nat_mult_distrib)
    with assms show ?thesis by (simp only: sliceStr_def) (simp add: fits_def)
  qed
  have 3: "2 * nat (regOffset m + regSize m) = 2 * nat (regOffset m) + 16" if "named m"
    using assms that by (simp add: fits_def nat_add_distrib)
  show ?thesis
    unfolding putRegisters.simps 1 2 bindO.simps
    using 3 by (auto simp: named_def valueOf_def putAt_def)
qed

lemma putRegisters_Ok:
  assumes "list_all (fits (length data)) mds" and "apart mds"
  shows "\<exists>data'. putRegisters mds regs data = Ok data' \<and> length data' = length data
     \<and> (\<forall>i < length data. (\<forall>m \<in> set mds. named m \<longrightarrow> i \<notin> slot m) \<longrightarrow> data' ! i = data ! i)
     \<and> (\<forall>m \<in> set mds. named m \<longrightarrow>
          (\<forall>j < 16. data' ! (2 * nat (regOffset m) + j) = uint64ToHex (valueOf regs (regName m)) True ! j))"
  using assms
proof (induction mds arbitrary: data)
  case Nil
  then show ?case by simp
next
  case (Cons m ms)
  let ?w = "uint64ToHex (valueOf regs (regName m)) True"
  define d where "d = (if named m then putAt (nat (regOffset m)) ?w data else data)"
  have fit: "fits (length data) m" and fits: "list_all (fits (length data)) ms" using Cons.prems by simp_all
  have room: "named m \<Longrightarrow> 2 * nat (regOffset m) + 16 \<le> length data" by (rule fits_named [OF fit])
  have len: "length d = length data" using room by (simp add: d_def length_putAt)
  have at: "d ! i = (if named m \<and> i \<in> slot m then ?w ! (i - 2 * nat (regOffset m)) else data ! i)"
    if "i < length data" for i
    using that room by (simp add: d_def nth_putAt slot_def)
  from Cons.IH [of d] fits Cons.prems(2) len obtain data' where
    d': "putRegisters ms regs d = Ok data'" "length data' = length data"
    and rest: "\<forall>i < length data. (\<forall>k \<in> set ms. named k \<longrightarrow> i \<notin> slot k) \<longrightarrow> data' ! i = d ! i"
    and put: "\<forall>k \<in> set ms. named k \<longrightarrow>
          (\<forall>j < 16. data' ! (2 * nat (regOffset k) + j) = uint64ToHex (valueOf regs (regName k)) True ! j)"
    by auto
  have "data' ! (2 * nat (regOffset m) + j) = ?w ! j" if "named m" "j < 16" for j
  proof -
    have "2 * nat (regOffset m) + j \<in> slot m" using that by (simp add: slot_def)
    moreover from this have "\<forall>k \<in> set ms. named k \<longrightarrow> 2 * nat (regOffset m) + j \<notin> slot k"
      using Cons.prems(2) \<open>named m\<close> by auto
    ultimately show ?thesis using rest at [of "2 * nat (regOffset m) + j"] room that by simp
  qed
  then show ?case
    using d' rest put at putRegisters_Cons [OF fit, of ms regs] by (auto simp: d_def)
qed

lemma parseRegisterData_Ok:
  assumes "list_all (fits (length data)) mds"
    and "\<forall>m \<in> set mds. named m \<longrightarrow>
      take 16 (drop (2 * nat (regOffset m)) data) = uint64ToHex (valueOf regs (regName m)) True"
  shows "parseRegisterData mds data r = Ok \<lparr>
      Rip = if ''rip'' \<in> regName ` set mds then Rip regs else Rip r,
      Rsp = if ''rsp'' \<in> regName ` set mds then Rsp regs else Rsp r,
      Rcx = if ''rcx'' \<in> regName ` set mds then Rcx regs else Rcx r\<rparr>"
  using assms
proof (induction mds arbitrary: r)
  case Nil
  then show ?case by simp
next
  case (Cons m ms)
  have fit: "fits (length data) m" using Cons.prems by simp
  have range: "sliceStr data (regOffset m * 2) ((regOffset m + regSize m) * 2)
      = Ok (take (2 * nat (regSize m)) (drop (2 * nat (regOffset m)) data))"
    using fit by (simp add: sliceStr_def fits_def nat_mult_distrib algebra_simps)
  have val: "hexToUint64 (take (2 * nat (regSize m)) (drop (2 * nat (regOffset m)) data)) True
      = Ok (valueOf regs (regName m))" if "named m"
    using that fit Cons.prems(2) by (simp add: fits_def)
  note IH = Cons.IH [of "r\<lparr>Rip := Rip regs\<rparr>"] Cons.IH [of "r\<lparr>Rsp := Rsp regs\<rparr>"]
    Cons.IH [of "r\<lparr>Rcx := Rcx regs\<rparr>"] Cons.IH [of r]
  consider "regName m = ''rip''" | "regName m = ''rsp''" | "regName m = ''rcx''" | "\<not> named m"
    by (auto simp: named_def)
  then show ?case
    using IH Cons.prems range val
    by cases (auto simp: named_def valueOf_def)
qed

text \<open>
  The three registers are put into the register block and every other digit of the block is left
  as it was, so that the new block is parsed to exactly these registers, at whatever offsets and
  in whatever order the debugserver lists its registers, and even when others of them overlap
  (as eax and rax do).
\<close>

lemma registers_are_put_and_parsed_back:
  assumes "registerLayout mds (length data)"
  shows "\<exists>data'. putRegisters mds regs data = Ok data'
     \<and> parseRegisterData mds data' noRegisters = Ok regs
     \<and> length data' = length data
     \<and> (\<forall>i < length data. (\<forall>m \<in> set mds. named m \<longrightarrow> i \<notin> slot m) \<longrightarrow> data' ! i = data ! i)"
proof -
  from assms have fits: "list_all (fits (length data)) mds" and "apart mds"
    and names: "{''rip'', ''rsp'', ''rcx''} \<subseteq> regName ` set mds"
    by (simp_all add: registerLayout_def)
  with putRegisters_Ok [of data mds regs] obtain data' where
    put: "putRegisters mds regs data = Ok data'" and len: "length data' = length data"
    and same: "\<forall>i < length data. (\<forall>m \<in> set mds. named m \<longrightarrow> i \<notin> slot m) \<longrightarrow> data' ! i = data ! i"
    and digits: "\<forall>m \<in> set mds. named m \<longrightarrow>
      (\<forall>j < 16. data' ! (2 * nat (regOffset m) + j) = uint64ToHex (valueOf regs (regName m)) True ! j)"
    by blast
  have "take 16 (drop (2 * nat (regOffset m)) data') = uint64ToHex (valueOf regs (regName m)) True"
    if "m \<in> set mds" "named m" for m
  proof (rule nth_equalityI)
    have room: "2 * nat (regOffset m) + 16 \<le> length data"
      using that fits by (auto simp: list_all_iff intro: fits_named)
    then show "length (take 16 (drop (2 * nat (regOffset m)) data'))
        = length (uint64ToHex (valueOf regs (regName m)) True)" using len by simp
    fix i assume "i < length (take 16 (drop (2 * nat (regOffset m)) data'))"
    then show "take 16 (drop (2 * nat (regOffset m)) data') ! i
        = uint64ToHex (valueOf regs (regName m)) True ! i"
      using digits that room len by (simp add: nth_drop)
  qed
  with fits len have "parseRegisterData mds data' noRegisters = Ok \<lparr>
      Rip = if ''rip'' \<in> regName ` set mds then Rip regs else Rip noRegisters,
      Rsp = if ''rsp'' \<in> regName ` set mds then Rsp regs else Rsp noRegisters,
      Rcx = if ''rcx'' \<in> regName ` set mds then Rcx regs else Rcx noRegisters\<rparr>"
    by (intro parseRegisterData_Ok) auto
  with put len same names show ?thesis by auto
qed

section \<open>Requests and replies\<close>

text \<open>
  A connection to a server: what was written as a packet is answered by \<open>answer\<close>, which may change
  the server's state \<open>srv\<close>, and the packet of the reply is appended to the bytes \<open>pend\<close> still to
  be read; a read takes at least one of them from the front.
\<close>

definition wiredTo ::
  "'k lldbOS \<Rightarrow> (string \<Rightarrow> 's \<Rightarrow> string \<times> 's) \<Rightarrow> ('k \<Rightarrow> string) \<Rightarrow> ('k \<Rightarrow> 's) \<Rightarrow> bool" where
  "wiredTo os answer pend srv \<longleftrightarrow>
     (\<forall>command k. \<exists>k'. connWrite os (packetOf True command) k = (Ok (length (packetOf True command)), k')
        \<and> pend k' = pend k @ packetOf False (fst (answer command (srv k)))
        \<and> srv k' = snd (answer command (srv k))) \<and>
     (\<forall>deadline n k. 0 < n \<longrightarrow> pend k \<noteq> [] \<longrightarrow> (\<exists>s k'. connRead os deadline n k = (Ok s, k')
        \<and> s \<noteq> [] \<and> pend k = s @ pend k' \<and> srv k' = srv k))"

text \<open>The client after initialize, with nothing left to read.\<close>

definition idle :: "('k \<Rightarrow> string) \<Rightarrow> 'k lldbClient \<Rightarrow> bool" where
  "idle pend c \<longleftrightarrow> connected c \<and> noAckMode c \<and> pend (osState c) = []"

lemma onConn_run:
  "connected c \<Longrightarrow> m (osState c) = (r, k) \<Longrightarrow> onConn m c = (r, c\<lparr>osState := k\<rparr>)"
  by (simp add: onConn_def onOS_def zoomM_def)

lemma send_run:
  assumes "wiredTo os answer pend srv" and "idle pend c"
  shows "\<exists>k'. send os command c = (Ok (), c\<lparr>osState := k'\<rparr>)
     \<and> pend k' = packetOf False (fst (answer command (srv (osState c))))
     \<and> srv k' = snd (answer command (srv (osState c)))"
proof -
  from assms obtain k' where
    "connWrite os (packetOf True command) (osState c) = (Ok (length (packetOf True command)), k')"
    "pend k' = pend (osState c) @ packetOf False (fst (answer command (srv (osState c))))"
    "srv k' = snd (answer command (srv (osState c)))"
    unfolding wiredTo_def by blast
  with assms(2) show ?thesis
    by (intro exI [of _ k'])
      (simp add: send_def idle_def bindM_run(1) [OF onConn_run])
qed

text \<open>A packet is read whole, in whatever pieces it arrives, when its text does not hold the mark.\<close>

lemma mark_before_end:
  assumes "raw @ items = packetOf False reply" and "items \<noteq> []" and "4 \<le> length raw"
    and "CHR ''#'' \<notin> set reply"
  shows "raw ! (length raw - 3) \<noteq> CHR ''#''"
proof -
  let ?i = "length raw - 3"
  have "length (raw @ items) = length reply + 4" using assms(1) by (simp add: packetOf_def length_checksum)
  with assms(2) have i: "?i < Suc (length reply)" by (cases items) auto
  have "?i < length raw" using assms(3) by simp
  then have "raw ! ?i = (raw @ items) ! ?i" by (simp add: nth_append)
  also have "\<dots> = (CHR ''$'' # reply) ! ?i"
    using i by (simp add: assms(1) packetOf_def nth_append nth_Cons split: nat.split)
  finally have "raw ! ?i \<in> set (CHR ''$'' # reply)" using i by (metis length_Cons nth_mem)
  with assms(4) show ?thesis by auto
qed

lemma readPacket_run:
  assumes os: "wiredTo os answer pend srv" and mark: "CHR ''#'' \<notin> set reply"
    and "connected c" and "raw @ pend (osState c) = packetOf False reply" and "pend (osState c) \<noteq> []"
    and "length (pend (osState c)) \<le> fuel"
  shows "\<exists>k'. readPacket fuel os deadline raw c = (Ok (packetOf False reply), c\<lparr>osState := k'\<rparr>)
     \<and> pend k' = [] \<and> srv k' = srv (osState c)"
  using assms(3-6)
proof (induction fuel arbitrary: raw c)
  case 0
  then show ?case by simp
next
  case (Suc fuel)
  have "0 < maxPacketSize" by (simp add: maxPacketSize_def)
  with os Suc.prems(3) obtain s k where
    read: "connRead os deadline maxPacketSize (osState c) = (Ok s, k)" and s: "s \<noteq> []"
    and rest: "pend (osState c) = s @ pend k" and srv: "srv k = srv (osState c)"
    unfolding wiredTo_def by blast
  let ?raw = "raw @ s" and ?c = "c\<lparr>osState := k\<rparr>"
  have step: "readPacket (Suc fuel) os deadline raw c =
      (if length ?raw < 4 then readPacket fuel os deadline ?raw
       else if ?raw ! (length ?raw - 3) = CHR ''#'' then returnM ?raw
       else readPacket fuel os deadline ?raw) ?c"
    using onConn_run [of c "connRead os deadline maxPacketSize" "Ok s" k] Suc.prems(1) read
    by (simp add: Let_def bindM_def)
  have all: "?raw @ pend k = packetOf False reply" using Suc.prems(2) rest by simp
  show ?case
  proof (cases "pend k = []")
    case True
    with all have raw: "?raw = packetOf False reply" by simp
    have len: "length (packetOf False reply) = length reply + 4" by (simp add: packetOf_def length_checksum)
    have "packetOf False reply ! (length (packetOf False reply) - 3) = CHR ''#''"
      unfolding len by (simp add: packetOf_def nth_append)
    with True srv step len show ?thesis unfolding raw by (intro exI [of _ k]) simp
  next
    case False
    have "\<not> length ?raw < 4 \<Longrightarrow> ?raw ! (length ?raw - 3) \<noteq> CHR ''#''"
      using mark_before_end [OF all False _ mark] by simp
    then have "readPacket (Suc fuel) os deadline raw c = readPacket fuel os deadline ?raw ?c"
      using step by auto
    moreover have "length (pend k) \<le> fuel" using Suc.prems(4) rest s by (cases s) auto
    ultimately show ?thesis using Suc.IH [of ?c ?raw] all False srv Suc.prems(1) by simp
  qed
qed

lemma request_reply:
  assumes os: "wiredTo os answer pend srv" and c: "idle pend c"
    and reply: "fst (answer command (srv (osState c))) = reply"
    and mark: "CHR ''#'' \<notin> set reply" and fuel: "length reply + 4 \<le> fuel"
  shows "\<exists>k'. seqM (send os command) (receive fuel os) c = (Ok reply, c\<lparr>osState := k'\<rparr>)
     \<and> pend k' = [] \<and> srv k' = snd (answer command (srv (osState c)))"
proof -
  from send_run [OF os c, of command] reply obtain k where
    sent: "send os command c = (Ok (), c\<lparr>osState := k\<rparr>)" and pend: "pend k = packetOf False reply"
    and srv: "srv k = snd (answer command (srv (osState c)))" by auto
  have "length (pend k) \<le> fuel" using fuel by (simp add: pend packetOf_def length_checksum)
  with readPacket_run [OF os mark, of "c\<lparr>osState := k\<rparr>" "[]" fuel False] c pend obtain k' where
    read: "readPacket fuel os False [] (c\<lparr>osState := k\<rparr>) = (Ok (packetOf False reply), c\<lparr>osState := k'\<rparr>)"
    and drained: "pend k' = []" "srv k' = srv k"
    by (auto simp: idle_def packetOf_def)
  have data: "take (length (packetOf False reply) - 4) (drop (Suc 0) (packetOf False reply)) = reply"
    by (simp add: packetOf_def length_checksum)
  have "receive fuel os (c\<lparr>osState := k\<rparr>) = (Ok reply, c\<lparr>osState := k'\<rparr>)"
    using c by (simp add: receive_def receivePacket_def bindM_def read data Let_def idle_def)
  then have "seqM (send os command) (receive fuel os) c = (Ok reply, c\<lparr>osState := k'\<rparr>)"
    by (simp add: seqM_def bindM_def sent)
  with drained srv show ?thesis by auto
qed

section \<open>Memory\<close>

definition readCommand :: "u64 \<Rightarrow> nat \<Rightarrow> string" where
  "readCommand a n = ''m'' @ hex_nat (unat a) @ '','' @ hex_nat n"

definition writeCommand :: "u64 \<Rightarrow> u8 list \<Rightarrow> string" where
  "writeCommand a data = ''M'' @ hex_nat (unat a) @ '','' @ hex_nat (length data) @ '':'' @ bytesToHex data"

definition plainChar :: "char \<Rightarrow> bool" where
  "plainChar c \<longleftrightarrow> c \<noteq> CHR ''#'' \<and> c \<noteq> CHR ''E''"

lemma hexChar_plain: "d < 16 \<Longrightarrow> plainChar (hexChar d)"
proof -
  assume "d < 16"
  then have "(of_char (hexChar d) :: nat) = (if d < 10 then 48 + d else 87 + d)" by (simp add: hexChar_def)
  then have "(of_char (hexChar d) :: nat) \<notin> {35, 69}" using \<open>d < 16\<close> by auto
  then show ?thesis by (auto simp: plainChar_def)
qed

lemma hex_nat_plain: "list_all plainChar (hex_nat n)"
proof (induction n rule: hex_nat.induct)
  case (1 n)
  then show ?case by (simp add: hex_nat.simps [of n] hexChar_plain)
qed

lemma bytesToHex_plain: "list_all plainChar (bytesToHex bs)"
proof (induction bs)
  case Nil
  then show ?case by (simp add: bytesToHex_def)
next
  case (Cons b bs)
  have "list_all plainChar (byteToHex b)"
    unfolding byteToHex_def hexPadded_def list_all_append
    using hex_nat_plain [of "unat b"] by (simp add: list_all_iff plainChar_def)
  with Cons show ?case by (simp add: bytesToHex_Cons)
qed

lemma plain_no_mark: "list_all plainChar s \<Longrightarrow> CHR ''#'' \<notin> set s"
  by (auto simp: list_all_iff plainChar_def)

lemma plain_no_error: "list_all plainChar s \<Longrightarrow> \<not> HasPrefix s ''E''"
  by (cases s) (auto simp: HasPrefix_def plainChar_def)

lemma length_bytesToHex: "length (bytesToHex bs) = 2 * length bs"
proof (induction bs)
  case (Cons b bs)
  obtain c d where "byteToHex b = [c, d]" using byteToHex_pair by blast
  with Cons show ?case by (simp add: bytesToHex_Cons)
qed (simp add: bytesToHex_def)

lemma lldbReadMemory_run:
  assumes "wiredTo os answer pend srv" and "idle pend c"
    and "fst (answer (readCommand a (length out)) (srv (osState c))) = bytesToHex bs"
    and "2 * length bs + 4 \<le> fuel"
  shows "\<exists>k'. lldbReadMemory fuel os a out c = (Ok (copyInto out bs), c\<lparr>osState := k'\<rparr>)
     \<and> pend k' = [] \<and> srv k' = snd (answer (readCommand a (length out)) (srv (osState c)))"
proof -
  have cmd: "''m'' @ hex_nat (unat a) @ '','' @ hex_nat (length out) = readCommand a (length out)"
    by (simp add: readCommand_def)
  have "length (bytesToHex bs) + 4 \<le> fuel" using assms(4) by (simp add: length_bytesToHex)
  from request_reply [OF assms(1-3) plain_no_mark [OF bytesToHex_plain] this] obtain k' where
    run: "seqM (send os (readCommand a (length out))) (receive fuel os) c = (Ok (bytesToHex bs), c\<lparr>osState := k'\<rparr>)"
    and k':     "pend k' = []" "srv k' = snd (answer (readCommand a (length out)) (srv (osState c)))" by blast
  then show ?thesis
    unfolding lldbReadMemory_def cmd seqM_bindM
    using plain_no_error [OF bytesToHex_plain, of bs]
    by (intro exI [of _ k']) (simp add: bindM_def [of "seqM _ _"] run bindM_readM)
qed

lemma lldbWriteMemory_run:
  assumes "wiredTo os answer pend srv" and "idle pend c"
    and "fst (answer (writeCommand a data) (srv (osState c))) = ''OK''" and "6 \<le> fuel"
  shows "\<exists>k'. lldbWriteMemory fuel os a data c = (Ok (), c\<lparr>osState := k'\<rparr>)
     \<and> pend k' = [] \<and> srv k' = snd (answer (writeCommand a data) (srv (osState c)))"
proof -
  have cmd: "''M'' @ hex_nat (unat a) @ '','' @ hex_nat (length data) @ '':'' @ bytesToHex data
      = writeCommand a data" by (simp add: writeCommand_def)
  have "CHR ''#'' \<notin> set ''OK''" "length ''OK'' + 4 \<le> fuel" using assms(4) by simp_all
  from request_reply [OF assms(1-3) this] obtain k' where
    run: "seqM (send os (writeCommand a data)) (receive fuel os) c = (Ok ''OK'', c\<lparr>osState := k'\<rparr>)"
    and k':     "pend k' = []" "srv k' = snd (answer (writeCommand a data) (srv (osState c)))" by blast
  then show ?thesis
    unfolding lldbWriteMemory_def receiveAndCheck_def cmd seqM_bindM
    by (intro exI [of _ k']) (simp add: bindM_def [of "seqM _ _"] run)
qed

text \<open>
  What the protocol documents of the two memory commands, for the \<open>n\<close> bytes at an address that
  is mapped: M stores the bytes and answers OK, m answers the stored bytes.
\<close>

definition servesMemory ::
  "(string \<Rightarrow> 's \<Rightarrow> string \<times> 's) \<Rightarrow> ('s \<Rightarrow> u64 \<Rightarrow> u8) \<Rightarrow> u64 \<Rightarrow> nat \<Rightarrow> bool" where
  "servesMemory answer mem a n \<longleftrightarrow>
     (\<forall>s. fst (answer (readCommand a n) s) = bytesToHex (bytesAt (mem s) a n)) \<and>
     (\<forall>data s. length data = n \<longrightarrow> fst (answer (writeCommand a data) s) = ''OK''
        \<and> bytesAt (mem (snd (answer (writeCommand a data) s))) a n = data)"

text \<open>
  C31: Over a connection to a server that serves memory as the protocol documents, whatever pieces
  the replies arrive in, WriteMemory succeeds and ReadMemory of the same region then fills the
  caller's buffer with exactly the bytes written; every reply is taken off the connection.
\<close>

theorem memory_is_read_back_as_written:
  assumes "wiredTo os answer pend srv" and "servesMemory answer mem a (length data)" and "idle pend c"
    and "length out = length data"
    and "2 * length data + 6 \<le> fuel"
  shows "\<exists>c'. seqM (lldbWriteMemory fuel os a data) (lldbReadMemory fuel os a out) c = (Ok data, c')
     \<and> idle pend c'"
proof -
  have stores: "fst (answer (writeCommand a data) (srv (osState c))) = ''OK''"
    and stored: "bytesAt (mem (snd (answer (writeCommand a data) (srv (osState c))))) a (length data) = data"
    using assms(2) by (auto simp: servesMemory_def)
  have "6 \<le> fuel" "2 * length data + 4 \<le> fuel" using assms(5) by simp_all
  from lldbWriteMemory_run [OF assms(1,3) stores this(1)] obtain k where
    w: "lldbWriteMemory fuel os a data c = (Ok (), c\<lparr>osState := k\<rparr>)" and k: "pend k = []"
    "srv k = snd (answer (writeCommand a data) (srv (osState c)))" by blast
  have idle: "idle pend (c\<lparr>osState := k\<rparr>)" using assms(3) k by (simp add: idle_def)
  have "fst (answer (readCommand a (length out)) (srv k)) = bytesToHex data"
    using assms(2,4) stored k by (auto simp: servesMemory_def)
  with lldbReadMemory_run [OF assms(1) idle, of a out data fuel] \<open>2 * length data + 4 \<le> fuel\<close>
  obtain k' where "lldbReadMemory fuel os a out (c\<lparr>osState := k\<rparr>) = (Ok (copyInto out data), c\<lparr>osState := k'\<rparr>)"
    and "pend k' = []" by auto
  with assms(3,4) show ?thesis
    by (simp add: seqM_def bindM_def w copyInto_def idle_def)
qed

text \<open>
  When the server answers a read with fewer bytes than were asked for (the end of a mapping,
  for instance), ReadMemory returns without an error, and the rest of the caller's buffer is what
  it was before: the caller takes its own bytes for memory of the tracee.
\<close>

theorem short_reads_are_not_reported:
  assumes "wiredTo os answer pend srv" and "idle pend c"
    and "fst (answer (readCommand a (length out)) (srv (osState c))) = bytesToHex bs"
    and "length bs < length out" and "2 * length bs + 4 \<le> fuel"
  shows "fst (lldbReadMemory fuel os a out c) = Ok (bs @ drop (length bs) out)"
  using lldbReadMemory_run [OF assms(1-3,5)] assms(4) by (auto simp: copyInto_def)

text \<open>A server that holds three bytes at 0x1000, and a connection to a server that hands out one byte at a time.\<close>

type_synonym threeBytesState = "u64 \<Rightarrow> u8"

definition threeBytes :: "string \<Rightarrow> threeBytesState \<Rightarrow> string \<times> threeBytesState" where
  "threeBytes command s =
     (if take 8 command = ''M1000,3:'' then
        (case hexToByteArray (drop 8 command) of
           Ok bs \<Rightarrow> (''OK'', (\<lambda>x. if unat (x - 0x1000) < 3 then bs ! unat (x - 0x1000) else s x))
         | _ \<Rightarrow> (''E01'', s))
      else if command = ''m1000,3'' \<or> command = ''m1000,8'' then (bytesToHex (bytesAt s 0x1000 3), s)
      else (''E02'', s))"

definition bytewiseOS :: "(string \<Rightarrow> 's \<Rightarrow> string \<times> 's) \<Rightarrow> (string \<times> 's) lldbOS" where
  "bytewiseOS answer = \<lparr>
     connWrite = (\<lambda>p k. (Ok (length p),
       (fst k @ packetOf False (fst (answer (take (length p - 4) (drop 1 p)) (snd k))),
        snd (answer (take (length p - 4) (drop 1 p)) (snd k))))),
     connRead = (\<lambda>deadline n k. if fst k = [] then (Fail (ErrMsg ''EOF''), k) else (Ok (take 1 (fst k)), (drop 1 (fst k), snd k))),
     connClose = returnM (), isTimeout = (\<lambda>e. False), netListen = returnM ''localhost:1'',
     pathExists = (\<lambda>path k. True), startCmd = (\<lambda>path args. returnM 7), acceptOrExit = returnM Connected,
     writeOutput = (\<lambda>out. returnM ())\<rparr>"

lemma bytewise_wired: "wiredTo (bytewiseOS answer) answer fst snd"
proof -
  have "take (length (packetOf True command) - 4) (drop 1 (packetOf True command)) = command" for command
    by (simp add: packetOf_def)
  then show ?thesis
    by (auto simp: wiredTo_def bytewiseOS_def)
qed

definition bytewiseClient :: "'s \<Rightarrow> (string \<times> 's) lldbClient" where
  "bytewiseClient s = (NewClient ([], s))\<lparr>connected := True, noAckMode := True\<rparr>"

lemma bytewise_idle: "idle fst (bytewiseClient s)"
  by (simp add: idle_def bytewiseClient_def NewClient_def)

lemma example_commands:
  "readCommand 0x1000 3 = ''m1000,3''" "readCommand 0x1000 8 = ''m1000,8''"
  "length data = 3 \<Longrightarrow> writeCommand 0x1000 data = ''M1000,3:'' @ bytesToHex data"
proof -
  have "hex_nat (unat (0x1000 :: u64)) = ''1000''" "hex_nat 3 = ''3''" "hex_nat 8 = ''8''" by code_simp+
  then show "readCommand 0x1000 3 = ''m1000,3''" "readCommand 0x1000 8 = ''m1000,8''"
    "length data = 3 \<Longrightarrow> writeCommand 0x1000 data = ''M1000,3:'' @ bytesToHex data"
    by (simp_all add: readCommand_def writeCommand_def)
qed

lemma threeBytes_serves: "servesMemory threeBytes (\<lambda>s. s) 0x1000 3"
proof -
  have "bytesAt (\<lambda>x. if unat (x - 0x1000) < 3 then data ! unat (x - 0x1000) else s x) 0x1000 3 = data"
    if "length data = 3" for data s
    using that by (intro nth_equalityI) (simp_all add: unat_of_nat)
  then show ?thesis by (simp add: servesMemory_def example_commands threeBytes_def)
qed

theorem memory_is_read_back_as_written_witness:
  "\<exists>c'. seqM (lldbWriteMemory 12 (bytewiseOS threeBytes) 0x1000 [7, 8, 9])
       (lldbReadMemory 12 (bytewiseOS threeBytes) 0x1000 [0, 0, 0]) (bytewiseClient (\<lambda>_. 0)) = (Ok [7, 8, 9], c')"
proof -
  have "servesMemory threeBytes (\<lambda>s. s) 0x1000 (length [7, 8, 9 :: u8])" using threeBytes_serves by (simp add: numeral_3_eq_3)
  from memory_is_read_back_as_written [OF bytewise_wired [of threeBytes] this bytewise_idle, of "[0, 0, 0]" 12 "\<lambda>_. 0"]
  show ?thesis by auto
qed

theorem short_reads_are_not_reported_witness:
  "fst (lldbReadMemory 10 (bytewiseOS threeBytes) 0x1000 (replicate 8 0xff) (bytewiseClient (\<lambda>_. 7)))
     = Ok [7, 7, 7, 0xff, 0xff, 0xff, 0xff, 0xff]"
proof -
  have "fst (threeBytes (readCommand 0x1000 (length (replicate 8 (0xff :: u8)))) (snd (osState (bytewiseClient (\<lambda>_. 7)))))
      = bytesToHex [7, 7, 7]"
    by (simp add: example_commands threeBytes_def bytewiseClient_def NewClient_def bytesAt_def upt_rec)
  from short_reads_are_not_reported [OF bytewise_wired [of threeBytes] bytewise_idle this, of 10]
  show ?thesis by (simp add: eval_nat_numeral)
qed

section \<open>Registers\<close>

definition readRegsCommand :: "int \<Rightarrow> string" where
  "readRegsCommand tid = ''g;thread:'' @ hex_int tid @ '';''"

definition writeRegsCommand :: "int \<Rightarrow> string \<Rightarrow> string" where
  "writeRegsCommand tid data = ''G'' @ data @ '';thread:'' @ hex_int tid @ '';''"

text \<open>
  What the protocol documents of the two register commands, for a thread whose block has \<open>n\<close>
  digits: g answers the block of the thread and changes none, G stores its block, leaves those
  of the other threads alone, and answers OK.
\<close>

definition servesRegisters ::
  "(string \<Rightarrow> 's \<Rightarrow> string \<times> 's) \<Rightarrow> ('s \<Rightarrow> int \<Rightarrow> string) \<Rightarrow> int \<Rightarrow> nat \<Rightarrow> bool" where
  "servesRegisters answer block tid n \<longleftrightarrow>
     (\<forall>s. fst (answer (readRegsCommand tid) s) = block s tid \<and> block (snd (answer (readRegsCommand tid) s)) = block s) \<and>
     (\<forall>data s. length data = n \<longrightarrow> list_all plainChar data \<longrightarrow> fst (answer (writeRegsCommand tid data) s) = ''OK''
        \<and> block (snd (answer (writeRegsCommand tid data) s)) = (block s)(tid := data))"

lemma plain_sliceStr: "sliceStr s lo hi = Ok t \<Longrightarrow> list_all plainChar s \<Longrightarrow> list_all plainChar t"
  by (auto simp: sliceStr_def list_all_iff split: if_splits dest!: in_set_takeD in_set_dropD)

lemma plain_reversedHex: "list_all plainChar s \<Longrightarrow> list_all plainChar (reversedHex s)"
proof (induction s rule: reversedHex.induct)
  case (1 s)
  show ?case
  proof (cases "length s < 2")
    case True
    then show ?thesis by (simp add: reversedHex.simps [of s])
  next
    case False
    have "list_all plainChar (take (length s - 2) s)" "list_all plainChar (drop (length s - 2) s)"
      using "1.prems" by (auto simp: list_all_iff dest: in_set_takeD in_set_dropD)
    then show ?thesis using "1.IH" False by (simp add: reversedHex.simps [of s])
  qed
qed

lemma plain_uint64ToHex: "list_all plainChar (uint64ToHex v le)"
proof -
  have "list_all plainChar (hexPadded 16 (unat v))"
    unfolding hexPadded_def list_all_append using hex_nat_plain [of "unat v"] by (simp add: list_all_iff plainChar_def)
  then show ?thesis by (simp add: uint64ToHex_def Let_def plain_reversedHex)
qed

lemma plain_putRegisters: "putRegisters mds regs data = Ok data' \<Longrightarrow> list_all plainChar data \<Longrightarrow> list_all plainChar data'"
proof (induction mds arbitrary: data)
  case (Cons m ms)
  then obtain front rear where "sliceStr data 0 (regOffset m * 2) = Ok front"
    and "sliceStr data ((regOffset m + regSize m) * 2) (int (length data)) = Ok rear" by (auto simp: bindO_Ok)
  moreover from this Cons.prems(2) have "list_all plainChar front" "list_all plainChar rear" by (blast intro: plain_sliceStr)+
  ultimately show ?case
    using Cons.prems Cons.IH plain_uint64ToHex by (auto split: if_splits)
qed simp

lemma readRegisters_run:
  assumes "wiredTo os answer pend srv" and "idle pend c"
    and "fst (answer (readRegsCommand tid) (srv (osState c))) = data" and "list_all plainChar data" and "length data + 4 \<le> fuel"
  shows "\<exists>k'. readRegisters fuel os tid c = (Ok data, c\<lparr>osState := k'\<rparr>)
     \<and> pend k' = [] \<and> srv k' = snd (answer (readRegsCommand tid) (srv (osState c)))"
proof -
  have cmd: "''g;thread:'' @ hex_int tid @ '';'' = readRegsCommand tid" by (simp add: readRegsCommand_def)
  from request_reply [OF assms(1-3) plain_no_mark [OF assms(4)] assms(5)] obtain k' where
    run: "seqM (send os (readRegsCommand tid)) (receive fuel os) c = (Ok data, c\<lparr>osState := k'\<rparr>)"
    and k': "pend k' = []" "srv k' = snd (answer (readRegsCommand tid) (srv (osState c)))" by blast
  then show ?thesis
    unfolding readRegisters_def cmd seqM_bindM
    using plain_no_error [OF assms(4)] by (intro exI [of _ k']) (simp add: bindM_def [of "seqM _ _"] run)
qed

lemma sendRegisters_run:
  assumes "wiredTo os answer pend srv" and "idle pend c"
    and "fst (answer (writeRegsCommand tid data) (srv (osState c))) = ''OK''" and "6 \<le> fuel"
  shows "\<exists>k'. seqM (send os (''G'' @ data @ '';thread:'' @ hex_int tid @ '';'')) (receiveAndCheck fuel os) c
       = (Ok (), c\<lparr>osState := k'\<rparr>)
     \<and> pend k' = [] \<and> srv k' = snd (answer (writeRegsCommand tid data) (srv (osState c)))"
proof -
  have cmd: "''G'' @ data @ '';thread:'' @ hex_int tid @ '';'' = writeRegsCommand tid data"
    by (simp add: writeRegsCommand_def)
  have "CHR ''#'' \<notin> set ''OK''" "length ''OK'' + 4 \<le> fuel" using assms(4) by simp_all
  from request_reply [OF assms(1-3) this] obtain k' where
    run: "seqM (send os (writeRegsCommand tid data)) (receive fuel os) c = (Ok ''OK'', c\<lparr>osState := k'\<rparr>)"
    and k': "pend k' = []" "srv k' = snd (answer (writeRegsCommand tid data) (srv (osState c)))" by blast
  then show ?thesis
    unfolding receiveAndCheck_def cmd seqM_bindM
    by (intro exI [of _ k']) (simp add: bindM_def [of "seqM _ _"] run)
qed

text \<open>
  C30: Over a connection to a server that serves the register blocks of its threads as the
  protocol documents, whatever pieces the replies arrive in, WriteRegisters succeeds, and
  ReadRegisters of the same thread then answers exactly the registers that were written. In the
  server the thread's block has changed in the digits of the three registers only, and the blocks
  of all other threads are what they were. It does not matter at which offsets and in which order
  the debugserver lists its registers, nor that others of them overlap (as eax and rax do).
\<close>

theorem registers_are_written_and_read_back:
  assumes os: "wiredTo os answer pend srv" and serves: "servesRegisters answer block threadID n" and c: "idle pend c"
    and layout: "registerLayout (registerMetadataList c) n"
    and data: "length (block (srv (osState c)) threadID) = n" "list_all plainChar (block (srv (osState c)) threadID)"
    and fuel: "n + 6 \<le> fuel"
  shows "\<exists>c'. seqM (lldbWriteRegisters fuel os threadID regs) (lldbReadRegisters fuel os threadID) c = (Ok regs, c')
     \<and> idle pend c'
     \<and> (\<forall>other. other \<noteq> threadID \<longrightarrow> block (srv (osState c')) other = block (srv (osState c)) other)
     \<and> length (block (srv (osState c')) threadID) = n
     \<and> (\<forall>i < n. (\<forall>m \<in> set (registerMetadataList c). named m \<longrightarrow> i \<notin> slot m)
          \<longrightarrow> block (srv (osState c')) threadID ! i = block (srv (osState c)) threadID ! i)"
proof -
  let ?mds = "registerMetadataList c" and ?data = "block (srv (osState c)) threadID"
  from registers_are_put_and_parsed_back [of ?mds ?data regs] layout data(1) obtain data' where
    put: "putRegisters ?mds regs ?data = Ok data'" and parsed: "parseRegisterData ?mds data' noRegisters = Ok regs"
    and len: "length data' = n"
    and same: "\<forall>i < n. (\<forall>m \<in> set ?mds. named m \<longrightarrow> i \<notin> slot m) \<longrightarrow> data' ! i = ?data ! i" by auto
  have plain: "list_all plainChar data'" using plain_putRegisters [OF put data(2)] .
  have fuels: "length ?data + 4 \<le> fuel" "6 \<le> fuel" "length data' + 4 \<le> fuel" using fuel data(1) len by simp_all
  have answers: "fst (answer (readRegsCommand threadID) s) = block s threadID"
      "block (snd (answer (readRegsCommand threadID) s)) = block s" for s
    using serves by (simp_all add: servesRegisters_def)
  have stores: "fst (answer (writeRegsCommand threadID data') s) = ''OK''"
      "block (snd (answer (writeRegsCommand threadID data') s)) = (block s)(threadID := data')" for s
    using serves len plain by (simp_all add: servesRegisters_def)
  from readRegisters_run [OF os c answers(1) data(2) fuels(1)] obtain k1 where
    read: "readRegisters fuel os threadID c = (Ok ?data, c\<lparr>osState := k1\<rparr>)" and k1: "pend k1 = []"
      "block (srv k1) = block (srv (osState c))" using answers(2) by auto
  have c1: "idle pend (c\<lparr>osState := k1\<rparr>)" using c k1 by (simp add: idle_def)
  from sendRegisters_run [OF os c1 stores(1) fuels(2)] obtain k2 where
    sent: "seqM (send os (''G'' @ data' @ '';thread:'' @ hex_int threadID @ '';'')) (receiveAndCheck fuel os) (c\<lparr>osState := k1\<rparr>)
       = (Ok (), c\<lparr>osState := k2\<rparr>)" and k2: "pend k2 = []" "block (srv k2) = (block (srv k1))(threadID := data')"
    using stores(2) by auto
  have written: "lldbWriteRegisters fuel os threadID regs c = (Ok (), c\<lparr>osState := k2\<rparr>)"
    using sent by (simp add: lldbWriteRegisters_def bindM_def [of "readRegisters _ _ _"] read bindM_readM put del: bindM_primitive)
  have c2: "idle pend (c\<lparr>osState := k2\<rparr>)" using c k2 by (simp add: idle_def)
  have "fst (answer (readRegsCommand threadID) (srv (osState (c\<lparr>osState := k2\<rparr>)))) = data'" using answers(1) k2 by simp
  from readRegisters_run [OF os c2 this plain fuels(3)] obtain k3 where
    reread: "readRegisters fuel os threadID (c\<lparr>osState := k2\<rparr>) = (Ok data', c\<lparr>osState := k3\<rparr>)"
    and k3: "pend k3 = []" "block (srv k3) = block (srv k2)" using answers(2) by auto
  have "lldbReadRegisters fuel os threadID (c\<lparr>osState := k2\<rparr>) = (Ok regs, c\<lparr>osState := k3\<rparr>)"
    using parsed by (simp add: lldbReadRegisters_def bindM_def [of "readRegisters _ _ _"] reread)
  then have "seqM (lldbWriteRegisters fuel os threadID regs) (lldbReadRegisters fuel os threadID) c = (Ok regs, c\<lparr>osState := k3\<rparr>)"
    by (simp add: seqM_def bindM_def [of "lldbWriteRegisters _ _ _ _"] written)
  moreover have "idle pend (c\<lparr>osState := k3\<rparr>)" using c k3 by (simp add: idle_def)
  moreover have "block (srv k3) = (block (srv (osState c)))(threadID := data')" using k1 k2 k3 by simp
  ultimately show ?thesis using len same by (intro exI [of _ "c\<lparr>osState := k3\<rparr>"]) simp
qed

text \<open>A server with the register blocks of two threads, which knows the commands of the first.\<close>

definition exampleLayout :: "registerMetadata list" where
  "exampleLayout = [\<lparr>regName = ''rax'', regId = 0, regOffset = 0, regSize = 8\<rparr>,
     \<lparr>regName = ''rip'', regId = 1, regOffset = 16, regSize = 8\<rparr>,
     \<lparr>regName = ''rcx'', regId = 2, regOffset = 8, regSize = 8\<rparr>,
     \<lparr>regName = ''rsp'', regId = 3, regOffset = 24, regSize = 8\<rparr>,
     \<lparr>regName = ''cx'', regId = 4, regOffset = 8, regSize = 2\<rparr>]"

definition twoThreads :: "string \<Rightarrow> (int \<Rightarrow> string) \<Rightarrow> string \<times> (int \<Rightarrow> string)" where
  "twoThreads command s =
     (if command = readRegsCommand 1 then (s 1, s)
      else if command = writeRegsCommand 1 (take 64 (drop 1 command)) then (''OK'', s(1 := take 64 (drop 1 command)))
      else (''E01'', s))"

lemma twoThreads_serves: "servesRegisters twoThreads (\<lambda>s. s) 1 64"
  by (auto simp: servesRegisters_def twoThreads_def readRegsCommand_def writeRegsCommand_def)

theorem registers_are_written_and_read_back_witness:
  "\<exists>c'. seqM (lldbWriteRegisters 70 (bytewiseOS twoThreads) 1 \<lparr>Rip = 0x401000, Rsp = 7, Rcx = 9\<rparr>)
       (lldbReadRegisters 70 (bytewiseOS twoThreads) 1)
       ((bytewiseClient (\<lambda>_. replicate 64 (CHR ''f'')))\<lparr>registerMetadataList := exampleLayout\<rparr>)
     = (Ok \<lparr>Rip = 0x401000, Rsp = 7, Rcx = 9\<rparr>, c') \<and> snd (osState c') 2 = replicate 64 (CHR ''f'')"
proof -
  let ?c = "(bytewiseClient (\<lambda>_::int. replicate 64 (CHR ''f'')))\<lparr>registerMetadataList := exampleLayout\<rparr>"
  have idle: "idle fst ?c" by (simp add: idle_def bytewiseClient_def NewClient_def)
  have layout: "registerLayout (registerMetadataList ?c) 64"
    by (auto simp: registerLayout_def exampleLayout_def fits_def named_def slot_def)
  have block: "snd (osState ?c) = (\<lambda>_. replicate 64 (CHR ''f''))" "snd (osState (bytewiseClient s)) = s" for s
    by (simp_all add: bytewiseClient_def NewClient_def)
  have "length (snd (osState ?c) 1) = 64" "list_all plainChar (snd (osState ?c) 1)"
    unfolding block(1) by (simp_all add: list_all_iff plainChar_def)
  from registers_are_written_and_read_back [where block = "\<lambda>s. s" and srv = snd and threadID = 1,
      OF bytewise_wired [of twoThreads] twoThreads_serves idle layout this, of 70 "\<lparr>Rip = 0x401000, Rsp = 7, Rcx = 9\<rparr>"]
  show ?thesis by (auto simp: block(2))
qed

section \<open>Stop replies\<close>

definition keyValue :: "string \<times> string \<Rightarrow> string" where
  "keyValue kv = fst kv @ '':'' @ snd kv"

text \<open>A stop reply as the protocol has it: the signal in two digits and pairs, each ended by a semicolon.\<close>

definition stopPacket :: "nat \<Rightarrow> (string \<times> string) list \<Rightarrow> string" where
  "stopPacket signal kvs = ''T'' @ hexPadded 2 signal @ concat (map (\<lambda>w. w @ '';'') (map keyValue kvs))"

definition plainPair :: "string \<times> string \<Rightarrow> bool" where
  "plainPair kv \<longleftrightarrow> CHR '':'' \<notin> set (fst kv) \<and> CHR '':'' \<notin> set (snd kv)
     \<and> CHR '';'' \<notin> set (fst kv) \<and> CHR '';'' \<notin> set (snd kv)"

lemma plain_keyValue: "plainPair kv \<Longrightarrow> CHR '';'' \<notin> set (keyValue kv)"
  by (simp add: plainPair_def keyValue_def)

lemma stopThreads_pairs:
  "list_all plainPair kvs \<Longrightarrow> list_all (\<lambda>kv. fst kv \<noteq> ''threads'') kvs \<Longrightarrow>
   stopThreads (map keyValue kvs @ rest) = stopThreads rest"
proof (induction kvs)
  case (Cons kv kvs)
  then have "splitOn (CHR '':'') (keyValue kv) = [fst kv, snd kv]"
    by (simp add: keyValue_def plainPair_def splitOn_append splitOn_word)
  with Cons show ?case by simp
qed simp

lemma hexThreadIDs_printed:
  "list_all (\<lambda>i. i < 2 ^ 63) ids \<Longrightarrow> hexThreadIDs (map hex_nat ids) = Ok (map int ids)"
proof (induction ids)
  case (Cons i ids)
  then have i: "i < 2 ^ 63" by simp
  then have small: "i < 2 ^ 64" by simp
  have "hexToUint64 (hex_nat i) False = Ok (of_nat i)"
    using small by (simp add: hexToUint64_def ParseHex_def hexDigits_hex_nat)
  moreover have "sint (of_nat i :: u64) = int i"
    using i by (rule sint_of_nat64)
  ultimately show ?case using Cons by simp
qed simp

lemma hexDigit_chars: "list_all hexLetter s \<Longrightarrow> CHR '','' \<notin> set s \<and> CHR '':'' \<notin> set s \<and> CHR '';'' \<notin> set s"
  by (auto simp: list_all_iff hexLetter_def hexDigitVal_def)

lemma packetNumber_stop: "n < 256 \<Longrightarrow> packetNumber (''T'' @ hexPadded 2 n @ s) = Ok (int n)"
proof -
  assume n: "n < 256"
  then have len: "length (hexPadded 2 n) = 2" using length_hexPadded [of n 1] by (simp add: numeral_2_eq_2)
  have s: "sliceStr (''T'' @ hexPadded 2 n @ s) 1 3 = Ok (hexPadded 2 n)"
    by (rule sliceStr_parts) (simp_all add: len)
  have "sint (of_nat n :: u64) = int n"
    using n by (intro sint_of_nat64) simp
  with n show ?thesis
    by (simp add: packetNumber_def s [simplified] hexToUint64_def ParseHex_def hexDigits_padded)
qed

text \<open>
  C32: A stop reply with a list of threads among its pairs, and with another signal than excBadAccess
  (0x91), which the client reports as an error, is parsed to its signal and exactly
  these threads, in their order; a stop reply without any pair, which the protocol allows, makes
  the client panic: it slices the packet from the fourth character to before the last one.
\<close>

theorem stop_replies_need_a_pair:
  assumes "signal < 256" and "signal \<noteq> 0x91"
    and "list_all plainPair (front @ later)" and "list_all (\<lambda>kv. fst kv \<noteq> ''threads'') (front @ later)"
    and "ids \<noteq> []" and "list_all (\<lambda>i. i < 2 ^ 63) ids"
  shows "parseTPacket (stopPacket signal (front @ [(''threads'', joinWith '','' (map hex_nat ids))] @ later))
      = Ok (int signal, map int ids)
    \<and> parseTPacket (stopPacket signal []) = Panic"
proof
  have len: "length (hexPadded 2 signal) = 2"
    using length_hexPadded [of signal 1] assms(1) by (simp add: numeral_2_eq_2)
  let ?threads = "(''threads'', joinWith '','' (map hex_nat ids))"
  let ?kvs = "front @ [?threads] @ later"
  have comma: "list_all (\<lambda>w. CHR '','' \<notin> set w) (map hex_nat ids)"
    using hexDigit_chars [OF hexLetter_hex_nat] by (simp add: list_all_iff)
  have joined: "CHR '':'' \<notin> set (joinWith '','' ws) \<and> CHR '';'' \<notin> set (joinWith '','' ws)"
    if "list_all (list_all hexLetter) ws" for ws
    using that
  proof (induction ws)
    case (Cons w ws)
    then show ?case using hexDigit_chars by (cases ws) auto
  qed simp
  have plain: "plainPair ?threads"
    using joined [of "map hex_nat ids"] hexLetter_hex_nat by (simp add: plainPair_def list_all_iff)
  have semi: "list_all (\<lambda>w. CHR '';'' \<notin> set w) (map keyValue ?kvs)"
    using assms(3) plain plain_keyValue by (auto simp: list_all_iff)
  have ended: "concat (map (\<lambda>w. w @ '';'') (map keyValue ?kvs)) = joinWith '';'' (map keyValue ?kvs) @ '';''"
    by (rule join_terminated) simp
  have "sliceStr (stopPacket signal ?kvs) 3 (int (length (stopPacket signal ?kvs)) - 1)
      = Ok (joinWith '';'' (map keyValue ?kvs))"
    using sliceStr_parts [of 3 "''T'' @ hexPadded 2 signal" _ "joinWith '';'' (map keyValue ?kvs)" "'';''"]
    unfolding stopPacket_def ended by (simp add: len)
  moreover have "splitOn (CHR '';'') (joinWith '';'' (map keyValue ?kvs)) = map keyValue ?kvs"
    by (rule splitOn_join) (use semi in auto)
  moreover have "stopThreads (map keyValue ?kvs) = Ok (map int ids)"
  proof -
    have "splitOn (CHR '':'') (keyValue ?threads) = [fst ?threads, snd ?threads]"
      using plain by (simp add: keyValue_def plainPair_def splitOn_append splitOn_word)
    moreover have "splitOn (CHR '','') (joinWith '','' (map hex_nat ids)) = map hex_nat ids"
      by (rule splitOn_join) (use comma assms(5) in auto)
    moreover have "stopThreads (map keyValue later) = Ok []"
      using assms(3,4) stopThreads_pairs [of later "[]"] by simp
    ultimately show ?thesis
      using assms(3,4,6) by (simp add: stopThreads_pairs hexThreadIDs_printed)
  qed
  moreover have "packetNumber (stopPacket signal ?kvs) = Ok (int signal)"
    unfolding stopPacket_def by (rule packetNumber_stop [OF assms(1)])
  ultimately show "parseTPacket (stopPacket signal ?kvs) = Ok (int signal, map int ids)"
    using assms(2) by (simp add: parseTPacket_def excBadAccess_def)
  have "packetNumber (stopPacket signal []) = Ok (int signal)"
    unfolding stopPacket_def by (rule packetNumber_stop [OF assms(1)])
  moreover have "length (stopPacket signal []) = 3" by (simp add: stopPacket_def len)
  ultimately show "parseTPacket (stopPacket signal []) = Panic"
    using assms(2) by (simp add: parseTPacket_def excBadAccess_def sliceStr_def)
qed

theorem stop_replies_need_a_pair_witness:
  "parseTPacket ''T05thread:1f;threads:1f,2a;reason:breakpoint;'' = Ok (5, [31, 42])
   \<and> parseTPacket ''T05'' = Panic"
proof -
  have "stopPacket 5 ([(''thread'', ''1f'')] @ [(''threads'', joinWith '','' (map hex_nat [31, 42]))] @ [(''reason'', ''breakpoint'')])
      = ''T05thread:1f;threads:1f,2a;reason:breakpoint;''"
    and "stopPacket 5 [] = ''T05''" by code_simp+
  with stop_replies_need_a_pair [of 5 "[(''thread'', ''1f'')]" "[(''reason'', ''breakpoint'')]" "[31, 42]"]
  show ?thesis by (simp add: plainPair_def)
qed

end
