(* ===== verification/Service.thy ===== *)
theory Service
  imports ControllerTraps
begin

text \<open>
  How the tracer gets its tracee (LaunchProcess and AttachProcess of tracee/process.go,
  LaunchTracee and AttachTracee of tracer/controller.go), and the RPC service around it
  (service/service.go): the methods of its type Tracer, the go routine that runs the main loop,
  and the one that waits for its end on behalf of Detach.
\<close>

section \<open>Launching and attaching\<close>

record Attributes =
  ProgramPath :: string
  CompiledGoVersion :: string
  FirstModuleDataAddr :: u64

text \<open>
  What newProcess needs: the environment of the process before it is filled in, the opening of a
  program file, and the bound of the module data list.
\<close>

record 'c launchEnv =
  baseEnv :: "'c ctlEnv"
  openFile :: "string \<Rightarrow> GoVersion \<Rightarrow> BinaryFile outcome"
  moduleFuel :: nat

text \<open>The second half of both functions: on an error of newProcess the tracee is let go.\<close>

definition startedProcess :: "'c launchEnv \<Rightarrow> Attributes \<Rightarrow> ('c, 'c procEnv \<times> 'c Process) prog" where
  "startedProcess le attrs =
     branchM (readM (newProcess (moduleFuel le) (tracee (baseEnv le)) (openFile le (ProgramPath attrs))
         (CompiledGoVersion attrs) (FirstModuleDataAddr attrs)))
       returnM
       (\<lambda>err. seqM (catchM (DetachProcess (debugapiClient (tracee (baseEnv le)))) (\<lambda>_. returnM ())) (failM err))"

definition procLaunchProcess ::
  "'c launchEnv \<Rightarrow> (string \<Rightarrow> string list \<Rightarrow> ('c, unit) prog) \<Rightarrow> string \<Rightarrow> string list \<Rightarrow> Attributes
     \<Rightarrow> ('c, 'c procEnv \<times> 'c Process) prog" where
  "procLaunchProcess le launchClient name arg attrs =
     seqM (launchClient name arg)
       (startedProcess le (if ProgramPath attrs = [] then attrs\<lparr>ProgramPath := name\<rparr> else attrs))"

definition procAttachProcess ::
  "'c launchEnv \<Rightarrow> (int \<Rightarrow> ('c, unit) prog) \<Rightarrow> int \<Rightarrow> Attributes \<Rightarrow> ('c, 'c procEnv \<times> 'c Process) prog" where
  "procAttachProcess le attachClient pid attrs = seqM (attachClient pid) (startedProcess le attrs)"

text \<open>
  The controller takes the process over, or a nil process on an error, which leaves the field as
  NewController had it; \<open>started\<close> is the run of the tracee's function on a new client.
\<close>

definition takeTracee ::
  "'c launchEnv \<Rightarrow> ('c procEnv \<times> 'c Process) outcome \<Rightarrow> ('c Controller, 'c ctlEnv) prog" where
  "takeTracee le started = (\<lambda>c. case started of
       Ok (penv, p) \<Rightarrow> (Ok ((baseEnv le)\<lparr>tracee := penv\<rparr>), c\<lparr>process := p, breakpoints := NewBreakpoints\<rparr>)
     | Fail e \<Rightarrow> (Fail e, c\<lparr>breakpoints := NewBreakpoints\<rparr>)
     | Panic \<Rightarrow> (Panic, c)
     | OutOfFuel \<Rightarrow> (OutOfFuel, c))"

definition LaunchTracee ::
  "'c launchEnv \<Rightarrow> (string \<Rightarrow> string list \<Rightarrow> ('c, unit) prog) \<Rightarrow> 'c \<Rightarrow> string \<Rightarrow> string list \<Rightarrow> Attributes
     \<Rightarrow> ('c Controller, 'c ctlEnv) prog" where
  "LaunchTracee le launchClient newClient name arg attrs =
     takeTracee le (fst (procLaunchProcess le launchClient name arg attrs newClient))"

definition AttachTracee ::
  "'c launchEnv \<Rightarrow> (int \<Rightarrow> ('c, unit) prog) \<Rightarrow> 'c \<Rightarrow> int \<Rightarrow> Attributes \<Rightarrow> ('c Controller, 'c ctlEnv) prog" where
  "AttachTracee le attachClient newClient pid attrs =
     takeTracee le (fst (procAttachProcess le attachClient pid attrs newClient))"

section \<open>One turn of the main loop\<close>

text \<open>
  The main loop up to the next event: \<open>Inl\<close> the event to handle next, \<open>Inr\<close> when the loop ends
  without an error. No event is there before the tracee first ran.
\<close>

definition loopTurn :: "'c ctlEnv \<Rightarrow> Event option \<Rightarrow> ('c Controller, Event + unit) prog" where
  "loopTurn env ev = (case ev of
       None \<Rightarrow> branchM (ctlContinueAndWait env) (\<lambda>e. returnM (Inl e)) (\<lambda>err. failM (mainError err))
     | Some (Exited status) \<Rightarrow> returnM (Inr ())
     | Some CoreDump \<Rightarrow> failM (ErrMsg ''the process exited due to core dump'')
     | Some (Terminated sig) \<Rightarrow> failM (ErrMsg (''the process exited due to signal '' @ dec_int sig))
     | Some (Trapped threadIDs) \<Rightarrow>
         branchM (handleTrapEvent env threadIDs) (\<lambda>e. returnM (Inl e)) (\<lambda>err. failM (mainError err)))"

fun turns :: "nat \<Rightarrow> 'c ctlEnv \<Rightarrow> Event option \<Rightarrow> ('c Controller, unit) prog" where
  "turns 0 env ev = outOfFuelM"
| "turns (Suc n) env ev =
     bindM (loopTurn env ev) (\<lambda>r. case r of Inl e \<Rightarrow> turns n env (Some e) | Inr _ \<Rightarrow> returnM ())"

lemma bindM_branchM:
  "bindM (branchM m k h) f = branchM m (\<lambda>a. bindM (k a) f) (\<lambda>e. bindM (h e) f)"
  by (auto simp: bindM_def branchM_def fun_eq_iff split: prod.splits outcome.splits)

lemma turns_mainRounds: "turns n env (Some e) = mainRounds n env e"
proof (induction n arbitrary: e)
  case (Suc n)
  then show ?case by (cases e) (simp_all add: loopTurn_def bindM_branchM)
qed simp

lemma MainLoop_turns: "MainLoop n env = deferred (onProcess (Detach (tracee env))) (turns (Suc n) env None)"
  by (simp add: MainLoop_def loopTurn_def bindM_branchM turns_mainRounds)

section \<open>The state of the service\<close>

text \<open>
  The go routine of the main loop: not started, running with the event it has to handle next, or
  at its end, where it waits for somebody to receive its error from errCh.
\<close>

datatype 'c loop = NoLoop | Loop "'c ctlEnv" "Event option" | Sending "error option"

text \<open>
  \<open>detaching\<close>: the go routine started by Detach waits on errCh. It holds the mutex until then, so
  that no other method gets past its first line.
\<close>

record 'c svc =
  svcController :: "'c Controller option"
  svcLoop :: "'c loop"
  detaching :: bool

definition newSvc :: "'c svc" where
  "newSvc = \<lparr>svcController = None, svcLoop = NoLoop, detaching = False\<rparr>"

record AttachArgs =
  Pid :: int
  argTraceLevel :: int
  argParseLevel :: int
  InitialStartTracePoint :: u64
  Verbose :: bool
  argGoVersion :: string
  argProgramPath :: string
  argFirstModuleDataAddr :: u64

text \<open>
  What Attach needs: the client of the operating system, and the state of a new client.
  \<open>nilProcess\<close> stands for the nil pointer in the process field before AttachTracee; nothing reads it.
\<close>

record 'c svcEnv =
  launchEnvOf :: "'c launchEnv"
  attachClient :: "int \<Rightarrow> ('c, unit) prog"
  newClient :: 'c
  nilProcess :: "'c Process"

section \<open>The methods\<close>

text \<open>A method answers None while it waits for the mutex. Version is the one that does not take it.\<close>

definition serviceVersion :: int where "serviceVersion = 1"

definition svcVersion :: "'c svc \<Rightarrow> (int outcome \<times> 'c svc) option" where
  "svcVersion s = Some (Ok serviceVersion, s)"

definition attachSvc :: "'c svcEnv \<Rightarrow> AttachArgs \<Rightarrow> 'c svc \<Rightarrow> unit outcome \<times> 'c svc" where
  "attachSvc env args s =
     (case AttachTracee (launchEnvOf env) (attachClient env) (newClient env) (Pid args)
         \<lparr>ProgramPath = argProgramPath args, CompiledGoVersion = argGoVersion args,
          FirstModuleDataAddr = argFirstModuleDataAddr args\<rparr> (NewController (nilProcess env)) of
        (Ok cenv, c) \<Rightarrow>
          (let c' = snd (seqM (SetTraceLevel (argTraceLevel args)) (seqM (SetParseLevel (argParseLevel args))
                 (AddStartTracePoint (InitialStartTracePoint args))) c)
           in (Ok (), s\<lparr>svcController := Some c', svcLoop := Loop cenv None\<rparr>))
      | (Fail e, c) \<Rightarrow> (Fail e, s\<lparr>svcController := Some c\<rparr>)
      | (Panic, c) \<Rightarrow> (Panic, s\<lparr>svcController := Some c\<rparr>)
      | (OutOfFuel, c) \<Rightarrow> (OutOfFuel, s\<lparr>svcController := Some c\<rparr>))"

definition svcAttach :: "'c svcEnv \<Rightarrow> AttachArgs \<Rightarrow> 'c svc \<Rightarrow> (unit outcome \<times> 'c svc) option" where
  "svcAttach env args s =
     (if detaching s then None
      else Some (case svcController s of
          Some _ \<Rightarrow> (Fail (ErrMsg ''already attached''), s)
        | None \<Rightarrow> attachSvc env args s))"

text \<open>
  Detach returns at once, and leaves the mutex to the go routine that waits for the main loop.
  With the channel full, Interrupt would block, with the mutex held.
\<close>

definition svcDetach :: "'c svc \<Rightarrow> (unit outcome \<times> 'c svc) option" where
  "svcDetach s =
     (if detaching s then None
      else case svcController s of
          None \<Rightarrow> Some (Ok (), s)
        | Some c \<Rightarrow> (case Interrupt c of
              None \<Rightarrow> None
            | Some c' \<Rightarrow> Some (Ok (), s\<lparr>svcController := Some c', detaching := True\<rparr>)))"

definition svcRequest :: "('c Controller, unit) prog \<Rightarrow> 'c svc \<Rightarrow> (unit outcome \<times> 'c svc) option" where
  "svcRequest m s =
     (if detaching s then None
      else Some (case svcController s of
          None \<Rightarrow> (Ok (), s)
        | Some c \<Rightarrow> (case m c of (r, c') \<Rightarrow> (r, s\<lparr>svcController := Some c'\<rparr>))))"

definition svcAddStartTracePoint :: "u64 \<Rightarrow> 'c svc \<Rightarrow> (unit outcome \<times> 'c svc) option" where
  "svcAddStartTracePoint a = svcRequest (AddStartTracePoint a)"

definition svcAddEndTracePoint :: "u64 \<Rightarrow> 'c svc \<Rightarrow> (unit outcome \<times> 'c svc) option" where
  "svcAddEndTracePoint a = svcRequest (AddEndTracePoint a)"

section \<open>The go routines\<close>

text \<open>
  The go routine of the main loop after one turn. At its end it detaches from the tracee and
  sends its error; a panic ends the server.
\<close>

definition svcLoopTurn :: "'c svc \<Rightarrow> 'c svc option" where
  "svcLoopTurn s = (case (svcLoop s, svcController s) of
       (Loop env ev, Some c) \<Rightarrow> (case loopTurn env ev c of
           (Ok (Inl e), c') \<Rightarrow> Some (s\<lparr>svcController := Some c', svcLoop := Loop env (Some e)\<rparr>)
         | (Ok (Inr _), c') \<Rightarrow> Some (s\<lparr>svcController := Some (snd (onProcess (Detach (tracee env)) c')), svcLoop := Sending None\<rparr>)
         | (Fail err, c') \<Rightarrow> Some (s\<lparr>svcController := Some (snd (onProcess (Detach (tracee env)) c')), svcLoop := Sending (Some err)\<rparr>)
         | (Panic, c') \<Rightarrow> None
         | (OutOfFuel, c') \<Rightarrow> None)
     | _ \<Rightarrow> None)"

text \<open>The go routine of Detach receives the error, logs it, and gives the mutex back.\<close>

definition svcReceive :: "'c svc \<Rightarrow> 'c svc option" where
  "svcReceive s =
     (if detaching s then
        (case svcLoop s of
           Sending err \<Rightarrow> Some \<lparr>svcController = None, svcLoop = NoLoop, detaching = False\<rparr>
         | _ \<Rightarrow> None)
      else None)"

inductive svcStep :: "'c svcEnv \<Rightarrow> 'c svc \<Rightarrow> 'c svc \<Rightarrow> bool" for env where
  version: "svcVersion s = Some (n, s') \<Longrightarrow> svcStep env s s'"
| attach: "svcAttach env args s = Some (r, s') \<Longrightarrow> svcStep env s s'"
| detach: "svcDetach s = Some (r, s') \<Longrightarrow> svcStep env s s'"
| add_start: "svcAddStartTracePoint a s = Some (r, s') \<Longrightarrow> svcStep env s s'"
| add_end: "svcAddEndTracePoint a s = Some (r, s') \<Longrightarrow> svcStep env s s'"
| turn: "svcLoopTurn s = Some s' \<Longrightarrow> svcStep env s s'"
| receive: "svcReceive s = Some s' \<Longrightarrow> svcStep env s s'"

inductive svcReachable :: "'c svcEnv \<Rightarrow> 'c svc \<Rightarrow> 'c svc \<Rightarrow> bool" for env s0 where
  refl: "svcReachable env s0 s0"
| step: "svcReachable env s0 s \<Longrightarrow> svcStep env s s' \<Longrightarrow> svcReachable env s0 s'"

section \<open>Interrupts\<close>

definition interruptsLeft :: "'c Controller \<Rightarrow> 'c Controller \<Rightarrow> bool" where
  "interruptsLeft c c' \<longleftrightarrow> interruptCh c' \<le> interruptCh c"

interpretation left: frame interruptsLeft
  by unfold_locales (auto simp: interruptsLeft_def)

lemma left_process: "keeps interruptsLeft (onProcess m)"
  by (auto simp: keeps_def interruptsLeft_def onProcess_run split: prod.splits)

lemma left_breakpoints: "keeps interruptsLeft (onBreakpoints m)"
  by (auto simp: keeps_def interruptsLeft_def onBreakpoints_run split: prod.splits)

interpretation left_status: status_frame interruptsLeft env "\<lambda>_. True" for env
  by unfold_locales (auto intro: left_process left_breakpoints simp: interruptsLeft_def quietChange_def)

interpretation left_main: main_frame interruptsLeft env "\<lambda>_. True" for env
proof unfold_locales
  show "keeps interruptsLeft (addStart env a)" and "keeps interruptsLeft (addEnd env a)" for a
    by (rule addPoint_keeps; (rule left.frame_axioms left_breakpoints | simp add: interruptsLeft_def))+
qed (auto intro!: left_process receives_keep simp: interruptsLeft_def)

lemma loopTurn_left: "loopTurn env ev c = (r, c') \<Longrightarrow> interruptCh c' \<le> interruptCh c"
proof -
  have "keeps interruptsLeft (loopTurn env ev)"
  proof (cases ev)
    case None
    then show ?thesis
      unfolding loopTurn_def
      by (simp, intro left.branch_frame left.return_frame left.fail_frame left_main.ctlContinueAndWait_frame)
  next
    case (Some e)
    then show ?thesis
      unfolding loopTurn_def
      by (cases e)
        (simp_all add: left.return_frame left.fail_frame left.branch_frame left_main.handleTrapEvent_frame)
  qed
  then show "loopTurn env ev c = (r, c') \<Longrightarrow> interruptCh c' \<le> interruptCh c"
    by (auto dest: keepsD simp: interruptsLeft_def)
qed

text \<open>A pending interrupt is seen before the tracee is resumed again: the turn is the last one.\<close>

lemma loopTurn_interrupted:
  assumes "interruptCh c > 0" and "loopTurn env ev c = (r, c')"
  shows "r \<noteq> Ok (Inl e)"
proof (cases ev)
  case None
  with assms interrupted_continue [of c env] show ?thesis
    by (auto simp: loopTurn_def branchM_def)
next
  case (Some event)
  show ?thesis
  proof (cases event)
    case (Trapped ids)
    obtain r1 c1 where run: "handleThreads env ids c = (r1, c1)" by (cases "handleThreads env ids c")
    have "sameQueues c c1"
      using keepsD [OF queues_events.handling_frame run [unfolded handleThreads_def]] .
    then have "interruptCh c1 > 0" using assms(1) by (simp add: sameQueues_def)
    from interrupted_continue [OF this, of env] run assms(2) Some Trapped show ?thesis
      by (cases r1) (auto simp: loopTurn_def handleTrapEvent_eq branchM_def seqM_def bindM_def)
  qed (use assms(2) Some in \<open>auto simp: loopTurn_def\<close>)
qed

section \<open>The invariant\<close>

text \<open>
  There is a main loop only for a controller, the mutex is held only for one; before the loop has
  ended, an interrupt is pending exactly when Detach was called.
\<close>

definition svcInv :: "'c svc \<Rightarrow> bool" where
  "svcInv s \<longleftrightarrow> (case svcController s of
       None \<Rightarrow> svcLoop s = NoLoop \<and> \<not> detaching s
     | Some c \<Rightarrow> (case svcLoop s of
           Sending err \<Rightarrow> interruptCh c \<le> (if detaching s then 1 else 0)
         | _ \<Rightarrow> interruptCh c = (if detaching s then 1 else 0)))"

lemma newSvc_inv: "svcInv newSvc"
  by (simp add: svcInv_def newSvc_def)

lemma takeTracee_interrupts: "interruptCh (snd (takeTracee le started c)) = interruptCh c"
  by (simp add: takeTracee_def split: outcome.splits)

lemma NewController_interrupts: "interruptCh (NewController p) = 0"
  by (simp add: NewController_def)

lemma attachSvc_inv:
  assumes "svcInv s" and "\<not> detaching s" and "svcController s = None"
  shows "svcInv (snd (attachSvc env args s))"
proof -
  obtain r c where run: "AttachTracee (launchEnvOf env) (attachClient env) (newClient env) (Pid args)
         \<lparr>ProgramPath = argProgramPath args, CompiledGoVersion = argGoVersion args,
          FirstModuleDataAddr = argFirstModuleDataAddr args\<rparr> (NewController (nilProcess env)) = (r, c)"
    by fastforce
  have "interruptCh c = 0"
    using takeTracee_interrupts [of "launchEnvOf env" _ "NewController (nilProcess env)"] run
    by (metis AttachTracee_def snd_conv NewController_interrupts)
  then show ?thesis
    using assms run
    by (cases r) (auto simp: attachSvc_def svcInv_def Let_def SetTraceLevel_def SetParseLevel_def
        AddStartTracePoint_def seqM_def bindM_def)
qed

lemma svcInv_step:
  assumes "svcStep env s s'" and inv: "svcInv s"
  shows "svcInv s'"
  using assms(1)
proof cases
  case (version n)
  then show ?thesis using inv by (simp add: svcVersion_def)
next
  case (attach args r)
  then show ?thesis
    using inv attachSvc_inv [OF inv, of env args] by (auto simp: svcAttach_def split: if_splits option.splits)
next
  case (detach r)
  then show ?thesis
    using inv by (auto simp: svcDetach_def svcInv_def Interrupt_def split: if_splits option.splits loop.splits)
next
  case (add_start a r)
  then show ?thesis using inv
    by (auto simp: svcAddStartTracePoint_def svcRequest_def svcInv_def AddStartTracePoint_def
        split: if_splits option.splits loop.splits)
next
  case (add_end a r)
  then show ?thesis using inv
    by (auto simp: svcAddEndTracePoint_def svcRequest_def svcInv_def AddEndTracePoint_def
        split: if_splits option.splits loop.splits)
next
  case turn
  then obtain cenv ev c r c' where L: "svcLoop s = Loop cenv ev" "svcController s = Some c"
    and run: "loopTurn cenv ev c = (r, c')"
    by (auto simp: svcLoopTurn_def split: loop.splits option.splits prod.splits)
  have n: "interruptCh c = (if detaching s then 1 else 0)" using inv L by (simp add: svcInv_def)
  have le: "interruptCh c' \<le> interruptCh c" by (rule loopTurn_left [OF run])
  have last: "interruptCh c = 0" if "r = Ok (Inl e)" for e
    using loopTurn_interrupted [OF _ run, of e] that by auto
  have detach: "interruptCh (snd (onProcess m c')) = interruptCh c'" for m :: "('a Process, unit) prog"
    by (simp add: onProcess_run split: prod.splits)
  show ?thesis
    using turn L run n le last detach
    by (auto simp: svcLoopTurn_def svcInv_def split: outcome.splits sum.splits if_splits)
next
  case receive
  then show ?thesis by (auto simp: svcReceive_def svcInv_def split: if_splits loop.splits)
qed

lemma svcReachable_inv: "svcReachable env s0 s \<Longrightarrow> svcInv s0 \<Longrightarrow> svcInv s"
  by (induction rule: svcReachable.induct) (auto intro: svcInv_step)

end
