(* ===== verification/ServiceProps.thy ===== *)
theory ServiceProps
  imports Service ControllerProps
begin

text \<open>
  Properties of the service: who waits for whom, how Detach ends, and what a failed Attach leaves.
\<close>

section \<open>A service on the simulated machine\<close>

definition simLaunch :: "machine rawClient launchEnv" where
  "simLaunch = \<lparr>baseEnv = simCtl, openFile = (\<lambda>path v. Ok simBinary), moduleFuel = 1\<rparr>"

definition simSvc :: "(int \<Rightarrow> (machine rawClient, unit) prog) \<Rightarrow> machine rawClient svcEnv" where
  "simSvc attachClient' = \<lparr>launchEnvOf = simLaunch, attachClient = attachClient',
     newClient = clientState (simProcess []), nilProcess = simProcess []\<rparr>"

definition simArgs :: AttachArgs where
  "simArgs = \<lparr>Pid = 7, argTraceLevel = 1, argParseLevel = 1, InitialStartTracePoint = 0x20, Verbose = False,
     argGoVersion = ''go1.12.1'', argProgramPath = ''a.out'', argFirstModuleDataAddr = 0\<rparr>"

abbreviation attaches :: "int \<Rightarrow> (machine rawClient, unit) prog" where
  "attaches \<equiv> \<lambda>pid. returnM ()"

abbreviation refuses :: "int \<Rightarrow> (machine rawClient, unit) prog" where
  "refuses \<equiv> \<lambda>pid. failM (ErrMsg ''operation not permitted'')"

lemma simArgs_path: "ProgramPath \<lparr>ProgramPath = argProgramPath simArgs, CompiledGoVersion = v, FirstModuleDataAddr = a\<rparr> = ''a.out''"
  by (simp add: simArgs_def)

lemma sim_attached:
  "\<exists>s cenv c. svcAttach (simSvc attaches) simArgs newSvc = Some (Ok (), s)
     \<and> svcController s = Some c \<and> svcLoop s = Loop cenv None \<and> \<not> detaching s"
  by (simp add: svcAttach_def newSvc_def attachSvc_def AttachTracee_def procAttachProcess_def startedProcess_def
      newProcess_def simSvc_def simLaunch_def simArgs_def parseModuleDataList.simps takeTracee_def Let_def
      branchM_def)

lemma sim_refused:
  "svcAttach (simSvc refuses) simArgs newSvc = Some (Fail (ErrMsg ''operation not permitted''),
     newSvc\<lparr>svcController := Some (NewController (simProcess []))\<rparr>)"
  by (simp add: svcAttach_def newSvc_def attachSvc_def AttachTracee_def procAttachProcess_def
      simSvc_def takeTracee_def NewController_def)

section \<open>Who waits\<close>

text \<open>
  C17: In every reachable state of the service, an interrupt is pending for the main loop exactly
  when Detach was called and the loop has not ended yet, there is never more than one, so Detach
  never blocks on the interrupt channel; and a method waits for the mutex only while a Detach is
  waiting for the main loop to end.
\<close>

theorem methods_wait_only_for_detach:
  assumes "svcReachable env newSvc s"
  shows "svcInv s \<and>
    (detaching s \<or>
      (svcAttach env args s \<noteq> None \<and> svcDetach s \<noteq> None
       \<and> svcAddStartTracePoint a s \<noteq> None \<and> svcAddEndTracePoint a s \<noteq> None))"
proof -
  have inv: "svcInv s" by (rule svcReachable_inv [OF assms newSvc_inv])
  show ?thesis
  proof (cases "detaching s \<or> svcController s = None")
    case True
    with inv show ?thesis
      by (auto simp: svcAttach_def svcDetach_def svcAddStartTracePoint_def svcAddEndTracePoint_def svcRequest_def)
  next
    case False
    then obtain c where c: "svcController s = Some c" and "\<not> detaching s" by auto
    with inv have "interruptCh c = 0" by (auto simp: svcInv_def split: loop.splits)
    then have "Interrupt c = Some (c\<lparr>interruptCh := 1\<rparr>)" by (simp add: Interrupt_def chanBufferSize_def)
    with inv c \<open>\<not> detaching s\<close> show ?thesis
      by (simp add: svcAttach_def svcDetach_def svcAddStartTracePoint_def svcAddEndTracePoint_def svcRequest_def)
  qed
qed

theorem methods_wait_only_for_detach_witness:
  "\<exists>s. svcReachable (simSvc attaches) newSvc s \<and> svcLoop s \<noteq> NoLoop \<and> svcDetach s \<noteq> None"
proof -
  from sim_attached obtain s where at: "svcAttach (simSvc attaches) simArgs newSvc = Some (Ok (), s)"
    and s: "svcLoop s \<noteq> NoLoop" "\<not> detaching s" by auto
  have "svcReachable (simSvc attaches) newSvc s"
    by (rule svcReachable.step [OF svcReachable.refl svcStep.attach [OF at]])
  from this methods_wait_only_for_detach [OF this] s show ?thesis by blast
qed

section \<open>Detach\<close>

text \<open>
  C18: Detach ends a running trace: whatever event the main loop has to handle, the turn it makes
  after Detach was called is its last; it detaches from the tracee as it is then, and when the
  waiting go routine has received its error the service is as new, ready for another Attach.
\<close>

theorem detach_ends_the_trace:
  assumes "svcReachable env newSvc s" and "detaching s" and "svcLoop s = Loop cenv ev"
    and "svcLoopTurn s = Some s'"
  shows "\<exists>err c. svcLoop s' = Sending err \<and> svcReceive s' = Some newSvc
     \<and> svcController s' = Some (snd (onProcess (Detach (tracee cenv)) c))"
proof -
  have inv: "svcInv s" by (rule svcReachable_inv [OF assms(1) newSvc_inv])
  with assms(2,3) obtain c where c: "svcController s = Some c" and n: "interruptCh c = 1"
    by (auto simp: svcInv_def split: option.splits)
  obtain r c' where run: "loopTurn cenv ev c = (r, c')" by fastforce
  have "r \<noteq> Ok (Inl e)" for e using loopTurn_interrupted [OF _ run] n by simp
  with assms(2-4) c run show ?thesis
    by (auto simp: svcLoopTurn_def svcReceive_def newSvc_def split: outcome.splits sum.splits)
qed

theorem detach_ends_the_trace_witness:
  "\<exists>s s' err. svcReachable (simSvc attaches) newSvc s \<and> detaching s \<and> svcLoopTurn s = Some s'
     \<and> svcLoop s' = Sending err \<and> svcReceive s' = Some newSvc"
proof -
  from sim_attached obtain s cenv c where at: "svcAttach (simSvc attaches) simArgs newSvc = Some (Ok (), s)"
    and s: "svcController s = Some c" "svcLoop s = Loop cenv None" "\<not> detaching s" by blast
  have "svcReachable (simSvc attaches) newSvc s"
    by (rule svcReachable.step [OF svcReachable.refl svcStep.attach [OF at]])
  moreover from this have "svcInv s" by (rule svcReachable_inv [OF _ newSvc_inv])
  then have n: "interruptCh c = 0" using s by (simp add: svcInv_def)
  define d where "d = s\<lparr>svcController := Some (c\<lparr>interruptCh := 1\<rparr>), detaching := True\<rparr>"
  have "svcDetach s = Some (Ok (), d)"
    using s n by (simp add: svcDetach_def Interrupt_def chanBufferSize_def d_def)
  ultimately have reach: "svcReachable (simSvc attaches) newSvc d"
    by (blast intro: svcReachable.step svcStep.detach)
  have "interruptCh (c\<lparr>interruptCh := 1\<rparr>) > 0" by simp
  from interrupted_continue [OF this, of cenv] obtain s' where turn: "svcLoopTurn d = Some s'"
    using s by (simp add: svcLoopTurn_def d_def loopTurn_def branchM_def mainError_def)
  have "detaching d" "svcLoop d = Loop cenv None" using s by (simp_all add: d_def)
  from detach_ends_the_trace [OF reach this turn] reach this turn show ?thesis by blast
qed

section \<open>A failed Attach\<close>

text \<open>
  C16: Attach keeps the new controller when attaching to the process fails, although no main loop
  runs for it. So every later Attach is refused as already attached, whatever happens in between;
  and a Detach then waits for the end of a loop that never started, with the mutex held: the state
  of the service never changes again, every method that takes the mutex waits for ever, and only
  Version, which does not, is still answered.
\<close>

theorem failed_attach_wedges_the_service:
  assumes "svcAttach env args newSvc = Some (Fail e, s1)" and "svcReachable env s1 s"
  shows "(case svcAttach env args' s of None \<Rightarrow> detaching s
       | Some (r, s') \<Rightarrow> r = Fail (ErrMsg ''already attached'') \<and> s' = s)
    \<and> (\<exists>s2. svcDetach s1 = Some (Ok (), s2) \<and> (\<forall>t. svcReachable env s2 t \<longleftrightarrow> t = s2)
         \<and> svcAttach env args' s2 = None \<and> svcDetach s2 = None
         \<and> svcAddStartTracePoint a s2 = None \<and> svcAddEndTracePoint a s2 = None
         \<and> svcVersion s2 = Some (Ok serviceVersion, s2))"
proof -
  have s1: "svcLoop s1 = NoLoop" "\<not> detaching s1" and "svcController s1 \<noteq> None"
    using assms(1) by (auto simp: svcAttach_def newSvc_def attachSvc_def Let_def
        split: prod.splits outcome.splits)
  then obtain c where c: "svcController s1 = Some c" by blast
  have "svcInv s1"
    using assms(1) newSvc_inv by (blast intro: svcInv_step svcStep.attach)
  then have "Interrupt c = Some (c\<lparr>interruptCh := 1\<rparr>)"
    using c s1 by (simp add: svcInv_def Interrupt_def chanBufferSize_def)
  then have detach: "svcDetach s1 = Some (Ok (), s1\<lparr>svcController := Some (c\<lparr>interruptCh := 1\<rparr>), detaching := True\<rparr>)"
    using c s1 by (simp add: svcDetach_def)
  have stuck: "svcLoop s = NoLoop \<and> svcController s \<noteq> None"
    using assms(2)
  proof (induction rule: svcReachable.induct)
    case refl
    with s1 c show ?case by simp
  next
    case (step s s')
    from step.hyps(2) show ?case
      by cases (use step.IH in \<open>auto simp: svcVersion_def svcAttach_def svcDetach_def svcAddStartTracePoint_def
          svcAddEndTracePoint_def svcRequest_def svcLoopTurn_def svcReceive_def
          split: if_splits option.splits prod.splits\<close>)
  qed
  define s2 where "s2 = s1\<lparr>svcController := Some (c\<lparr>interruptCh := 1\<rparr>), detaching := True\<rparr>"
  then have held: "svcLoop s2 = NoLoop" "detaching s2" using s1 by simp_all
  have "t = s2" if "svcReachable env s2 t" for t
    using that
  proof (induction rule: svcReachable.induct)
    case (step s s')
    from step.hyps(2) held show ?case
      unfolding step.IH by cases (auto simp: svcVersion_def svcAttach_def svcDetach_def svcAddStartTracePoint_def
        svcAddEndTracePoint_def svcRequest_def svcLoopTurn_def svcReceive_def)
  qed simp
  then have "svcReachable env s2 t \<longleftrightarrow> t = s2" for t by (auto intro: svcReachable.refl)
  with held have "(\<forall>t. svcReachable env s2 t \<longleftrightarrow> t = s2) \<and> svcAttach env args' s2 = None \<and> svcDetach s2 = None
      \<and> svcAddStartTracePoint a s2 = None \<and> svcAddEndTracePoint a s2 = None
      \<and> svcVersion s2 = Some (Ok serviceVersion, s2)"
    by (simp add: svcAttach_def svcDetach_def svcAddStartTracePoint_def svcAddEndTracePoint_def svcRequest_def svcVersion_def)
  moreover have "case svcAttach env args' s of None \<Rightarrow> detaching s
       | Some (r, s') \<Rightarrow> r = Fail (ErrMsg ''already attached'') \<and> s' = s"
    using stuck by (auto simp: svcAttach_def split: option.splits)
  ultimately show ?thesis using detach unfolding s2_def [symmetric] by blast
qed

theorem failed_attach_wedges_the_service_witness:
  "\<exists>s1 s2. svcAttach (simSvc refuses) simArgs newSvc = Some (Fail (ErrMsg ''operation not permitted''), s1)
     \<and> svcAttach (simSvc attaches) simArgs s1 = Some (Fail (ErrMsg ''already attached''), s1)
     \<and> svcDetach s1 = Some (Ok (), s2) \<and> svcAttach (simSvc attaches) simArgs s2 = None
     \<and> svcVersion s2 = Some (Ok 1, s2)"
proof -
  let ?s1 = "newSvc\<lparr>svcController := Some (NewController (simProcess []))\<rparr>"
  have "svcAttach (simSvc attaches) simArgs ?s1 = Some (Fail (ErrMsg ''already attached''), ?s1)"
    by (simp add: svcAttach_def newSvc_def)
  moreover have "svcAttach (simSvc attaches) simArgs s2 = None"
    if "svcAttach (simSvc refuses) simArgs s2 = None" for s2
    using that by (simp add: svcAttach_def split: if_splits)
  ultimately show ?thesis
    using failed_attach_wedges_the_service [OF sim_refused svcReachable.refl] sim_refused
    unfolding serviceVersion_def by blast
qed

end
