(* ===== verification/TracerLib.thy ===== *)
theory TracerLib
  imports Service
begin

text \<open>
  lib/tracer/tracer.go: the package a program imports to trace itself. Start launches the tracer
  as another process, connects to its service and lets it attach. The process, the connection
  and the calls over it are the record \<open>'w host\<close> over the outside world \<open>'w\<close>.
\<close>

section \<open>The package's state\<close>

record 'w host =
  listenTCP :: "('w, int) prog"
  closeListener :: "('w, unit) prog"
  startCommand :: "string \<Rightarrow> string list \<Rightarrow> nat \<Rightarrow> nat \<Rightarrow> ('w, unit) prog"
  dial :: "string \<Rightarrow> ('w, unit) prog"
  sleep :: "nat \<Rightarrow> ('w, unit) prog"
  callVersion :: "('w, int) prog"
  callAttach :: "AttachArgs \<Rightarrow> ('w, unit) prog"
  callAddStart :: "u64 \<Rightarrow> ('w, unit) prog"
  callAddEnd :: "u64 \<Rightarrow> ('w, unit) prog"
  closeClient :: "('w, unit) prog"
  killServer :: "('w, unit) prog"
  waitServer :: "('w, unit) prog"
  executable :: "'w \<Rightarrow> string outcome"
  pid :: int
  runtimeVersion :: string
  firstModuleData :: u64
  stopFuncAddr :: u64

text \<open>
  \<open>serverCmd\<close> is nil, or a command whose process has been started or not; \<open>client\<close> is nil, or a client
  of net/rpc that was closed or not: the package keeps a client it has closed. Calls on a closed
  client, and closing it once more, answer the error ErrShutdown.
  The writers for the log and its errors are known by number, 1 the standard output and 2 the
  standard error of the program; the command is started with its name, its arguments and them.
\<close>

datatype rpcConn = NilClient | OpenClient | ClosedClient

record 'w lib =
  world :: 'w
  rpcClient :: rpcConn
  serverCmd :: "bool option"
  libTraceLevel :: int
  libParseLevel :: int
  libVerbose :: bool
  libWriter :: nat
  libErrorWriter :: nat

definition expectedVersion :: int where "expectedVersion = 1"
definition tracerProgramName :: string where "tracerProgramName = ''tgo''"

definition libSetTraceLevel :: "int \<Rightarrow> ('w lib, unit) prog" where
  "libSetTraceLevel option = modifyM (\<lambda>l. l\<lparr>libTraceLevel := option\<rparr>)"

definition libSetParseLevel :: "int \<Rightarrow> ('w lib, unit) prog" where
  "libSetParseLevel option = modifyM (\<lambda>l. l\<lparr>libParseLevel := option\<rparr>)"

definition SetVerboseOption :: "bool \<Rightarrow> ('w lib, unit) prog" where
  "SetVerboseOption option = modifyM (\<lambda>l. l\<lparr>libVerbose := option\<rparr>)"

definition onWorld :: "('w, 'a) prog \<Rightarrow> ('w lib, 'a) prog" where
  "onWorld = zoomM world (\<lambda>w l. l\<lparr>world := w\<rparr>)"

text \<open>A call on the client; on a nil client it is a nil dereference.\<close>

definition ErrShutdown :: error where "ErrShutdown = ErrMsg ''connection is shut down''"

definition onRpc :: "('w, 'a) prog \<Rightarrow> ('w lib, 'a) prog" where
  "onRpc m = bindM (getsM rpcClient) (\<lambda>c. case c of
       NilClient \<Rightarrow> panicM
     | OpenClient \<Rightarrow> onWorld m
     | ClosedClient \<Rightarrow> failM ErrShutdown)"

text \<open>Close of net/rpc: the client counts as closed also when closing its connection fails.\<close>

definition closeRpc :: "'w host \<Rightarrow> ('w lib, unit) prog" where
  "closeRpc h = bindM (getsM rpcClient) (\<lambda>c. case c of
       NilClient \<Rightarrow> panicM
     | OpenClient \<Rightarrow> seqM (modifyM (\<lambda>l. l\<lparr>rpcClient := ClosedClient\<rparr>)) (onWorld (closeClient h))
     | ClosedClient \<Rightarrow> failM ErrShutdown)"

definition wrapped :: "string \<Rightarrow> ('s, 'a) prog \<Rightarrow> ('s, 'a) prog" where
  "wrapped msg m = catchM m (\<lambda>e. failM (Wrapped msg e))"

definition SetWriter :: "nat \<Rightarrow> ('w lib, unit) prog" where
  "SetWriter option = modifyM (\<lambda>l. l\<lparr>libWriter := option\<rparr>)"

definition SetErrorWriter :: "nat \<Rightarrow> ('w lib, unit) prog" where
  "SetErrorWriter option = modifyM (\<lambda>l. l\<lparr>libErrorWriter := option\<rparr>)"

text \<open>The package as the program finds it, and the function whose address ends the tracing.\<close>

definition newLib :: "'w \<Rightarrow> 'w lib" where
  "newLib w = \<lparr>world = w, rpcClient = NilClient, serverCmd = None, libTraceLevel = 1, libParseLevel = 1,
     libVerbose = False, libWriter = 1, libErrorWriter = 2\<rparr>"

definition Stop :: "('w lib, unit) prog" where
  "Stop = returnM ()"

section \<open>The server process\<close>

text \<open>The listener is closed in any case once there is one.\<close>

definition findUnusedPort :: "'w host \<Rightarrow> ('w lib, int) prog" where
  "findUnusedPort h = bindM (onWorld (listenTCP h)) (\<lambda>port.
     seqM (catchM (onWorld (closeListener h)) (\<lambda>_. returnM ())) (returnM port))"

definition serverArgs :: "bool \<Rightarrow> string \<Rightarrow> string list" where
  "serverArgs verbose address = [''server''] @ (if verbose then [''-verbose''] else []) @ [address]"

definition startServer :: "'w host \<Rightarrow> ('w lib, string) prog" where
  "startServer h =
     bindM (wrapped ''failed to find unused port'' (findUnusedPort h)) (\<lambda>unusedPort.
     bindM (getsM id) (\<lambda>l.
       let address = '':'' @ dec_int unusedPort in
       seqM (modifyM (\<lambda>l. l\<lparr>serverCmd := Some False\<rparr>))
      (seqM (wrapped ''failed to start server'' (onWorld (startCommand h tracerProgramName
          (serverArgs (libVerbose l) address) (libWriter l) (libErrorWriter l))))
      (seqM (modifyM (\<lambda>l. l\<lparr>serverCmd := Some True\<rparr>)) (returnM address)))))"

text \<open>The loop assigns the package's client on every try, nil on a failed one.\<close>

fun connectLoop :: "'w host \<Rightarrow> string \<Rightarrow> nat \<Rightarrow> nat \<Rightarrow> error \<Rightarrow> ('w lib, unit) prog" where
  "connectLoop h address 0 interval err =
     failM (Wrapped (''can't connect to the server (addr: '' @ address @ '')'') err)"
| "connectLoop h address (Suc tries) interval err =
     branchM (onWorld (dial h address))
       (\<lambda>_. modifyM (\<lambda>l. l\<lparr>rpcClient := OpenClient\<rparr>))
       (\<lambda>err'. seqM (modifyM (\<lambda>l. l\<lparr>rpcClient := NilClient\<rparr>))
         (seqM (onWorld (sleep h interval)) (connectLoop h address tries (interval * 2) err')))"

definition connectServer :: "'w host \<Rightarrow> string \<Rightarrow> ('w lib, unit) prog" where
  "connectServer h address = connectLoop h address 5 100 (ErrMsg [])"

definition checkVersion :: "'w host \<Rightarrow> ('w lib, unit) prog" where
  "checkVersion h = bindM (onRpc (callVersion h)) (\<lambda>serverVersion.
     if expectedVersion \<noteq> serverVersion then failM (ErrMsg ''the expected API version is not same as the actual API version'')
     else returnM ())"

text \<open>serverCmd is nil afterwards, whatever happens; an error of Close leaves the process alone.\<close>

definition terminateServer :: "'w host \<Rightarrow> ('w lib, unit) prog" where
  "terminateServer h = deferred (modifyM (\<lambda>l. l\<lparr>serverCmd := None\<rparr>))
     (bindM (getsM rpcClient) (\<lambda>c.
      seqM (if c \<noteq> NilClient then closeRpc h else returnM ())
     (bindM (getsM serverCmd) (\<lambda>cmd.
        if cmd = Some True then seqM (onWorld (killServer h)) (onWorld (waitServer h))
        else returnM ()))))"

definition initialize :: "'w host \<Rightarrow> u64 \<Rightarrow> ('w lib, unit) prog" where
  "initialize h startTracePoint =
     bindM (startServer h) (\<lambda>address.
     seqM (connectServer h address)
    (seqM (checkVersion h)
    (bindM (readM (\<lambda>l. executable h (world l))) (\<lambda>programPath.
     bindM (getsM (\<lambda>l. \<lparr>Pid = pid h, argTraceLevel = libTraceLevel l, argParseLevel = libParseLevel l,
         InitialStartTracePoint = startTracePoint, Verbose = False, argGoVersion = runtimeVersion h,
         argProgramPath = programPath, argFirstModuleDataAddr = firstModuleData h\<rparr>)) (\<lambda>attachArgs.
     seqM (onRpc (callAttach h attachArgs))
       (onRpc (callAddEnd h (stopFuncAddr h))))))))"

text \<open>Start, with the address of its caller as the trace point. The package's mutex is held throughout.\<close>

definition Start :: "'w host \<Rightarrow> u64 \<Rightarrow> ('w lib, unit) prog" where
  "Start h startTracePoint =
     bindM (getsM serverCmd) (\<lambda>cmd. case cmd of
         None \<Rightarrow> catchM (initialize h startTracePoint) (\<lambda>err.
           seqM (catchM (terminateServer h) (\<lambda>_. returnM ()))
             (failM (Wrapped ''failed to start tracer'' err)))
       | Some _ \<Rightarrow> onRpc (callAddStart h startTracePoint))"

section \<open>Server processes\<close>

text \<open>
  \<open>servers\<close> counts the server processes: starting the command adds one when it succeeds, killing it
  removes one when it succeeds, and nothing else changes their number. Every call may fail.
\<close>

definition sameLive :: "('w \<Rightarrow> nat) \<Rightarrow> ('w, 'a) prog \<Rightarrow> bool" where
  "sameLive servers m \<longleftrightarrow> keeps (\<lambda>w w'. servers w' = servers w) m"

definition hostKeeps :: "'w host \<Rightarrow> ('w \<Rightarrow> nat) \<Rightarrow> bool" where
  "hostKeeps h servers \<longleftrightarrow>
     sameLive servers (listenTCP h) \<and> sameLive servers (closeListener h) \<and> (\<forall>address. sameLive servers (dial h address))
     \<and> (\<forall>n. sameLive servers (sleep h n)) \<and> sameLive servers (callVersion h) \<and> (\<forall>args. sameLive servers (callAttach h args))
     \<and> (\<forall>a. sameLive servers (callAddStart h a)) \<and> (\<forall>a. sameLive servers (callAddEnd h a))
     \<and> sameLive servers (closeClient h) \<and> sameLive servers (waitServer h)"

definition hostStarts :: "'w host \<Rightarrow> ('w \<Rightarrow> nat) \<Rightarrow> bool" where
  "hostStarts h servers \<longleftrightarrow>
     (\<forall>name args out err w r w'. startCommand h name args out err w = (r, w') \<longrightarrow> servers w' = servers w + (if r = Ok () then 1 else 0))
     \<and> (\<forall>w r w'. killServer h w = (r, w') \<longrightarrow> servers w' = servers w - (if r = Ok () then 1 else 0))"

text \<open>Beside the server of the package there are \<open>n\<close> others: of other programs, or left behind before.\<close>

definition liveServers :: "('w \<Rightarrow> nat) \<Rightarrow> nat \<Rightarrow> 'w lib \<Rightarrow> bool" where
  "liveServers servers n l \<longleftrightarrow> servers (world l) = n + (if serverCmd l = Some True then 1 else 0)"

definition liveKept :: "('w \<Rightarrow> nat) \<Rightarrow> nat \<Rightarrow> 'w lib \<Rightarrow> 'w lib \<Rightarrow> bool" where
  "liveKept servers n l l' \<longleftrightarrow> (liveServers servers n l \<longrightarrow> liveServers servers n l')
     \<and> (serverCmd l = Some True \<longrightarrow> serverCmd l' = Some True)
     \<and> (rpcClient l \<noteq> ClosedClient \<longrightarrow> rpcClient l' \<noteq> ClosedClient)"

interpretation kept: frame "liveKept servers n" for servers n
  by unfold_locales (auto simp: liveKept_def)

definition sameCmd :: "'w lib \<Rightarrow> 'w lib \<Rightarrow> bool" where
  "sameCmd l l' \<longleftrightarrow> serverCmd l' = serverCmd l"

interpretation cmd: frame sameCmd
  by unfold_locales (auto simp: sameCmd_def)

lemma onWorld_cmd: "keeps sameCmd (onWorld m)"
  by (auto simp: keeps_def sameCmd_def onWorld_def zoomM_def split: prod.splits)

lemma findUnusedPort_cmd: "keeps sameCmd (wrapped msg (findUnusedPort h))"
  unfolding wrapped_def findUnusedPort_def by (intro frame_intros onWorld_cmd)

lemma onWorld_kept: "sameLive servers m \<Longrightarrow> keeps (liveKept servers n) (onWorld m)"
  by (auto simp: sameLive_def keeps_def liveKept_def liveServers_def onWorld_def zoomM_def split: prod.splits)
    (metis snd_conv)+

lemma onRpc_kept: "sameLive servers m \<Longrightarrow> keeps (liveKept servers n) (onRpc m)"
  unfolding onRpc_def
  by (rule kept.bind_frame [OF kept.gets_frame])
    (auto split: rpcConn.split intro: onWorld_kept kept.panic_frame kept.fail_frame)

lemma set_kept: "c \<noteq> ClosedClient \<Longrightarrow> keeps (liveKept servers n) (modifyM (\<lambda>l. l\<lparr>rpcClient := c\<rparr>))"
  by (simp add: keeps_def liveKept_def liveServers_def)

lemma connectLoop_kept:
  assumes "hostKeeps h servers"
  shows "keeps (liveKept servers n) (connectLoop h address tries interval err)"
proof (induction tries arbitrary: interval err)
  case (Suc tries)
  then show ?case
    using assms unfolding connectLoop.simps hostKeeps_def
    by (intro frame_intros set_kept onWorld_kept) auto
qed (simp add: kept.fail_frame)

lemma connectServer_kept: "hostKeeps h servers \<Longrightarrow> keeps (liveKept servers n) (connectServer h address)"
  by (simp add: connectServer_def connectLoop_kept)

text \<open>A client closed before is replaced by the first try to connect.\<close>

lemma connectServer_open:
  assumes "hostKeeps h servers" and "connectServer h address l = (r, l')" and "r = Ok () \<or> r = Fail e"
  shows "rpcClient l' \<noteq> ClosedClient"
proof -
  obtain d w where dial: "dial h address (world l) = (d, w)" by fastforce
  let ?l = "l\<lparr>world := w, rpcClient := NilClient\<rparr>"
  show ?thesis
  proof (cases "\<exists>err. d = Fail err")
    case True
    then obtain err where d: "d = Fail err" by blast
    have five: "(5::nat) = Suc 4" by simp
    have "seqM (onWorld (sleep h 100)) (connectLoop h address 4 (100 * 2) err) ?l = (r, l')"
      using assms(2) dial d unfolding connectServer_def five connectLoop.simps
      by (simp add: branchM_def onWorld_def zoomM_def)
    moreover have "keeps (liveKept servers 0) (seqM (onWorld (sleep h 100)) (connectLoop h address 4 (100 * 2) err))"
      using assms(1) by (intro kept.seq_frame onWorld_kept connectLoop_kept) (simp_all add: hostKeeps_def)
    ultimately show ?thesis by (auto dest!: keepsD simp: liveKept_def)
  next
    case False
    with assms(2,3) dial show ?thesis
      by (cases d) (auto simp: connectServer_def numeral_eq_Suc branchM_def onWorld_def zoomM_def)
  qed
qed

text \<open>After the server has been started, nothing in initialize stops it.\<close>

lemma afterConnect_kept:
  assumes "hostKeeps h servers"
  shows "keeps (liveKept servers n) (seqM (checkVersion h)
    (bindM (readM (\<lambda>l. executable h (world l))) (\<lambda>programPath.
     bindM (getsM (f programPath)) (\<lambda>attachArgs.
     seqM (onRpc (callAttach h attachArgs)) (onRpc (callAddEnd h (stopFuncAddr h)))))))"
  using assms unfolding hostKeeps_def checkVersion_def
  by (intro frame_intros onRpc_kept) auto

lemma startServer_live:
  assumes keeps: "hostKeeps h servers" and starts: "hostStarts h servers"
    and l: "liveServers servers m l" "serverCmd l = None" and run: "startServer h l = (r, l')"
  shows "liveServers servers m l' \<and> (serverCmd l' = Some True \<longleftrightarrow> (\<exists>address. r = Ok address))"
proof -
  have kept: "keeps (liveKept servers m) (wrapped ''failed to find unused port'' (findUnusedPort h))"
    using keeps unfolding hostKeeps_def wrapped_def findUnusedPort_def
    by (intro frame_intros onWorld_kept) auto
  have port: "servers (world l1) = m \<and> serverCmd l1 = None"
    if p: "wrapped ''failed to find unused port'' (findUnusedPort h) l = (p, l1)" for p l1
  proof -
    have "liveServers servers m l1" using keepsD [OF kept p] l by (simp add: liveKept_def)
    moreover have "serverCmd l1 = None" using keepsD [OF findUnusedPort_cmd p] l by (simp add: sameCmd_def)
    ultimately show ?thesis by (simp add: liveServers_def)
  qed
  obtain p l1 where p: "wrapped ''failed to find unused port'' (findUnusedPort h) l = (p, l1)" by fastforce
  note port = port [OF p]
  show ?thesis
  proof (cases "\<exists>n. p = Ok n")
    case True
    then obtain n where n: "p = Ok n" by blast
    let ?run = "startCommand h tracerProgramName (serverArgs (libVerbose l1) ('':'' @ dec_int n)) (libWriter l1) (libErrorWriter l1)"
    obtain q w where q: "?run (world l1) = (q, w)" by fastforce
    have "servers w = m + (if q = Ok () then 1 else 0)"
      using starts q port unfolding hostStarts_def by fastforce
    then show ?thesis
      using run p n q
      by (cases q) (auto simp: startServer_def bindM_def seqM_def wrapped_def catchM_def onWorld_def zoomM_def
          Let_def liveServers_def)
  next
    case False
    with run p port show ?thesis
      by (cases p) (auto simp: startServer_def bindM_def liveServers_def)
  qed
qed

text \<open>
  When terminateServer leaves the process running: closing the client or killing the process
  failed. \<open>ClosedClient\<close> stands for a client closed before, which terminateServer cannot close again.
\<close>

definition serverLeft :: "'w host \<Rightarrow> 'w lib \<Rightarrow> bool" where
  "serverLeft h l \<longleftrightarrow> serverCmd l = Some True \<and> (case rpcClient l of
       NilClient \<Rightarrow> fst (killServer h (world l)) \<noteq> Ok ()
     | OpenClient \<Rightarrow> fst (closeClient h (world l)) \<noteq> Ok ()
         \<or> fst (killServer h (snd (closeClient h (world l)))) \<noteq> Ok ()
     | ClosedClient \<Rightarrow> True)"

lemma initialize_live:
  assumes keeps: "hostKeeps h servers" and starts: "hostStarts h servers"
    and l: "liveServers servers m l" "serverCmd l = None" and run: "initialize h a l = (r, l')"
  shows "liveServers servers m l' \<and> (r = Ok () \<longrightarrow> serverCmd l' = Some True)
    \<and> (r = Fail e \<longrightarrow> serverCmd l' = Some True \<longrightarrow> rpcClient l' \<noteq> ClosedClient)"
proof -
  obtain p l1 where s: "startServer h l = (p, l1)" by fastforce
  note started = startServer_live [OF keeps starts l s]
  show ?thesis
  proof (cases "\<exists>address. p = Ok address")
    case True
    then obtain address where p: "p = Ok address" by blast
    obtain q l2 where connect: "connectServer h address l1 = (q, l2)" by fastforce
    have l2: "liveKept servers m l1 l2" using keepsD [OF connectServer_kept [OF keeps] connect] .
    show ?thesis
    proof (cases "q = Ok ()")
      case True
      have "liveKept servers m l2 l'"
        using keepsD [OF afterConnect_kept [OF keeps]
            run [unfolded initialize_def, unfolded
                bindM_run(1) [where m = "startServer h" and s = l and a = address and s' = l1, OF s [unfolded p]]
                seqM_run(1) [where m = "connectServer h address" and s = l1 and s' = l2, OF connect [unfolded True]]]] .
      moreover have "rpcClient l2 \<noteq> ClosedClient" using connectServer_open [OF keeps connect] True by blast
      ultimately show ?thesis using started p l2 by (simp add: liveKept_def)
    next
      case False
      then have "r = q" "l' = l2"
        using run s p connect by (cases q; simp add: initialize_def bindM_def seqM_def)+
      with started p l2 False connectServer_open [OF keeps connect] show ?thesis by (auto simp: liveKept_def)
    qed
  next
    case False
    with run s started show ?thesis by (cases p) (auto simp: initialize_def bindM_def split: if_splits)
  qed
qed

lemma terminateServer_live:
  assumes keeps: "hostKeeps h servers" and starts: "hostStarts h servers" and l: "liveServers servers m l"
    and run: "terminateServer h l = (r, l')" and "r \<noteq> OutOfFuel"
  shows "servers (world l') = m + (if serverLeft h l then 1 else 0) \<and> serverCmd l' = None"
proof -
  obtain q w where close: "closeClient h (world l) = (q, w)" by fastforce
  have w: "servers w = servers (world l)"
    using keeps close by (auto simp: hostKeeps_def sameLive_def dest: keepsD)
  have killed: "servers w2 = servers w1 - (if k = Ok () then 1 else 0)" if "killServer h w1 = (k, w2)" for k w1 w2
    using starts that unfolding hostStarts_def by blast
  have waited: "servers w2 = servers w1" if "waitServer h w1 = (k, w2)" for k w1 w2
    using keeps that by (auto simp: hostKeeps_def sameLive_def dest: keepsD)
  obtain c l1 where first: "(if rpcClient l \<noteq> NilClient then closeRpc h else returnM ()) l = (c, l1)" by fastforce
  have l1: "servers (world l1) = servers (world l)" "serverCmd l1 = serverCmd l"
    and closed: "c = Ok () \<longleftrightarrow> (rpcClient l = NilClient \<or> rpcClient l = OpenClient \<and> q = Ok ())"
    and at: "c = Ok () \<longrightarrow> world l1 = (if rpcClient l = OpenClient then w else world l)"
    using first close w
    by (cases "rpcClient l"; auto simp: closeRpc_def seqM_def bindM_def onWorld_def zoomM_def)+
  show ?thesis
  proof (cases "c = Ok () \<and> serverCmd l = Some True")
    case True
    then have c: "c = Ok ()" and cmd: "serverCmd l1 = Some True" using l1 by simp_all
    obtain k w' where kill: "killServer h (world l1) = (k, w')" by fastforce
    obtain x w'' where wait: "waitServer h w' = (x, w'')" by fastforce
    have left: "serverLeft h l \<longleftrightarrow> k \<noteq> Ok ()"
      using True closed at kill close by (auto simp: serverLeft_def)
    have "serverCmd l' = None \<and> servers (world l') = servers w'"
      using run assms(5) first c cmd kill wait waited [OF wait]
      by (cases k; cases x) (auto simp: terminateServer_def deferred_def bindM_def seqM_def onWorld_def zoomM_def)
    with killed [OF kill] l1 l True left show ?thesis by (auto simp: liveServers_def)
  next
    case False
    have "serverCmd l' = None \<and> world l' = world l1"
      using run assms(5) first False l1(2)
      by (cases c) (auto simp: terminateServer_def deferred_def bindM_def seqM_def)
    moreover have "serverLeft h l \<longleftrightarrow> serverCmd l = Some True"
      using False closed close by (cases "rpcClient l") (auto simp: serverLeft_def)
    ultimately show ?thesis using l1 l by (simp add: liveServers_def)
  qed
qed

text \<open>
  C19: Whatever the outside world does (a busy port, a missing program, a connection that is never
  accepted, an older server, a refused Attach, a connection that cannot be closed, a process that
  cannot be killed), Start launches a tracer process only when the package has none, and then
  at most one: when it returns without an error the process is running; when it failed the package
  has none and is ready to try again, and the process it launched is gone unless closing the new
  connection or killing the process failed: then it is left running, and the package forgets it.
  A client kept from an earlier Start never is the reason: when a process was launched, the
  client is a new one or nil.
\<close>

theorem start_keeps_one_server:
  assumes "hostKeeps h servers" and "hostStarts h servers" and "liveServers servers m l"
    and "serverCmd l \<noteq> Some False" and "Start h a l = (r, l')" and "r \<noteq> Panic" and "r \<noteq> OutOfFuel"
  shows "if serverCmd l \<noteq> None then
      onRpc (callAddStart h a) l = (r, l') \<and> servers (world l') = m + 1 \<and> serverCmd l' = Some True
    else if r = Ok () then servers (world l') = m + 1 \<and> serverCmd l' = Some True
    else \<exists>e l1. initialize h a l = (Fail e, l1) \<and> serverCmd l' = None
      \<and> servers (world l') = m + (if serverLeft h l1 then 1 else 0)
      \<and> (serverCmd l1 = Some True \<longrightarrow> rpcClient l1 \<noteq> ClosedClient)"
proof (cases "serverCmd l")
  case None
  obtain p l1 where init: "initialize h a l = (p, l1)" by fastforce
  have started: "liveServers servers m l1 \<and> (p = Ok () \<longrightarrow> serverCmd l1 = Some True)
      \<and> (p = Fail e \<longrightarrow> serverCmd l1 = Some True \<longrightarrow> rpcClient l1 \<noteq> ClosedClient)" for e
    by (rule initialize_live [OF assms(1-3) None init])
  show ?thesis
  proof (cases "\<exists>e. p = Fail e")
    case True
    then obtain e where p: "p = Fail e" by blast
    obtain q l2 where q: "terminateServer h l1 = (q, l2)" by fastforce
    have outcome: "q \<noteq> OutOfFuel" "l' = l2" "r = Fail (Wrapped ''failed to start tracer'' e)"
      using assms(5-7) None init p q
      by (cases q; auto simp: Start_def catchM_def seqM_def bindM_def)+
    from terminateServer_live [OF assms(1,2) started [THEN conjunct1] q outcome(1)] started [of e] outcome None init p
    show ?thesis by auto
  next
    case False
    with assms(5-7) None init have "p = Ok ()" "l' = l1" "r = Ok ()"
      by (cases p; auto simp: Start_def catchM_def)+
    with started None show ?thesis by (simp add: liveServers_def)
  qed
next
  case (Some started)
  with assms(4) have cmd: "serverCmd l = Some True" by simp
  have run: "onRpc (callAddStart h a) l = (r, l')" using assms(5) Some by (simp add: Start_def)
  have "sameLive servers (callAddStart h a)" using assms(1) by (simp add: hostKeeps_def)
  from keepsD [OF onRpc_kept [OF this] run] assms(3) cmd run show ?thesis
    by (simp add: liveKept_def liveServers_def)
qed

text \<open>A world that counts the server processes, with a server of another version.\<close>

definition otherVersion :: "nat host" where
  "otherVersion = \<lparr>listenTCP = returnM 4000, closeListener = returnM (), startCommand = (\<lambda>name args out err n. (Ok (), n + 1)),
     dial = (\<lambda>address. returnM ()), sleep = (\<lambda>n. returnM ()), callVersion = returnM 2,
     callAttach = (\<lambda>args. returnM ()), callAddStart = (\<lambda>a. returnM ()), callAddEnd = (\<lambda>a. returnM ()),
     closeClient = returnM (), killServer = (\<lambda>n. (Ok (), n - 1)), waitServer = returnM (),
     executable = (\<lambda>n. Ok ''a.out''), pid = 7, runtimeVersion = ''go1.12'', firstModuleData = 0, stopFuncAddr = 0x40\<rparr>"

abbreviation freshLib :: "nat lib" where
  "freshLib \<equiv> newLib 0"

text \<open>The same, where the connection cannot be closed.\<close>

abbreviation stuckConnection :: "nat host" where
  "stuckConnection \<equiv> otherVersion\<lparr>closeClient := failM (ErrMsg ''EIO'')\<rparr>"

lemma otherVersion_keeps: "hostKeeps otherVersion (\<lambda>n. n)" "hostKeeps stuckConnection (\<lambda>n. n)"
  by (simp_all add: hostKeeps_def sameLive_def keeps_def otherVersion_def)

lemma otherVersion_starts: "hostStarts otherVersion (\<lambda>n. n)" "hostStarts stuckConnection (\<lambda>n. n)"
  by (auto simp: hostStarts_def otherVersion_def)

lemma otherVersion_initialize:
  "initialize h 0x20 freshLib = (Fail (ErrMsg ''the expected API version is not same as the actual API version''),
     (newLib 1)\<lparr>rpcClient := OpenClient, serverCmd := Some True\<rparr>)"
  if "h = otherVersion \<or> h = stuckConnection"
  using that
  by (auto simp: newLib_def otherVersion_def initialize_def startServer_def findUnusedPort_def
      wrapped_def onWorld_def zoomM_def catchM_def seqM_def bindM_def connectServer_def eval_nat_numeral
      branchM_def checkVersion_def onRpc_def expectedVersion_def Let_def)

lemma otherVersion_Start:
  "fst (Start h 0x20 freshLib) = Fail (Wrapped ''failed to start tracer''
       (ErrMsg ''the expected API version is not same as the actual API version''))"
  if "h = otherVersion \<or> h = stuckConnection"
proof -
  have nil: "serverCmd freshLib = None" by (simp add: newLib_def)
  have host: "closeClient h = returnM () \<or> closeClient h = failM (ErrMsg ''EIO'')"
      "killServer h = (\<lambda>n. (Ok (), n - 1))" "waitServer h = returnM ()"
    using that by (auto simp: otherVersion_def)
  have "Start h 0x20 freshLib = catchM (initialize h 0x20) (\<lambda>err. seqM (catchM (terminateServer h) (\<lambda>_. returnM ()))
      (failM (Wrapped ''failed to start tracer'' err))) freshLib"
    using nil by (simp add: Start_def)
  then show ?thesis
    using host unfolding catchM_def [of "initialize h 0x20"] otherVersion_initialize [OF that]
    by (auto simp: catchM_def seqM_def bindM_def terminateServer_def deferred_def closeRpc_def onWorld_def zoomM_def newLib_def)
qed

theorem start_keeps_one_server_witness:
  "world (snd (Start otherVersion 0x20 freshLib)) = 0 \<and> world (snd (Start stuckConnection 0x20 freshLib)) = 1
    \<and> serverCmd (snd (Start stuckConnection 0x20 freshLib)) = None"
proof -
  have fresh: "liveServers (\<lambda>n. n) 0 freshLib" "serverCmd freshLib = None"
    by (simp_all add: liveServers_def newLib_def)
  then have some: "serverCmd freshLib \<noteq> Some False" by simp
  obtain r1 l1 where 1: "Start otherVersion 0x20 freshLib = (r1, l1)" by fastforce
  obtain r2 l2 where 2: "Start stuckConnection 0x20 freshLib = (r2, l2)" by fastforce
  have fails: "r1 \<noteq> Ok ()" "r1 \<noteq> Panic" "r1 \<noteq> OutOfFuel" "r2 \<noteq> Ok ()" "r2 \<noteq> Panic" "r2 \<noteq> OutOfFuel"
    using otherVersion_Start [of otherVersion] otherVersion_Start [of stuckConnection] unfolding 1 2 by simp_all
  have left: "\<not> serverLeft otherVersion ((newLib 1)\<lparr>rpcClient := OpenClient, serverCmd := Some True\<rparr>)"
      "serverLeft stuckConnection ((newLib 1)\<lparr>rpcClient := OpenClient, serverCmd := Some True\<rparr>)"
    by (simp_all add: serverLeft_def otherVersion_def newLib_def)
  from start_keeps_one_server [OF otherVersion_keeps(1) otherVersion_starts(1) fresh(1) some 1 fails(2,3)] left(1) fails(1) fresh(2)
  have "world l1 = 0" by (auto simp: otherVersion_initialize)
  moreover from start_keeps_one_server [OF otherVersion_keeps(2) otherVersion_starts(2) fresh(1) some 2 fails(5,6)] left(2) fails(4) fresh(2)
  have "world l2 = 1 \<and> serverCmd l2 = None" by (auto simp: otherVersion_initialize)
  ultimately show ?thesis using 1 2 by simp
qed

end
