(* ===== verification/Command.thy ===== *)
theory Command
  imports TracerLib
begin

text \<open>
  cmd/tgo/main.go: the command tgo, with the part of Go's flag package it uses, the start of the
  service (Serve of service/service.go) over a record of the network calls, and the log
  (log/logger.go). The properties compose it with the package that starts it: what
  lib/tracer/tracer.go writes on the command line is what the command reads there.
\<close>

section \<open>The log\<close>

text \<open>
  A line of the log is kept with the flags of Go's standard logger it was printed under, which
  say what header it gets: none for 0. The formatting functions of fmt are a record.
\<close>

record logger =
  EnableDebugLog :: bool
  logFlags :: nat
  logLines :: "(nat \<times> string) list"

record 'v fmt =
  Sprint :: "'v list \<Rightarrow> string"
  Sprintf :: "string \<Rightarrow> 'v list \<Rightarrow> string"
  Sprintln :: "'v list \<Rightarrow> string"

definition newLogger :: logger where
  "newLogger = \<lparr>EnableDebugLog = False, logFlags = 3, logLines = []\<rparr>"

definition endLine :: "string \<Rightarrow> string" where
  "endLine s = (if s = [] \<or> last s \<noteq> CHR 10 then s @ [CHR 10] else s)"

definition logOutput :: "string \<Rightarrow> (logger, unit) prog" where
  "logOutput s = modifyM (\<lambda>l. l\<lparr>logLines := logLines l @ [(logFlags l, endLine s)]\<rparr>)"

definition logPrint :: "'v fmt \<Rightarrow> 'v list \<Rightarrow> (logger, unit) prog" where
  "logPrint f v = logOutput (Sprint f v)"

definition logPrintf :: "'v fmt \<Rightarrow> string \<Rightarrow> 'v list \<Rightarrow> (logger, unit) prog" where
  "logPrintf f format v = logOutput (Sprintf f format v)"

definition logPrintln :: "'v fmt \<Rightarrow> 'v list \<Rightarrow> (logger, unit) prog" where
  "logPrintln f v = logOutput (Sprintln f v)"

definition whenDebug :: "(logger, unit) prog \<Rightarrow> (logger, unit) prog" where
  "whenDebug m = bindM (getsM EnableDebugLog) (\<lambda>enabled. if enabled then m else returnM ())"

definition logDebug :: "'v fmt \<Rightarrow> 'v list \<Rightarrow> (logger, unit) prog" where
  "logDebug f v = whenDebug (logPrint f v)"

definition logDebugf :: "'v fmt \<Rightarrow> string \<Rightarrow> 'v list \<Rightarrow> (logger, unit) prog" where
  "logDebugf f format v = whenDebug (logPrintf f format v)"

definition logDebugln :: "'v fmt \<Rightarrow> 'v list \<Rightarrow> (logger, unit) prog" where
  "logDebugln f v = whenDebug (logPrintln f v)"

definition logInit :: "(logger, unit) prog" where
  "logInit = modifyM (\<lambda>l. l\<lparr>logFlags := 0\<rparr>)"

section \<open>Flags\<close>

text \<open>
  Go's FlagSet.Parse for a set of boolean flags, which maps the name of every flag to its value:
  the set and the arguments left, the request for help, or an error and its message. Flags come
  before the arguments; the first argument without a dash, a dash alone, and two of them end
  the flags. \<open>ParseBool\<close> is that of strconv.
\<close>

type_synonym flagSet = "string \<rightharpoonup> bool"

datatype flagResult = Parsed flagSet "string list" | HelpAsked | BadFlag string

definition ParseBool :: "string \<Rightarrow> bool option" where
  "ParseBool s =
     (if s \<in> {''1'', ''t'', ''T'', ''TRUE'', ''true'', ''True''} then Some True
      else if s \<in> {''0'', ''f'', ''F'', ''FALSE'', ''false'', ''False''} then Some False
      else None)"

definition flagName :: "string \<Rightarrow> string" where
  "flagName s = drop (if s ! 1 = CHR ''-'' then 2 else 1) s"

text \<open>The first character cannot be the equals sign here.\<close>

definition nameAndValue :: "string \<Rightarrow> string \<times> string option" where
  "nameAndValue name =
     (case dropWhile (\<lambda>c. c \<noteq> CHR ''='') name of
        [] \<Rightarrow> (name, None)
      | _ # val \<Rightarrow> (takeWhile (\<lambda>c. c \<noteq> CHR ''='') name, Some val))"

fun flagParse :: "flagSet \<Rightarrow> string list \<Rightarrow> flagResult" where
  "flagParse fs [] = Parsed fs []"
| "flagParse fs (s # args) =
     (if length s < 2 \<or> hd s \<noteq> CHR ''-'' then Parsed fs (s # args)
      else if s = ''--'' then Parsed fs args
      else let name = flagName s in
        if name = [] \<or> hd name = CHR ''-'' \<or> hd name = CHR ''='' then BadFlag (''bad flag syntax: '' @ s)
        else let (name, val) = nameAndValue name in
          case fs name of
            None \<Rightarrow> (if name = ''help'' \<or> name = ''h'' then HelpAsked
                else BadFlag (''flag provided but not defined: -'' @ name))
          | Some _ \<Rightarrow> (case val of
                None \<Rightarrow> flagParse (fs(name \<mapsto> True)) args
              | Some b \<Rightarrow> (case ParseBool b of
                    None \<Rightarrow> BadFlag (''invalid boolean value '' @ b @ '' for -'' @ name)
                  | Some v \<Rightarrow> flagParse (fs(name \<mapsto> v)) args)))"

section \<open>Serving one client\<close>

text \<open>
  The network calls as a record over the state of the outside world; \<open>ServeConn\<close> answers the
  calls of the one client until it hangs up.
\<close>

record 'w net =
  Listen :: "string \<Rightarrow> ('w, unit) prog"
  Accept :: "('w, unit) prog"
  CloseListener :: "('w, unit) prog"
  ServeConn :: "('w, unit) prog"
  CloseConn :: "('w, unit) prog"

definition ignoreErr :: "('s, unit) prog \<Rightarrow> ('s, unit) prog" where
  "ignoreErr m = catchM m (\<lambda>_. returnM ())"

text \<open>The listener is closed as soon as there is a connection, or none is to come.\<close>

definition Serve :: "'w net \<Rightarrow> string \<Rightarrow> ('w, unit) prog" where
  "Serve k address =
     seqM (Listen k address)
     (branchM (Accept k)
       (\<lambda>_. seqM (ignoreErr (CloseListener k)) (seqM (ServeConn k) (ignoreErr (CloseConn k))))
       (\<lambda>err. seqM (ignoreErr (CloseListener k)) (failM err)))"

section \<open>The command\<close>

text \<open>
  The state of the process. A function of the command returns, or exits the process with a
  status (\<open>Inl\<close>). The status of an exit after a request for help was 2 in Go up to 1.14 and is
  0 from then on: \<open>helpStatus\<close>.
\<close>

record 'w cmd =
  outside :: 'w
  logOf :: logger
  stderr :: "string list"

definition printErr :: "string list \<Rightarrow> ('w cmd, unit) prog" where
  "printErr ls = modifyM (\<lambda>s. s\<lparr>stderr := stderr s @ ls\<rparr>)"

definition exitWith :: "int \<Rightarrow> ('w cmd, int + unit) prog" where
  "exitWith status = returnM (Inl status)"

definition verboseDefaults :: "string list" where
  "verboseDefaults = [''  -verbose'', ''    '' @ CHR 9 # ''Show the debug-level message'']"

definition serverUsage :: "string \<Rightarrow> ('w cmd, unit) prog" where
  "serverUsage prog = printErr ([''Usage:'', '''', ''  '' @ prog @ '' server [flags] [hostname:port]'', '''', ''Flags:'']
     @ verboseDefaults)"

definition serverCommand :: "'w net \<Rightarrow> int \<Rightarrow> string \<Rightarrow> string list \<Rightarrow> ('w cmd, int + unit) prog" where
  "serverCommand k helpStatus prog args =
     (case flagParse [''verbose'' \<mapsto> False] args of
        HelpAsked \<Rightarrow> seqM (serverUsage prog) (exitWith helpStatus)
      | BadFlag msg \<Rightarrow> seqM (printErr [msg]) (seqM (serverUsage prog) (exitWith 2))
      | Parsed fs [] \<Rightarrow> seqM (serverUsage prog) (exitWith 1)
      | Parsed fs (address # rest) \<Rightarrow>
          seqM (modifyM (\<lambda>s. s\<lparr>logOf := (logOf s)\<lparr>EnableDebugLog := fs ''verbose'' = Some True\<rparr>\<rparr>))
            (bindM (zoomM outside (\<lambda>w s. s\<lparr>outside := w\<rparr>) (Serve k address)) (\<lambda>_. returnM (Inr ()))))"

definition mainUsage :: "string \<Rightarrow> ('w cmd, unit) prog" where
  "mainUsage prog = printErr [''tgo is the function tracer for Go programs.'', '''', ''Usage:'', '''',
     ''  '' @ prog @ '' <command> [arguments]'', '''', ''Commands:'', '''',
     ''  server   launches the server which offers tracing service. See https://godoc.org/github.com/ks888/tgo/service for the detail.'',
     '''', ''Use '' @ CHR 34 # ''tgo <command> --help'' @ CHR 34 # '' for more information about a command.'']"

fun errorText :: "error \<Rightarrow> string" where
  "errorText ErrInterrupted = ''interrupted''"
| "errorText (UnspecifiedThreadError ids) = ''unspecified threads: ['' @ joinWith '' '' (map dec_int ids) @ '']''"
| "errorText (ErrMsg msg) = msg"
| "errorText (Wrapped msg err) = msg @ '': '' @ errorText err"

text \<open>
  main, with the arguments of the process; its result is the exit status of the process. A process
  started without even a name panics as it prints the usage.
\<close>

definition mainCommand :: "'w net \<Rightarrow> int \<Rightarrow> string list \<Rightarrow> ('w cmd, int) prog" where
  "mainCommand k helpStatus osArgs =
     (case osArgs of
        [] \<Rightarrow> panicM
      | [prog] \<Rightarrow> seqM (mainUsage prog) (returnM 1)
      | prog # command # args \<Rightarrow>
          if command = ''server'' then
            branchM (serverCommand k helpStatus prog args)
              (\<lambda>r. returnM (case r of Inl status \<Rightarrow> status | Inr _ \<Rightarrow> 0))
              (\<lambda>err. seqM (printErr [errorText err]) (returnM 1))
          else seqM (mainUsage prog) (returnM 1))"

text \<open>A new process: the log has been initialised before main.\<close>

definition newCmd :: "'w \<Rightarrow> 'w cmd" where
  "newCmd w = \<lparr>outside = w, logOf = snd (logInit newLogger), stderr = []\<rparr>"

section \<open>From one program to the other\<close>

lemma verbose_is_read:
  assumes "address \<noteq> []" and "hd address \<noteq> CHR ''-''"
  shows "\<exists>fs. flagParse [''verbose'' \<mapsto> False] (tl (serverArgs verbose address)) = Parsed fs [address]
    \<and> fs ''verbose'' = Some verbose"
  using assms by (simp add: serverArgs_def flagName_def nameAndValue_def)

text \<open>What was set for the server is what it is started with: looking for a port changes none of it.\<close>

definition sameOptions :: "'w lib \<Rightarrow> 'w lib \<Rightarrow> bool" where
  "sameOptions l l' \<longleftrightarrow> libVerbose l' = libVerbose l \<and> libWriter l' = libWriter l \<and> libErrorWriter l' = libErrorWriter l"

interpretation options: frame sameOptions
  by unfold_locales (auto simp: sameOptions_def)

lemma onWorld_options: "keeps sameOptions (onWorld m)"
  by (auto simp: keeps_def sameOptions_def onWorld_def zoomM_def split: prod.splits)

lemma findUnusedPort_options: "keeps sameOptions (wrapped msg (findUnusedPort h))"
  unfolding wrapped_def findUnusedPort_def by (intro frame_intros onWorld_options)

lemma startServer_runs:
  assumes "startServer h l = (Ok address, l')"
  shows "\<exists>w. startCommand h tracerProgramName (serverArgs (libVerbose l) address) (libWriter l) (libErrorWriter l) w
      = (Ok (), world l') \<and> address \<noteq> [] \<and> hd address = CHR '':''"
proof -
  obtain n l1 where port: "wrapped ''failed to find unused port'' (findUnusedPort h) l = (Ok n, l1)"
    using assms by (auto simp: startServer_def bindM_Ok)
  let ?address = "'':'' @ dec_int n"
  obtain q w where q: "startCommand h tracerProgramName (serverArgs (libVerbose l1) ?address) (libWriter l1)
      (libErrorWriter l1) (world l1) = (q, w)" by fastforce
  have "q = Ok () \<and> address = ?address \<and> w = world l'"
    using assms port q
    by (cases q) (auto simp: startServer_def bindM_def seqM_def wrapped_def [of "''failed to start server''"] catchM_def
        onWorld_def zoomM_def Let_def)
  moreover have "sameOptions l l1" using keepsD [OF findUnusedPort_options port] .
  ultimately show ?thesis using q by (auto simp: sameOptions_def)
qed

text \<open>
  C20: The command line Start writes is the one the command reads: when startServer has launched
  the tracer process, it was with arguments for which main serves one client at the very
  address the caller goes on to connect to, with debug messages on exactly if the caller asked
  for them; the process ends with status 0 when the client was served, and prints the error and
  ends with status 1 when the service could not be offered.
\<close>

theorem started_server_serves_its_address:
  assumes "startServer h l = (Ok address, l')"
  shows "\<exists>w. startCommand h tracerProgramName (serverArgs (libVerbose l) address) (libWriter l) (libErrorWriter l) w
      = (Ok (), world l')
    \<and> mainCommand k status (tracerProgramName # serverArgs (libVerbose l) address) (newCmd v) =
        (case Serve k address v of (r, v') \<Rightarrow>
           let s = (newCmd v')\<lparr>logOf := \<lparr>EnableDebugLog = libVerbose l, logFlags = 0, logLines = []\<rparr>\<rparr> in
           case r of
             Ok _ \<Rightarrow> (Ok 0, s)
           | Fail err \<Rightarrow> (Ok 1, s\<lparr>stderr := [errorText err]\<rparr>)
           | Panic \<Rightarrow> (Panic, s)
           | OutOfFuel \<Rightarrow> (OutOfFuel, s))"
proof -
  from startServer_runs [OF assms] obtain w where
    w: "startCommand h tracerProgramName (serverArgs (libVerbose l) address) (libWriter l) (libErrorWriter l) w
      = (Ok (), world l')" and address: "address \<noteq> []" "hd address \<noteq> CHR ''-''" by auto
  from verbose_is_read [OF address, of "libVerbose l"] obtain fs where
    fs: "flagParse [''verbose'' \<mapsto> False] (tl (serverArgs (libVerbose l) address)) = Parsed fs [address]"
      "fs ''verbose'' = Some (libVerbose l)" by blast
  have args: "serverArgs (libVerbose l) address = ''server'' # tl (serverArgs (libVerbose l) address)"
    by (simp add: serverArgs_def)
  obtain r v' where "Serve k address v = (r, v')" by fastforce
  then have "mainCommand k status (tracerProgramName # ''server'' # tl (serverArgs (libVerbose l) address)) (newCmd v) =
        (case Serve k address v of (r, v') \<Rightarrow>
           let s = (newCmd v')\<lparr>logOf := \<lparr>EnableDebugLog = libVerbose l, logFlags = 0, logLines = []\<rparr>\<rparr> in
           case r of
             Ok _ \<Rightarrow> (Ok 0, s)
           | Fail err \<Rightarrow> (Ok 1, s\<lparr>stderr := [errorText err]\<rparr>)
           | Panic \<Rightarrow> (Panic, s)
           | OutOfFuel \<Rightarrow> (OutOfFuel, s))"
    using fs
    by (cases r) (simp_all add: mainCommand_def serverCommand_def branchM_def bindM_def zoomM_def newCmd_def
        logInit_def newLogger_def printErr_def)
  with w args show ?thesis by metis
qed

text \<open>A network that counts the open listeners, on which one client connects and hangs up.\<close>

definition oneClient :: "nat net" where
  "oneClient = \<lparr>Listen = (\<lambda>address n. (Ok (), n + 1)), Accept = returnM (), CloseListener = (\<lambda>n. (Ok (), n - 1)),
     ServeConn = returnM (), CloseConn = returnM ()\<rparr>"

lemma port_4000: "dec_nat 4000 = ''4000''"
  by code_simp

lemma startServer_otherVersion:
  "startServer otherVersion ((newLib 0)\<lparr>libVerbose := True\<rparr>)
     = (Ok '':4000'', (newLib 1)\<lparr>libVerbose := True, serverCmd := Some True\<rparr>)"
  by (simp add: startServer_def findUnusedPort_def wrapped_def catchM_def bindM_def seqM_def onWorld_def zoomM_def
      otherVersion_def newLib_def Let_def dec_int_def port_4000)

theorem started_server_serves_its_address_witness:
  "mainCommand oneClient 0 [''tgo'', ''server'', ''-verbose'', '':4000''] (newCmd 0)
     = (Ok 0, (newCmd 0)\<lparr>logOf := \<lparr>EnableDebugLog = True, logFlags = 0, logLines = []\<rparr>\<rparr>)"
  using started_server_serves_its_address [OF startServer_otherVersion, of oneClient 0 0]
  by (simp add: newLib_def tracerProgramName_def serverArgs_def Serve_def oneClient_def seqM_def branchM_def
      bindM_def ignoreErr_def catchM_def newCmd_def)

end
