(* ===== verification/Spec2Isabelle.thy ===== *)
theory Spec2Isabelle
  imports ArgumentProps ValueTermination LinuxProxy DwarfTree LldbProps ServiceProps Command
begin

text \<open>
  The tracer tgo.

  tgo traces the function calls of one go routine of a running Go program. It attaches to the
  program (the tracee) through a debug api, writes breakpoint instructions into its text, waits
  for the tracee to trap, reads the arguments and results of the calls from the stack of the
  tracee and prints them.

  Parts and theories (file and function names are those under src/):

  \<^item> Prelude: the results of fallible code (\<open>outcome\<close>: a value, an error, a Go panic, or no
    result within the fuel), the state monad \<open>prog\<close> over them, the locale \<open>frame\<close> with which an
    invariant of the state is carried through a program, slices, little-endian words, memory.
  \<^item> Breakpoints (tracer/breakpoints.go): the map of conditional breakpoints, which counts for
    every address the go routines that claim it. The two closures that set and clear a breakpoint
    in the tracee are the argument \<open>physical\<close>, a locale with the laws they must keep.
  \<^item> TracingPoints (tracer/tracingpoints.go): the start and end addresses and the list of the go
    routines under trace.
  \<^item> DebugApi (debugapi/client.go): the interface of the clients as a record of operations, and
    the locale \<open>tracee_text\<close> of the laws of memory the tracee process relies on.
  \<^item> LinuxClient (debugapi/client_linux.go): the ptrace client over a record of system calls;
    it discharges \<open>tracee_text\<close>. LinuxProxy: the callers and the go routine that serves all requests
    from one thread, as steps; they refine a client whose methods are atomic, which is what the
    other theories use.
  \<^item> LldbCodec, LldbClient (debugapi/client_darwin.go): hexadecimal numbers and packets, and the
    client of lldb's debugserver over a record of its connection; LldbProps: registers
    and memory over a connection to a server that answers as the protocol documents, stop replies.
    Its reads go over the connection, so it is not an instance of the interface record, whose
    reads only observe.
  \<^item> GoStrings, Version (tracee/version.go): string helpers of the Go library and the versions.
  \<^item> Binary, LocationDesc (tracee/binary.go): DWARF types as data, the types written out for a
    program without DWARF sections, and the decoders of location descriptions and lists.
  \<^item> DwarfReader (tracee/binary.go): the entries of the debug info section, the reader the Go
    library offers over them, and the search for a function, its parameters and their locations;
    DebuggableBinary: the program file with DWARF sections and how a file is opened
    (tracee/binary_linux.go, tracee/binary_darwin.go); DwarfTree: the forest that the flat list of
    entries stands for, which the search refines.
  \<^item> ModuleData (tracee/moduledata.go) and FuncTab (tracee/process.go, findFunctionByModuleData
    and below): the runtime tables from which a function is found by its program counter.
  \<^item> Params (tracee/process.go, fillIn* and below): the locations of parameters DWARF leaves out.
  \<^item> Value (tracee/value.go): the parser and printer of values. ValueLayout says without the parser
    what value the bytes of a Go variable and the memory behind it hold (\<open>stored\<close>, with the map
    layout of Go 1.10 and 1.11 and maps that are not growing: of a growing map the code itself
    logs that its value may be defective) and how much of it is shown at a depth (\<open>abridge\<close>); ValueRead proves kind by kind that the parser reads it, ValueProps puts
    it together. ValueTypes says what value a DWARF type allows (\<open>conforms\<close>) and proves that the
    parser returns no other, whatever the bytes are; ValueTermination that it returns for types
    that refer to themselves through structs only, and reach no interface and no map.
  \<^item> Process (tracee/process.go): the tracee process: breakpoint instructions, stepping, stack
    frames, go routines; Patching holds its invariants: what the text of the tracee holds.

  \<^item> Controller (tracer/controller.go): the main loop and all handlers of traps, on the model of the
    tracee process. ControllerFrames proves once what every handler respects, as locales
    (\<open>op_frame\<close>, \<open>trap_frame\<close>, \<open>event_frame\<close>, \<open>main_frame\<close>); ControllerSync and ControllerStacks interpret
    them on the invariants (breakpoint map and process agree, the text is under its breakpoints,
    stacks are ordered, go routines do not disturb each other); ControllerRuns adds the step
    relation in which requests interleave with the rounds of the loop; ControllerProps,
    ControllerCalls and ControllerTraps hold the properties; ArgumentProps composes stack frames, the
    value parser and the printing of calls and returns.

  \<^item> Service (service/service.go, with LaunchProcess and AttachProcess of tracee/process.go and
    LaunchTracee and AttachTracee of tracer/controller.go): the methods of the RPC service, the go
    routine of the main loop in turns, and the one that waits for it, as a step relation over
    the controller's state; ServiceProps holds its properties.
  \<^item> TracerLib (lib/tracer/tracer.go): the package that starts the tracer process, connects to
    it and lets it attach, with the RPC client as nil, open or closed: a failed start leaves it
    closed, and how many tracer processes are left depends on it.
  \<^item> Command (cmd/tgo/main.go, Serve of service/service.go, log/logger.go): the command the
    package starts, from its arguments to the service, and the log.

  Groups of lemmas. Every component has its functional lemmas beside its operations; the
  invariants of the tracee process (the text is the original one patched by the breakpoint map)
  are in Patching and hold for every client that keeps the laws of \<open>tracee_text\<close>, the ptrace
  client among them; the refinement of the breakpoint map to claims is in Breakpoints and is
  interpreted on the breakpoint operations of the process.

  Fuel. A loop that may run forever takes a number of rounds and answers \<open>OutOfFuel\<close> when they
  are used up; the theorems about such a loop say that some bound of rounds suffices, or that no
  number does.

  Not modelled: the test utilities and examples (testutils, _examples), which build and are the
  programs the tests trace; the RPC transport of the Go library; the log lines the components
  write (only the log itself is a component). The writers for the tracing log are an output
  list. What the Go library decodes from the bytes of an executable, of DWARF and of machine
  code is data of the model.
\<close>

end
